(* ===== verification/Omni_Prelude.thy ===== *)
theory Omni_Prelude
  imports Main "HOL-Library.Word"
begin

text \<open>
  The shared base of the development.  It holds the types every component uses (bytes,
  Go errors, results), the fixed-width integer encodings of \<^verbatim>\<open>encoding/binary\<close> that
  the source calls, and the collections of rewrite rules the component theories draw on.

  A Go function that returns \<^verbatim>\<open>(T, error)\<close> is modelled by the sum \<open>goerr + T\<close>, with
  \<open>Inl\<close> for a non-nil error; one that returns only \<^verbatim>\<open>error\<close> by \<open>goerr option\<close>.
  A Go \<^verbatim>\<open>string\<close> is a \<^typ>\<open>string\<close> (a list of characters, read as bytes), a
  \<^verbatim>\<open>[]byte\<close> is a list of 8-bit words.
\<close>

unbundle bit_operations_syntax

named_theorems result_iff \<open>characterisations of \<open>f x = Inr y\<close> for fallible operations\<close>
named_theorems omni_defs \<open>definitions that component proofs unfold by default\<close>

section \<open>Bytes\<close>

type_synonym byte = "8 word"
type_synonym bytes = "byte list"
type_synonym u16 = "16 word"
type_synonym u32 = "32 word"
type_synonym u64 = "64 word"

text \<open>The conversions \<^verbatim>\<open>[]byte(s)\<close> and \<^verbatim>\<open>string(b)\<close>.\<close>

definition bytes_of :: "string \<Rightarrow> bytes" where
  "bytes_of s = map (\<lambda>c. of_nat (of_char c)) s"

definition string_of :: "bytes \<Rightarrow> string" where
  "string_of bs = map (\<lambda>b. char_of (unat b)) bs"

section \<open>Errors\<close>

text \<open>
  The kinds of \<^verbatim>\<open>backend.Error\<close> (src/internal/backend/errors.go); the type lives here
  because \<^verbatim>\<open>errors.As\<close> has to see through it.
\<close>

datatype ErrorKind = ErrorUnavailable | ErrorTimeout | ErrorProtocol

text \<open>
  A Go error value.  \<open>ErrNew\<close> is \<^verbatim>\<open>errors.New\<close> (or \<^verbatim>\<open>fmt.Errorf\<close> without
  \<^verbatim>\<open>%w\<close>), \<open>ErrWrap\<close> is \<^verbatim>\<open>fmt.Errorf("msg: %w", err)\<close>, \<open>ErrSentinel\<close> is one of the
  package-level error variables compared by identity (\<^verbatim>\<open>io.EOF\<close>,
  \<^verbatim>\<open>context.DeadlineExceeded\<close>, \<^verbatim>\<open>os.ErrNotExist\<close>, ...), \<open>ErrErrno\<close> a Windows error
  number, and \<open>ErrBackend\<close> a \<^verbatim>\<open>*backend.Error\<close> with its kind, operation and cause.
\<close>

datatype goerr =
    ErrNew string
  | ErrWrap string goerr
  | ErrSentinel string
  | ErrErrno nat
  | ErrBackend ErrorKind string goerr

abbreviation "EOF \<equiv> ErrSentinel ''io.EOF''"
abbreviation "ErrUnexpectedEOF \<equiv> ErrSentinel ''io.ErrUnexpectedEOF''"
abbreviation "ErrNotExist \<equiv> ErrSentinel ''os.ErrNotExist''"
abbreviation "DeadlineExceeded \<equiv> ErrSentinel ''context.DeadlineExceeded''"
abbreviation "Canceled \<equiv> ErrSentinel ''context.Canceled''"

text \<open>The chain of errors that \<^verbatim>\<open>errors.Is\<close> and \<^verbatim>\<open>errors.As\<close> walk with \<^verbatim>\<open>Unwrap\<close>.\<close>

fun err_chain :: "goerr \<Rightarrow> goerr list" where
  "err_chain (ErrWrap m e) = ErrWrap m e # err_chain e"
| "err_chain (ErrBackend k op e) = ErrBackend k op e # err_chain e"
| "err_chain e = [e]"

definition errors_Is :: "goerr \<Rightarrow> goerr \<Rightarrow> bool" where
  "errors_Is e target = List.member (err_chain e) target"

text \<open>\<^verbatim>\<open>errors.Is\<close> on a possibly nil error: nil matches no sentinel.\<close>

definition is_err :: "goerr option \<Rightarrow> goerr \<Rightarrow> bool" where
  "is_err eo target = (case eo of None \<Rightarrow> False | Some e \<Rightarrow> errors_Is e target)"

type_synonym 'a result = "goerr + 'a"

definition rbind :: "'e + 'a \<Rightarrow> ('a \<Rightarrow> 'e + 'b) \<Rightarrow> 'e + 'b" where
  "rbind r f = (case r of Inl e \<Rightarrow> Inl e | Inr a \<Rightarrow> f a)"

text \<open>The error part of a result.\<close>

definition err_of :: "'e + 'a \<Rightarrow> 'e option" where
  "err_of r = (case r of Inl e \<Rightarrow> Some e | Inr _ \<Rightarrow> None)"

section \<open>Fixed-width integers in byte order\<close>

text \<open>\<^verbatim>\<open>binary.BigEndian\<close> and \<^verbatim>\<open>binary.LittleEndian\<close> on four bytes, as the library shifts.\<close>

definition be_put32 :: "u32 \<Rightarrow> bytes" where
  "be_put32 v = [ucast (drop_bit 24 v), ucast (drop_bit 16 v), ucast (drop_bit 8 v), ucast v]"

definition le_put32 :: "u32 \<Rightarrow> bytes" where
  "le_put32 v = [ucast v, ucast (drop_bit 8 v), ucast (drop_bit 16 v), ucast (drop_bit 24 v)]"

definition be_join :: "byte \<Rightarrow> byte \<Rightarrow> byte \<Rightarrow> byte \<Rightarrow> u32" where
  "be_join a b c d =
     ucast d OR push_bit 8 (ucast c) OR push_bit 16 (ucast b) OR push_bit 24 (ucast a)"

text \<open>Reading a slice shorter than four bytes panics in Go: \<open>None\<close>.\<close>

fun be_get32 :: "bytes \<Rightarrow> u32 option" where
  "be_get32 (a # b # c # d # _) = Some (be_join a b c d)"
| "be_get32 _ = None"

fun le_get32 :: "bytes \<Rightarrow> u32 option" where
  "le_get32 (a # b # c # d # _) = Some (be_join d c b a)"
| "le_get32 _ = None"

section \<open>Lemmas\<close>

lemma unat_byte_less: "unat (b :: byte) < 256"
  using unsigned_less [of b, where ?'a = nat] by simp

lemma bytes_of_string_of [simp]: "bytes_of (string_of bs) = bs"
  by (induction bs) (simp_all add: bytes_of_def string_of_def unat_byte_less)

lemma string_of_bytes_of [simp]: "string_of (bytes_of s) = s"
proof -
  have "unat (of_nat (of_char c) :: byte) = of_char c" for c :: char
    by (simp add: unat_of_nat)
  then show ?thesis
    by (induction s) (simp_all add: bytes_of_def string_of_def)
qed

lemma length_bytes_of [simp]: "length (bytes_of s) = length s"
  by (simp add: bytes_of_def)

lemma length_string_of [simp]: "length (string_of s) = length s"
  by (simp add: string_of_def)

lemma bytes_of_append [simp]: "bytes_of (a @ b) = bytes_of a @ bytes_of b"
  by (simp add: bytes_of_def)

lemma bytes_of_inject [simp]: "bytes_of a = bytes_of b \<longleftrightarrow> a = b"
  by (metis string_of_bytes_of)

lemma err_chain_self: "e \<in> set (err_chain e)"
  by (cases e) simp_all

lemma errors_Is_refl [simp]: "errors_Is e e"
  by (simp add: errors_Is_def err_chain_self)

lemma errors_Is_wrap [simp]:
  "errors_Is (ErrWrap m e) t \<longleftrightarrow> t = ErrWrap m e \<or> errors_Is e t"
  by (auto simp: errors_Is_def)

lemma errors_Is_backend [simp]:
  "errors_Is (ErrBackend k op e) t \<longleftrightarrow> t = ErrBackend k op e \<or> errors_Is e t"
  by (auto simp: errors_Is_def)

lemma errors_Is_leaf [simp]:
  "errors_Is (ErrNew m) t \<longleftrightarrow> t = ErrNew m"
  "errors_Is (ErrSentinel s) t \<longleftrightarrow> t = ErrSentinel s"
  "errors_Is (ErrErrno n) t \<longleftrightarrow> t = ErrErrno n"
  by (auto simp: errors_Is_def)

lemma is_err_simps [simp]:
  "is_err None t = False"
  "is_err (Some e) t = errors_Is e t"
  by (simp_all add: is_err_def)

lemma rbind_simps [simp]:
  "rbind (Inl e) f = Inl e"
  "rbind (Inr a) f = f a"
  by (simp_all add: rbind_def)

lemma rbind_Inr_iff [result_iff]: "rbind r f = Inr b \<longleftrightarrow> (\<exists>a. r = Inr a \<and> f a = Inr b)"
  by (cases r) simp_all

lemma rbind_Inl_iff [result_iff]:
  "rbind r f = Inl e \<longleftrightarrow> r = Inl e \<or> (\<exists>a. r = Inr a \<and> f a = Inl e)"
  by (cases r) simp_all

lemma err_of_simps [simp]:
  "err_of (Inl e) = Some e"
  "err_of (Inr a) = None"
  by (simp_all add: err_of_def)

lemma if_Inr_iff [result_iff]: "(if b then Inl e else r) = Inr x \<longleftrightarrow> \<not> b \<and> r = Inr x"
  by simp

lemma length_put32 [simp]:
  "length (be_put32 v) = 4"
  "length (le_put32 v) = 4"
  by (simp_all add: be_put32_def le_put32_def)

lemma be_join_parts:
  "be_join (ucast (drop_bit 24 v)) (ucast (drop_bit 16 v)) (ucast (drop_bit 8 v)) (ucast v) = v"
proof (rule bit_word_eqI)
  fix n assume "n < LENGTH(32)"
  then have n: "n < 32" by simp
  consider "n < 8" | "8 \<le> n" "n < 16" | "16 \<le> n" "n < 24" | "24 \<le> n" using n by linarith
  then show "bit (be_join (ucast (drop_bit 24 v)) (ucast (drop_bit 16 v))
      (ucast (drop_bit 8 v)) (ucast v)) n = bit v n"
    by cases (use n in \<open>auto simp: be_join_def bit_simps\<close>)
qed

lemma be_get32_put [simp]: "be_get32 (be_put32 v @ bs) = Some v"
  by (simp add: be_put32_def be_join_parts)

lemma le_get32_put [simp]: "le_get32 (le_put32 v @ bs) = Some v"
  by (simp add: le_put32_def be_join_parts)

lemma be_get32_None_iff: "be_get32 bs = None \<longleftrightarrow> length bs < 4"
  by (cases bs rule: be_get32.cases) auto

lemma le_get32_None_iff: "le_get32 bs = None \<longleftrightarrow> length bs < 4"
  by (cases bs rule: le_get32.cases) auto

end
