(* ===== verification/Go_Lib.thy ===== *)
theory Go_Lib
  imports Omni_Prelude
begin

text \<open>
  The functions of Go's standard library that the source computes with: \<^verbatim>\<open>strings\<close>,
  \<^verbatim>\<open>strconv\<close>, \<^verbatim>\<open>encoding/hex\<close> and slicing.  Case mapping and white space are those of the
  ASCII range, which is the range of every literal the source compares against; a byte outside
  it is left alone and is not white space.

  Two families of library functions are \<^emph>\<open>parameters\<close> of the definitions that use them and
  have no model here: \<^verbatim>\<open>path/filepath\<close> on Windows (record \<open>filepath_ops\<close>) and
  \<^verbatim>\<open>time.ParseDuration\<close>, which computes with floating point.
\<close>

section \<open>strings\<close>

definition char_code :: "char \<Rightarrow> nat" where
  "char_code c = of_char c"

definition isSpace :: "char \<Rightarrow> bool" where
  "isSpace c = (char_code c = 32 \<or> 9 \<le> char_code c \<and> char_code c \<le> 13)"

definition lower_char :: "char \<Rightarrow> char" where
  "lower_char c = (if 65 \<le> char_code c \<and> char_code c \<le> 90 then char_of (char_code c + 32) else c)"

definition ToLower :: "string \<Rightarrow> string" where
  "ToLower s = map lower_char s"

definition EqualFold :: "string \<Rightarrow> string \<Rightarrow> bool" where
  "EqualFold a b = (ToLower a = ToLower b)"

definition HasPrefix :: "string \<Rightarrow> string \<Rightarrow> bool" where
  "HasPrefix s p = (take (length p) s = p)"

definition TrimPrefix :: "string \<Rightarrow> string \<Rightarrow> string" where
  "TrimPrefix s p = (if HasPrefix s p then drop (length p) s else s)"

definition HasSuffix :: "string \<Rightarrow> string \<Rightarrow> bool" where
  "HasSuffix s p = HasPrefix (rev s) (rev p)"

definition TrimSpace :: "string \<Rightarrow> string" where
  "TrimSpace s = rev (dropWhile isSpace (rev (dropWhile isSpace s)))"

definition ContainsAny :: "string \<Rightarrow> string \<Rightarrow> bool" where
  "ContainsAny s cs = list_ex (\<lambda>c. List.member cs c) s"

fun strJoin :: "string list \<Rightarrow> string \<Rightarrow> string" where
  "strJoin [] sep = []"
| "strJoin [p] sep = p"
| "strJoin (p # q # ps) sep = p @ sep @ strJoin (q # ps) sep"

text \<open>\<^verbatim>\<open>strings.Split\<close> with a separator of one byte, and \<^verbatim>\<open>strings.Fields\<close>.\<close>

fun strSplit :: "string \<Rightarrow> char \<Rightarrow> string list" where
  "strSplit [] c = [[]]"
| "strSplit (x # xs) c =
     (if x = c then [] # strSplit xs c
      else (case strSplit xs c of [] \<Rightarrow> [[x]] | p # ps \<Rightarrow> (x # p) # ps))"

function Fields :: "string \<Rightarrow> string list" where
  "Fields s =
     (let t = dropWhile isSpace s in
      if t = [] then []
      else takeWhile (\<lambda>c. \<not> isSpace c) t # Fields (dropWhile (\<lambda>c. \<not> isSpace c) t))"
  by pat_completeness auto
termination
proof (relation "measure length")
  show "wf (measure length)" by simp
next
  fix s t :: string
  assume t: "t = dropWhile isSpace s" and ne: "\<not> t = []"
  have "\<not> isSpace (hd t)" using hd_dropWhile [of isSpace s] t ne by simp
  then have "length (dropWhile (\<lambda>c. \<not> isSpace c) t) < length t"
    using ne by (cases t) (simp_all add: length_dropWhile_le le_imp_less_Suc)
  also have "\<dots> \<le> length s" by (simp add: t length_dropWhile_le)
  finally show "(dropWhile (\<lambda>c. \<not> isSpace c) t, s) \<in> measure length" by simp
qed

declare Fields.simps [simp del]

section \<open>strconv\<close>

definition digit_char :: "nat \<Rightarrow> char" where
  "digit_char n = char_of (48 + n)"

fun nat_digits :: "nat \<Rightarrow> string" where
  "nat_digits n = (if n < 10 then [digit_char n] else nat_digits (n div 10) @ [digit_char (n mod 10)])"

declare nat_digits.simps [simp del]

definition Itoa :: "int \<Rightarrow> string" where
  "Itoa i = (if i < 0 then CHR ''-'' # nat_digits (nat (- i)) else nat_digits (nat i))"

definition is_digit :: "char \<Rightarrow> bool" where
  "is_digit c = (48 \<le> char_code c \<and> char_code c \<le> 57)"

definition digits_val :: "string \<Rightarrow> nat" where
  "digits_val s = foldl (\<lambda>n c. n * 10 + (char_code c - 48)) 0 s"

text \<open>\<^verbatim>\<open>strconv.Atoi\<close>: an optional sign, at least one digit, a value that fits 64 bits.\<close>

definition parse_digits :: "string \<Rightarrow> nat option" where
  "parse_digits s = (if s \<noteq> [] \<and> list_all is_digit s then Some (digits_val s) else None)"

fun Atoi :: "string \<Rightarrow> int option" where
  "Atoi [] = None"
| "Atoi (c # s) =
     (let neg = (c = CHR ''-''); ds = (if c = CHR ''-'' \<or> c = CHR ''+'' then s else c # s) in
      case parse_digits ds of
        None \<Rightarrow> None
      | Some n \<Rightarrow>
          (let v = (if neg then - int n else int n) in
           if - (2 ^ 63) \<le> v \<and> v < 2 ^ 63 then Some v else None))"

section \<open>encoding/hex\<close>

definition hex_digit :: "nat \<Rightarrow> char" where
  "hex_digit n = (if n < 10 then char_of (48 + n) else char_of (87 + n))"

definition hex_val :: "char \<Rightarrow> nat option" where
  "hex_val c =
     (if 48 \<le> char_code c \<and> char_code c \<le> 57 then Some (char_code c - 48)
      else if 97 \<le> char_code c \<and> char_code c \<le> 102 then Some (char_code c - 87)
      else if 65 \<le> char_code c \<and> char_code c \<le> 70 then Some (char_code c - 55)
      else None)"

fun hex_EncodeToString :: "bytes \<Rightarrow> string" where
  "hex_EncodeToString [] = []"
| "hex_EncodeToString (b # bs) =
     hex_digit (unat b div 16) # hex_digit (unat b mod 16) # hex_EncodeToString bs"

fun hex_DecodeString :: "string \<Rightarrow> bytes option" where
  "hex_DecodeString [] = Some []"
| "hex_DecodeString [c] = None"
| "hex_DecodeString (c # d # s) =
     (case (hex_val c, hex_val d) of
        (Some h, Some l) \<Rightarrow> map_option (\<lambda>bs. of_nat (16 * h + l) # bs) (hex_DecodeString s)
      | _ \<Rightarrow> None)"

section \<open>Parameters: path/filepath\<close>

text \<open>
  The operations of \<^verbatim>\<open>path/filepath\<close> the source calls.  \<^verbatim>\<open>filepath.Join\<close> is passed the list
  of its arguments.
\<close>

record filepath_ops =
  fp_Join :: "string list \<Rightarrow> string"
  fp_IsAbs :: "string \<Rightarrow> bool"
  fp_Clean :: "string \<Rightarrow> string"
  fp_Dir :: "string \<Rightarrow> string"
  fp_Base :: "string \<Rightarrow> string"
  fp_Ext :: "string \<Rightarrow> string"

text \<open>The path separator, and a small instance of these operations for concrete runs.\<close>

definition bslash :: char where "bslash = CHR 0x5C"

definition sample_fp :: filepath_ops where
  "sample_fp =
     \<lparr>fp_Join = (\<lambda>ps. strJoin ps [bslash]),
      fp_IsAbs = (\<lambda>p. take 2 (drop 1 p) = [CHR '':'', bslash]),
      fp_Clean = (\<lambda>p. p),
      fp_Dir = (\<lambda>p. rev (drop 1 (dropWhile (\<lambda>c. c \<noteq> bslash) (rev p)))),
      fp_Base = (\<lambda>p. rev (takeWhile (\<lambda>c. c \<noteq> bslash) (rev p))),
      fp_Ext = (\<lambda>p. CHR ''.'' # rev (takeWhile (\<lambda>c. c \<noteq> CHR ''.'') (rev p)))\<rparr>"

section \<open>Lemmas\<close>

lemma char_code_less: "char_code c < 256"
  by (simp add: char_code_def)

lemma char_code_char_of [simp]: "char_code (char_of (n :: nat)) = n mod 256"
  by (simp add: char_code_def)

lemma char_code_eq_iff [simp]: "char_code c = char_code d \<longleftrightarrow> c = d"
  by (simp add: char_code_def)

lemma lower_char_idem [simp]: "lower_char (lower_char c) = lower_char c"
  using char_code_less [of c] by (auto simp: lower_char_def)

lemma ToLower_idem [simp]: "ToLower (ToLower s) = ToLower s"
  by (simp add: ToLower_def)

lemma length_ToLower [simp]: "length (ToLower s) = length s"
  by (simp add: ToLower_def)

lemma EqualFold_refl [simp]: "EqualFold s s"
  by (simp add: EqualFold_def)

lemma HasPrefix_append [simp]: "HasPrefix (p @ s) p"
  by (simp add: HasPrefix_def)

lemma HasPrefix_iff: "HasPrefix s p \<longleftrightarrow> (\<exists>t. s = p @ t)"
  unfolding HasPrefix_def by (metis append_eq_conv_conj append_take_drop_id)

lemma HasPrefix_length: "HasPrefix s p \<Longrightarrow> length p \<le> length s"
  by (auto simp: HasPrefix_iff)

lemma TrimSpace_Nil [simp]: "TrimSpace [] = []"
  by (simp add: TrimSpace_def)

text \<open>Trimming leaves no white space at either end, and does nothing to a trimmed string.\<close>

lemma TrimSpace_id:
  assumes "s = [] \<or> \<not> isSpace (hd s) \<and> \<not> isSpace (last s)"
  shows "TrimSpace s = s"
proof (cases s)
  case Nil
  then show ?thesis by simp
next
  case (Cons a b)
  with assms have 1: "dropWhile isSpace s = s" by simp
  from Cons assms have "\<not> isSpace (hd (rev s))" and "rev s \<noteq> []" 
    by (auto simp: hd_append hd_rev split: if_splits)
  then have "dropWhile isSpace (rev s) = rev s" by (cases "rev s") auto
  with 1 show ?thesis by (simp add: TrimSpace_def)
qed

lemma hd_TrimSpace:
  assumes "TrimSpace s \<noteq> []" shows "\<not> isSpace (hd (TrimSpace s))"
proof -
  let ?d = "dropWhile isSpace s"
  from assms have ne: "dropWhile isSpace (rev ?d) \<noteq> []" by (simp add: TrimSpace_def)
  then have "?d \<noteq> []" by (metis dropWhile.simps(1) rev.simps(1))
  obtain us where us: "rev ?d = us @ dropWhile isSpace (rev ?d)"
    by (metis takeWhile_dropWhile_id)
  then have "?d = rev (dropWhile isSpace (rev ?d)) @ rev us" by (metis rev_append rev_rev_ident)
  then have "hd ?d = hd (TrimSpace s)" using ne by (metis TrimSpace_def hd_append rev_is_Nil_conv)
  then show ?thesis using hd_dropWhile [OF \<open>?d \<noteq> []\<close>] by simp
qed

lemma last_TrimSpace:
  assumes "TrimSpace s \<noteq> []" shows "\<not> isSpace (last (TrimSpace s))"
  using assms hd_dropWhile [of isSpace "rev (dropWhile isSpace s)"]
  by (simp add: TrimSpace_def last_rev)

lemma TrimSpace_idem [simp]: "TrimSpace (TrimSpace s) = TrimSpace s"
  by (rule TrimSpace_id) (use hd_TrimSpace last_TrimSpace in blast)

lemma strSplit_ne [simp]: "strSplit s c \<noteq> []"
  by (induction s) (auto split: list.split)

lemma strSplit_no_sep: "c \<notin> set s \<Longrightarrow> strSplit s c = [s]"
  by (induction s) auto

lemma strSplit_append:
  "c \<notin> set p \<Longrightarrow> strSplit (p @ c # s) c = p # strSplit s c"
  by (induction p) auto

lemma strSplit_strJoin:
  "ps \<noteq> [] \<Longrightarrow> \<forall>p\<in>set ps. c \<notin> set p \<Longrightarrow> strSplit (strJoin ps [c]) c = ps"
  by (induction ps "[c]" rule: strJoin.induct) (auto simp: strSplit_no_sep strSplit_append)

text \<open>\<^verbatim>\<open>Fields\<close> of a word, a space, and the rest.\<close>

lemma Fields_Nil [simp]: "Fields [] = []"
  by (subst Fields.simps) simp

lemma Fields_word_space:
  assumes "w \<noteq> []" "\<forall>c\<in>set w. \<not> isSpace c" "isSpace x"
  shows "Fields (w @ x # s) = w # Fields s"
proof -
  have drop_sp: "Fields (x # s) = Fields s" using assms(3)
    by (subst Fields.simps, subst (2) Fields.simps) simp
  have d: "dropWhile isSpace (w @ x # s) = w @ x # s"
    using assms(1,2) by (cases w) auto
  have t: "takeWhile (\<lambda>c. \<not> isSpace c) (w @ x # s) = w"
    and r: "dropWhile (\<lambda>c. \<not> isSpace c) (w @ x # s) = x # s"
    using assms by (simp_all add: takeWhile_append2 dropWhile_append2)
  show ?thesis by (subst Fields.simps) (simp add: d t r drop_sp assms(1))
qed

lemma Fields_word:
  assumes "w \<noteq> []" "\<forall>c\<in>set w. \<not> isSpace c"
  shows "Fields w = [w]"
proof -
  have d: "dropWhile isSpace w = w" using assms by (cases w) auto
  have t: "takeWhile (\<lambda>c. \<not> isSpace c) w = w" and r: "dropWhile (\<lambda>c. \<not> isSpace c) w = []"
    using assms by (simp_all add: takeWhile_eq_all_conv dropWhile_eq_Nil_conv)
  show ?thesis by (subst Fields.simps) (simp add: d t r assms(1))
qed

lemma digit_char_code: "n < 10 \<Longrightarrow> char_code (digit_char n) = 48 + n"
  by (simp add: digit_char_def)

lemma nat_digits_ne [simp]: "nat_digits n \<noteq> []"
  by (subst nat_digits.simps) simp

lemma nat_digits_are_digits: "c \<in> set (nat_digits n) \<Longrightarrow> is_digit c"
proof (induction n rule: nat_digits.induct)
  case (1 n)
  then show ?case
    by (subst (asm) (2) nat_digits.simps)
      (auto simp: is_digit_def digit_char_code split: if_splits)
qed

lemma digits_val_nat_digits [simp]: "digits_val (nat_digits n) = n"
proof (induction n rule: nat_digits.induct)
  case (1 n)
  show ?case
  proof (cases "n < 10")
    case True
    then show ?thesis by (subst nat_digits.simps) (simp add: digits_val_def digit_char_code)
  next
    case False
    with 1 have "digits_val (nat_digits (n div 10)) = n div 10" by simp
    with False show ?thesis
      by (subst nat_digits.simps) (simp add: digits_val_def digit_char_code)
  qed
qed

lemma digit_not_sign: "is_digit c \<Longrightarrow> c \<noteq> CHR ''-'' \<and> c \<noteq> CHR ''+''"
  by (auto simp: is_digit_def char_code_def)

lemma digit_not_space: "is_digit c \<Longrightarrow> \<not> isSpace c"
  by (auto simp: is_digit_def isSpace_def)

lemma parse_digits_nat [simp]: "parse_digits (nat_digits n) = Some n"
  by (simp add: parse_digits_def list_all_iff nat_digits_are_digits)

lemma Atoi_nat_digits: "int n < 2 ^ 63 \<Longrightarrow> Atoi (nat_digits n) = Some (int n)"
proof -
  assume n: "int n < 2 ^ 63"
  obtain c s where cs: "nat_digits n = c # s" by (metis nat_digits_ne list.exhaust)
  then have "c \<noteq> CHR ''-'' \<and> c \<noteq> CHR ''+''"
    using nat_digits_are_digits [of c n] digit_not_sign by simp
  moreover have "parse_digits (c # s) = Some n" by (metis cs parse_digits_nat)
  ultimately show ?thesis using n by (simp add: cs)
qed

lemma Itoa_nat: "0 \<le> i \<Longrightarrow> Itoa i = nat_digits (nat i)"
  by (simp add: Itoa_def)

lemma hex_val_digit: "n < 16 \<Longrightarrow> hex_val (hex_digit n) = Some n"
  by (auto simp: hex_val_def hex_digit_def)

lemma hex_Decode_Encode [simp]: "hex_DecodeString (hex_EncodeToString bs) = Some bs"
proof (induction bs)
  case Nil
  then show ?case by simp
next
  case (Cons b bs)
  have "unat b div 16 < 16" using unat_byte_less [of b] by simp
  moreover have "of_nat (16 * (unat b div 16) + unat b mod 16) = b" by simp
  ultimately show ?case using Cons by (simp add: hex_val_digit)
qed

lemma length_hex_Encode [simp]: "length (hex_EncodeToString bs) = 2 * length bs"
  by (induction bs) simp_all

lemma hex_digit_code:
  "n < 16 \<Longrightarrow> 48 \<le> char_code (hex_digit n) \<and> char_code (hex_digit n) \<le> 102"
  by (simp add: hex_digit_def)

lemma hex_Encode_code:
  "c \<in> set (hex_EncodeToString bs) \<Longrightarrow> 48 \<le> char_code c \<and> char_code c \<le> 102"
proof (induction bs)
  case (Cons b bs)
  have "unat b div 16 < 16" using unat_byte_less [of b] by simp
  then show ?case using Cons hex_digit_code [of "unat b div 16"] hex_digit_code [of "unat b mod 16"]
    by auto
qed simp

lemma hex_Encode_inject [simp]: "hex_EncodeToString a = hex_EncodeToString b \<longleftrightarrow> a = b"
  by (metis hex_Decode_Encode option.inject)

end
