(* ===== verification/Os_Model.thy ===== *)
theory Os_Model
  imports Go_Lib
begin

text \<open>
  The operating-system calls on files that the source makes, as operations on an explicit
  world: the files by path, and a trace of every call with the files as they were right after
  it, which is what a crash at that point would leave on disk.

  Which calls fail is not known to the program.  It is a parameter (\<open>oe_fault\<close>), consulted with
  the number of the call and the call itself, so that a theorem over every \<open>os_env\<close> holds for
  every combination of failures; so are the name \<^verbatim>\<open>os.CreateTemp\<close> picks and how much of a
  failed \<^verbatim>\<open>Write\<close> reached the file.  A missing file gives \<^verbatim>\<open>os.ErrNotExist\<close>, an injected
  failure some other error number.  Directories are not represented: \<^verbatim>\<open>MkdirAll\<close> can only
  succeed or fail.
\<close>

datatype os_call =
    CallMkdirAll string
  | CallCreateTemp string string
  | CallChmod string
  | CallWrite string
  | CallSync string
  | CallClose string
  | CallRename string string
  | CallRemove string
  | CallStat string
  | CallOpen string
  | CallReadFile string
  | CallSetFileAttributes string nat

record fnode =
  f_data :: bytes
  f_regular :: bool
  f_attrs :: nat

type_synonym files = "string \<rightharpoonup> fnode"

record world =
  w_files :: files
  w_trace :: "(os_call \<times> files) list"

record os_env =
  oe_fault :: "nat \<Rightarrow> os_call \<Rightarrow> nat option"
  oe_temp :: "nat \<Rightarrow> string \<Rightarrow> string \<Rightarrow> string"
  oe_short :: "nat \<Rightarrow> nat"

definition FILE_ATTRIBUTE_NORMAL :: nat where "FILE_ATTRIBUTE_NORMAL = 128"
definition FILE_ATTRIBUTE_SYSTEM :: nat where "FILE_ATTRIBUTE_SYSTEM = 4"
definition FILE_ATTRIBUTE_READONLY :: nat where "FILE_ATTRIBUTE_READONLY = 1"

section \<open>Calls\<close>

definition fault_of :: "os_env \<Rightarrow> os_call \<Rightarrow> world \<Rightarrow> goerr option" where
  "fault_of env c w = map_option ErrErrno (oe_fault env (length (w_trace w)) c)"

definition record_call :: "os_call \<Rightarrow> files \<Rightarrow> world \<Rightarrow> world" where
  "record_call c fs w = w\<lparr>w_files := fs, w_trace := w_trace w @ [(c, fs)]\<rparr>"

text \<open>A call that changes no file: \<^verbatim>\<open>MkdirAll\<close>, \<^verbatim>\<open>Chmod\<close>, \<^verbatim>\<open>Sync\<close>, \<^verbatim>\<open>Close\<close>.\<close>

definition os_plain :: "os_env \<Rightarrow> os_call \<Rightarrow> world \<Rightarrow> goerr option \<times> world" where
  "os_plain env c w = (fault_of env c w, record_call c (w_files w) w)"

definition os_CreateTemp :: "os_env \<Rightarrow> string \<Rightarrow> string \<Rightarrow> world \<Rightarrow> (string result) \<times> world" where
  "os_CreateTemp env dir pat w =
     (let c = CallCreateTemp dir pat; name = oe_temp env (length (w_trace w)) dir pat in
      case fault_of env c w of
        Some e \<Rightarrow> (Inl e, record_call c (w_files w) w)
      | None \<Rightarrow>
          (Inr name,
           record_call c ((w_files w)(name \<mapsto> \<lparr>f_data = [], f_regular = True, f_attrs = 0\<rparr>)) w))"

text \<open>\<^verbatim>\<open>tmp.Write(data)\<close>: a failed write may leave a prefix of the data behind.\<close>

definition os_Write :: "os_env \<Rightarrow> string \<Rightarrow> bytes \<Rightarrow> world \<Rightarrow> goerr option \<times> world" where
  "os_Write env name data w =
     (let c = CallWrite name;
          put = (\<lambda>d. (w_files w)(name := map_option (\<lambda>n. n\<lparr>f_data := f_data n @ d\<rparr>) (w_files w name)))
      in case fault_of env c w of
           Some e \<Rightarrow> (Some e, record_call c (put (take (oe_short env (length (w_trace w))) data)) w)
         | None \<Rightarrow> (None, record_call c (put data) w))"

definition os_Rename :: "os_env \<Rightarrow> string \<Rightarrow> string \<Rightarrow> world \<Rightarrow> goerr option \<times> world" where
  "os_Rename env old new w =
     (let c = CallRename old new in
      case fault_of env c w of
        Some e \<Rightarrow> (Some e, record_call c (w_files w) w)
      | None \<Rightarrow>
          (case w_files w old of
             None \<Rightarrow> (Some ErrNotExist, record_call c (w_files w) w)
           | Some n \<Rightarrow> (None, record_call c (((w_files w)(old := None))(new \<mapsto> n)) w)))"

definition os_Remove :: "os_env \<Rightarrow> string \<Rightarrow> world \<Rightarrow> goerr option \<times> world" where
  "os_Remove env name w =
     (let c = CallRemove name in
      case fault_of env c w of
        Some e \<Rightarrow> (Some e, record_call c (w_files w) w)
      | None \<Rightarrow>
          (if w_files w name = None then (Some ErrNotExist, record_call c (w_files w) w)
           else (None, record_call c ((w_files w)(name := None)) w)))"

definition os_Stat :: "os_env \<Rightarrow> string \<Rightarrow> world \<Rightarrow> (fnode result) \<times> world" where
  "os_Stat env name w =
     (let c = CallStat name in
      (case fault_of env c w of
         Some e \<Rightarrow> Inl e
       | None \<Rightarrow> (case w_files w name of None \<Rightarrow> Inl ErrNotExist | Some n \<Rightarrow> Inr n),
       record_call c (w_files w) w))"

definition os_Open :: "os_env \<Rightarrow> string \<Rightarrow> world \<Rightarrow> goerr option \<times> world" where
  "os_Open env name w =
     (let c = CallOpen name in
      (case fault_of env c w of
         Some e \<Rightarrow> Some e
       | None \<Rightarrow> (if w_files w name = None then Some ErrNotExist else None),
       record_call c (w_files w) w))"

definition os_ReadFile :: "os_env \<Rightarrow> string \<Rightarrow> world \<Rightarrow> (bytes result) \<times> world" where
  "os_ReadFile env name w =
     (let c = CallReadFile name in
      (case fault_of env c w of
         Some e \<Rightarrow> Inl e
       | None \<Rightarrow> (case w_files w name of None \<Rightarrow> Inl ErrNotExist | Some n \<Rightarrow> Inr (f_data n)),
       record_call c (w_files w) w))"

definition SetFileAttributes :: "os_env \<Rightarrow> string \<Rightarrow> nat \<Rightarrow> world \<Rightarrow> goerr option \<times> world" where
  "SetFileAttributes env name attrs w =
     (let c = CallSetFileAttributes name attrs in
      case fault_of env c w of
        Some e \<Rightarrow> (Some e, record_call c (w_files w) w)
      | None \<Rightarrow>
          (case w_files w name of
             None \<Rightarrow> (Some ErrNotExist, record_call c (w_files w) w)
           | Some n \<Rightarrow> (None, record_call c ((w_files w)(name \<mapsto> n\<lparr>f_attrs := attrs\<rparr>)) w)))"

text \<open>
  \<^verbatim>\<open>if err := call(); err != nil { onerr } ; next\<close>: the shape of every checked call.
\<close>

definition try_os ::
  "goerr option \<times> world \<Rightarrow> (goerr \<Rightarrow> world \<Rightarrow> 'a) \<Rightarrow> (world \<Rightarrow> 'a) \<Rightarrow> 'a" where
  "try_os x onerr next = (case fst x of Some e \<Rightarrow> onerr e (snd x) | None \<Rightarrow> next (snd x))"

lemmas os_defs = os_plain_def os_CreateTemp_def os_Write_def os_Rename_def os_Remove_def
  os_Stat_def os_Open_def os_ReadFile_def SetFileAttributes_def record_call_def

text \<open>An environment in which nothing fails, for concrete runs.\<close>

definition quiet_env :: os_env where
  "quiet_env =
     \<lparr>oe_fault = (\<lambda>_ _. None), oe_temp = (\<lambda>_ dir _. dir @ [bslash] @ ''new.tmp''), oe_short = (\<lambda>_. 0)\<rparr>"

definition empty_world :: world where
  "empty_world = \<lparr>w_files = Map.empty, w_trace = []\<rparr>"

section \<open>What a run of calls leaves alone\<close>

text \<open>
  \<open>extends P w w'\<close>: \<open>w'\<close> is reached from \<open>w\<close> by calls after each of which the files satisfy
  \<open>P\<close>.
\<close>

definition extends :: "(files \<Rightarrow> bool) \<Rightarrow> world \<Rightarrow> world \<Rightarrow> bool" where
  "extends P w w' \<longleftrightarrow>
     (\<exists>tr. w_trace w' = w_trace w @ tr \<and> (\<forall>x\<in>set tr. P (snd x)))"

text \<open>The contents of one path are the old ones, or the new data in full.\<close>

definition old_or_new :: "string \<Rightarrow> fnode option \<Rightarrow> bytes \<Rightarrow> files \<Rightarrow> bool" where
  "old_or_new p old d fs \<longleftrightarrow> fs p = old \<or> (\<exists>n. fs p = Some n \<and> f_data n = d)"

text \<open>Every path outside \<open>A\<close> is unchanged.\<close>

definition frame :: "string set \<Rightarrow> world \<Rightarrow> world \<Rightarrow> bool" where
  "frame A w w' \<longleftrightarrow> (\<forall>q. q \<notin> A \<longrightarrow> w_files w' q = w_files w q)"

text \<open>
  \<open>scratch t w w'\<close>: calls that touch the file \<open>t\<close> only, the shape of the work on a temporary
  file before it is renamed.
\<close>

definition scratch :: "string \<Rightarrow> world \<Rightarrow> world \<Rightarrow> bool" where
  "scratch t w w' \<longleftrightarrow> extends (\<lambda>fs. \<forall>q. q \<noteq> t \<longrightarrow> fs q = w_files w q) w w' \<and> frame {t} w w'"

text \<open>
  The outcome of filling a temporary file \<open>t\<close> and renaming it to \<open>p\<close>: an error with only
  \<open>t\<close> touched, or success with the rename as the last call.
\<close>

definition replaced :: "string \<Rightarrow> string \<Rightarrow> bytes \<Rightarrow> world \<Rightarrow> goerr option \<Rightarrow> world \<Rightarrow> bool" where
  "replaced t p d w r w' \<longleftrightarrow>
     (r \<noteq> None \<and> scratch t w w') \<or>
     (r = None \<and> (\<exists>w1 n. scratch t w w1 \<and> w_files w1 t = Some n \<and> f_data n = d \<and> f_regular n \<and>
        w' = record_call (CallRename t p) (((w_files w1)(t := None))(p \<mapsto> n)) w1))"

section \<open>The contract of an atomic file replacement\<close>

text \<open>
  Both the configuration writer and the Cygwin interface replace a file by writing a temporary
  one and renaming it.  The contract: on success the file holds the data, on failure it is as
  it was, at no point in between is it anything else, no other file changes, and the temporary
  file is gone unless removing it failed.  The temporary name must not be the target's.
\<close>

locale atomic_writer =
  fixes wr :: "os_env \<Rightarrow> string \<Rightarrow> bytes \<Rightarrow> world \<Rightarrow> goerr option \<times> world"
    and tmp :: "os_env \<Rightarrow> string \<Rightarrow> world \<Rightarrow> string"
  assumes wr_success:
      "tmp env p w \<noteq> p \<Longrightarrow> wr env p d w = (None, w') \<Longrightarrow>
        \<exists>n. w_files w' p = Some n \<and> f_data n = d \<and> f_regular n"
    and wr_failure:
      "tmp env p w \<noteq> p \<Longrightarrow> wr env p d w = (Some e, w') \<Longrightarrow> w_files w' p = w_files w p"
    and wr_history:
      "tmp env p w \<noteq> p \<Longrightarrow> extends (old_or_new p (w_files w p) d) w (snd (wr env p d w))"
    and wr_frame:
      "frame {p, tmp env p w} w (snd (wr env p d w))"
    and wr_tidy:
      "tmp env p w \<noteq> p \<Longrightarrow> w_files w (tmp env p w) = None \<Longrightarrow>
        \<forall>k. oe_fault env k (CallRemove (tmp env p w)) = None \<Longrightarrow>
        w_files (snd (wr env p d w)) (tmp env p w) = None"
begin

text \<open>Reading the file back after a successful replacement gives the data.\<close>

lemma wr_read_back:
  assumes "tmp env p w \<noteq> p" "wr env p d w = (None, w')"
    and "oe_fault env' (length (w_trace w')) (CallReadFile p) = None"
  shows "fst (os_ReadFile env' p w') = Inr d"
  using wr_success [OF assms(1,2)] assms(3)
  by (auto simp: os_ReadFile_def fault_of_def Let_def)

text \<open>Whatever a reader sees after a replacement, successful or not, is the old file or the new data.\<close>

lemma wr_never_torn:
  assumes "tmp env p w \<noteq> p"
  shows "old_or_new p (w_files w p) d (w_files (snd (wr env p d w)))"
proof (cases "wr env p d w")
  case (Pair r w')
  then show ?thesis
    using wr_success [OF assms] wr_failure [OF assms] by (cases r) (auto simp: old_or_new_def)
qed

text \<open>With the temporary name fresh and removable, the only path that can differ is the target.\<close>

lemma wr_only_target:
  assumes "tmp env p w \<noteq> p" "w_files w (tmp env p w) = None"
    and "\<forall>k. oe_fault env k (CallRemove (tmp env p w)) = None"
  shows "frame {p} w (snd (wr env p d w))"
  using wr_frame [of p env w d] wr_tidy [OF assms] assms(2) by (fastforce simp: frame_def)

end

section \<open>Lemmas\<close>

lemma extends_refl [simp]: "extends P w w"
  by (auto simp: extends_def)

lemma extends_trans [trans]: "extends P w w' \<Longrightarrow> extends P w' w'' \<Longrightarrow> extends P w w''"
  by (fastforce simp: extends_def)

lemma extends_record: "P fs \<Longrightarrow> extends P w (record_call c fs w)"
  by (auto simp: extends_def record_call_def)

lemma frame_refl [simp]: "frame A w w"
  by (simp add: frame_def)

lemma frame_trans [trans]: "frame A w w' \<Longrightarrow> frame A w' w'' \<Longrightarrow> frame A w w''"
  by (simp add: frame_def)

lemma frame_mono: "frame A w w' \<Longrightarrow> A \<subseteq> B \<Longrightarrow> frame B w w'"
  by (auto simp: frame_def)

lemma w_files_record [simp]: "w_files (record_call c fs w) = fs"
  by (simp add: record_call_def)

lemma w_trace_record [simp]: "w_trace (record_call c fs w) = w_trace w @ [(c, fs)]"
  by (simp add: record_call_def)

text \<open>Each call's effect on the files, and on the history of a path it does not touch.\<close>

lemma os_plain_files [simp]: "w_files (snd (os_plain env c w)) = w_files w"
  by (simp add: os_plain_def)

lemma os_Stat_files [simp]: "w_files (snd (os_Stat env p w)) = w_files w"
  by (simp add: os_Stat_def Let_def)

lemma os_Open_files [simp]: "w_files (snd (os_Open env p w)) = w_files w"
  by (simp add: os_Open_def Let_def)

lemma os_ReadFile_files [simp]: "w_files (snd (os_ReadFile env p w)) = w_files w"
  by (simp add: os_ReadFile_def Let_def)

lemma os_Remove_files:
  "w_files (snd (os_Remove env p w)) = w_files w \<or>
   w_files (snd (os_Remove env p w)) = (w_files w)(p := None)"
  by (auto simp: os_Remove_def Let_def split: option.splits)

lemma SetFileAttributes_other:
  "q \<noteq> p \<Longrightarrow> w_files (snd (SetFileAttributes env p a w)) q = w_files w q"
  by (auto simp: SetFileAttributes_def Let_def split: option.splits)

lemma extends_mono: "extends P w w' \<Longrightarrow> (\<And>fs. P fs \<Longrightarrow> Q fs) \<Longrightarrow> extends Q w w'"
  by (fastforce simp: extends_def)

lemma scratch_refl [simp]: "scratch t w w"
  by (simp add: scratch_def)

lemma scratch_trans [trans]:
  assumes "scratch t w w'" "scratch t w' w''" shows "scratch t w w''"
proof -
  have same: "w_files w' q = w_files w q" if "q \<noteq> t" for q
    using assms(1) that by (simp add: scratch_def frame_def)
  have "extends (\<lambda>fs. \<forall>q. q \<noteq> t \<longrightarrow> fs q = w_files w q) w' w''"
    using assms(2) same by (auto simp: scratch_def elim!: extends_mono)
  then show ?thesis using assms extends_trans frame_trans unfolding scratch_def by blast
qed

lemma scratch_record: "(\<And>q. q \<noteq> t \<Longrightarrow> fs q = w_files w q) \<Longrightarrow> scratch t w (record_call c fs w)"
  by (auto simp: scratch_def frame_def intro!: extends_record)

lemma scratch_plain: "scratch t w (snd (os_plain env c w))"
  by (simp add: os_plain_def scratch_record)

lemma scratch_Write: "scratch t w (snd (os_Write env t d w))"
  by (auto simp: os_Write_def Let_def scratch_record split: option.splits)

lemma scratch_Remove: "scratch t w (snd (os_Remove env t w))"
  by (auto simp: os_Remove_def Let_def scratch_record split: option.splits)

lemma scratch_CreateTemp:
  "scratch (oe_temp env (length (w_trace w)) dir pat) w (snd (os_CreateTemp env dir pat w))"
  by (auto simp: os_CreateTemp_def Let_def scratch_record split: option.splits)

lemma CreateTemp_cases:
  obtains (err) e where "fst (os_CreateTemp env dir pat w) = Inl e"
      "w_files (snd (os_CreateTemp env dir pat w)) = w_files w"
    | (ok) "fst (os_CreateTemp env dir pat w) = Inr (oe_temp env (length (w_trace w)) dir pat)"
      "w_files (snd (os_CreateTemp env dir pat w)) (oe_temp env (length (w_trace w)) dir pat) =
        Some \<lparr>f_data = [], f_regular = True, f_attrs = 0\<rparr>"
  by (cases "fault_of env (CallCreateTemp dir pat) w") (auto simp: os_CreateTemp_def Let_def)

lemmas scratch_calls = scratch_plain scratch_Write scratch_Remove scratch_CreateTemp

lemma scratch_old_or_new:
  "scratch t w w' \<Longrightarrow> p \<noteq> t \<Longrightarrow> extends (old_or_new p (w_files w p) d) w w'"
  by (auto simp: scratch_def old_or_new_def elim!: extends_mono)

lemma scratch_files: "scratch t w w' \<Longrightarrow> q \<noteq> t \<Longrightarrow> w_files w' q = w_files w q"
  by (simp add: scratch_def frame_def)

lemma Remove_gone:
  "oe_fault env (length (w_trace w)) (CallRemove t) = None \<Longrightarrow> w_files (snd (os_Remove env t w)) t = None"
  by (auto simp: os_Remove_def Let_def fault_of_def)

text \<open>
  A temporary file that holds the data, renamed over the target: the one call of the whole
  replacement that changes the target.
\<close>

lemma Rename_cases:
  assumes "os_Rename env t p w = (r, w')" "p \<noteq> t"
  shows "(r \<noteq> None \<and> scratch t w w' \<and> w_files w' = w_files w) \<or>
    (\<exists>n. r = None \<and> w_files w t = Some n \<and>
      w' = record_call (CallRename t p) (((w_files w)(t := None))(p \<mapsto> n)) w)"
  using assms by (auto simp: os_Rename_def Let_def scratch_record split: option.splits)

lemma replaced_Rename:
  assumes "scratch t w w1" "w_files w1 t = Some n" "f_data n = d" "f_regular n" "p \<noteq> t"
    and "os_Rename env t p w1 = (r, w')"
  shows "replaced t p d w r w'"
  using Rename_cases [OF assms(6,5)]
proof
  assume "r \<noteq> None \<and> scratch t w1 w' \<and> w_files w' = w_files w1"
  then show ?thesis using scratch_trans [OF assms(1)] by (simp add: replaced_def)
next
  assume "\<exists>n. r = None \<and> w_files w1 t = Some n \<and>
    w' = record_call (CallRename t p) (((w_files w1)(t := None))(p \<mapsto> n)) w1"
  then show ?thesis using assms(1-4) by (auto simp: replaced_def)
qed

lemma replaced_error: "scratch t w w' \<Longrightarrow> replaced t p d w (Some e) w'"
  by (simp add: replaced_def)

lemma replaced_failed: "r = Some e \<Longrightarrow> scratch t w w' \<Longrightarrow> replaced t p d w r w'"
  by (simp add: replaced_def)

lemma replaced_trans:
  "scratch t w w0 \<Longrightarrow> replaced t p d w0 r w1 \<Longrightarrow> replaced t p d w r w1"
  unfolding replaced_def by (metis scratch_trans)

text \<open>
  A writer meets the contract when every run is either an early error that changed no file, or
  a replacement followed by the removal of the temporary file.
\<close>

definition replaces ::
  "os_env \<Rightarrow> string \<Rightarrow> string \<Rightarrow> bytes \<Rightarrow> world \<Rightarrow> goerr option \<times> world \<Rightarrow> bool" where
  "replaces env t p d w x \<longleftrightarrow>
     (fst x \<noteq> None \<and> scratch t w (snd x) \<and> w_files (snd x) = w_files w) \<or>
     (\<exists>w1. replaced t p d w (fst x) w1 \<and> snd x = snd (os_Remove env t w1))"

text \<open>The checked calls of a replacement, one at a time.\<close>

lemma try_os_elim:
  assumes "try_os x onerr next = y"
    and "\<And>e. fst x = Some e \<Longrightarrow> onerr e (snd x) = y \<Longrightarrow> Q"
    and "fst x = None \<Longrightarrow> next (snd x) = y \<Longrightarrow> Q"
  shows Q
  using assms by (auto simp: try_os_def split: option.splits)

lemma replaced_success:
  "replaced t p d w None w1 \<Longrightarrow> p \<noteq> t \<Longrightarrow>
    \<exists>n. w_files (snd (os_Remove env t w1)) p = Some n \<and> f_data n = d \<and> f_regular n"
  using scratch_files [OF scratch_Remove [of t w1 env], of p] by (auto simp: replaced_def)

lemma replaced_failure:
  "replaced t p d w (Some e) w1 \<Longrightarrow> p \<noteq> t \<Longrightarrow> w_files (snd (os_Remove env t w1)) p = w_files w p"
  using scratch_files [OF scratch_Remove [of t w1 env], of p] scratch_files [of t w w1 p]
  by (simp add: replaced_def)

lemma replaced_frame: "replaced t p d w r w1 \<Longrightarrow> frame {p, t} w (snd (os_Remove env t w1))"
proof -
  assume rep: "replaced t p d w r w1"
  have "w_files w1 q = w_files w q" if "q \<notin> {p, t}" for q
    using rep that by (auto simp: replaced_def scratch_files)
  then show ?thesis by (simp add: frame_def scratch_files [OF scratch_Remove])
qed

lemma extends_by_eq:
  "extends (old_or_new p old d) w w1 \<Longrightarrow> old_or_new p old d (w_files w1) \<Longrightarrow> scratch t w1 w2 \<Longrightarrow>
    p \<noteq> t \<Longrightarrow> extends (old_or_new p old d) w w2"
proof (rule extends_trans, assumption)
  assume 1: "old_or_new p old d (w_files w1)" and 2: "scratch t w1 w2" and 3: "p \<noteq> t"
  show "extends (old_or_new p old d) w1 w2"
    using 2 1 3 by (auto simp: scratch_def old_or_new_def elim!: extends_mono)
qed

lemma replaced_history:
  assumes "replaced t p d w r w1" "p \<noteq> t"
  shows "extends (old_or_new p (w_files w p) d) w (snd (os_Remove env t w1))"
proof (rule extends_by_eq [OF _ _ scratch_Remove assms(2)])
  show "extends (old_or_new p (w_files w p) d) w w1"
  proof (cases r)
    case None
    with assms(1) obtain w2 n where 2: "scratch t w w2" "f_data n = d"
      and 1: "w1 = record_call (CallRename t p) (((w_files w2)(t := None))(p \<mapsto> n)) w2"
      by (auto simp: replaced_def)
    have "extends (old_or_new p (w_files w p) d) w2 w1"
      unfolding 1 by (rule extends_record) (simp add: old_or_new_def 2)
    with scratch_old_or_new [OF 2(1) assms(2)] show ?thesis by (rule extends_trans)
  next
    case (Some e)
    with assms show ?thesis by (auto simp: replaced_def intro: scratch_old_or_new)
  qed
  show "old_or_new p (w_files w p) d (w_files w1)"
    using assms scratch_files [of t w w1 p] by (auto simp: replaced_def old_or_new_def)
qed

lemma atomic_writerI:
  assumes "\<And>env p d w. tmp env p w \<noteq> p \<Longrightarrow> replaces env (tmp env p w) p d w (wr env p d w)"
    and "\<And>env p d w. frame {p, tmp env p w} w (snd (wr env p d w))"
  shows "atomic_writer wr tmp"
proof
  fix env p d w w' assume "tmp env p w \<noteq> p" "wr env p d w = (None, w')"
  then show "\<exists>n. w_files w' p = Some n \<and> f_data n = d \<and> f_regular n"
    using assms(1) [of env p w d] by (fastforce simp: replaces_def intro: replaced_success)
next
  fix env p d w w' e assume "tmp env p w \<noteq> p" "wr env p d w = (Some e, w')"
  then show "w_files w' p = w_files w p"
    using assms(1) [of env p w d] by (fastforce simp: replaces_def intro: replaced_failure)
next
  fix env p d w assume "tmp env p w \<noteq> p"
  then show "extends (old_or_new p (w_files w p) d) w (snd (wr env p d w))"
    using assms(1) [of env p w d]
    by (fastforce simp: replaces_def intro: replaced_history scratch_old_or_new)
next
  fix env p d w show "frame {p, tmp env p w} w (snd (wr env p d w))" by (rule assms(2))
next
  fix env p d w
  assume "tmp env p w \<noteq> p" "w_files w (tmp env p w) = None"
    and nf: "\<forall>k. oe_fault env k (CallRemove (tmp env p w)) = None"
  then show "w_files (snd (wr env p d w)) (tmp env p w) = None"
    using assms(1) [of env p w d] Remove_gone by (fastforce simp: replaces_def)
qed

lemma extends_snd_plain: "P (w_files w) \<Longrightarrow> extends P w (snd (os_plain env c w))"
  by (simp add: os_plain_def extends_record)

lemma extends_snd_Remove:
  "P (w_files w) \<Longrightarrow> P ((w_files w)(p := None)) \<Longrightarrow> extends P w (snd (os_Remove env p w))"
  by (auto simp: os_Remove_def Let_def extends_record split: option.splits)

end
