(* ===== verification/Config.thy ===== *)
theory Config
  imports Os_Model
begin

text \<open>
  The configuration package (src/internal/config): the TOML schema and the runtime
  configuration, validation (config.go), default paths, creation and atomic replacement of the
  file (defaults.go), and the Boolean toggles of the tray menu (toggles.go).

  The TOML codec is third-party code and a parameter, the record \<open>toml_ops\<close>; so are
  \<^verbatim>\<open>path/filepath\<close>, \<^verbatim>\<open>time.ParseDuration\<close> and the environment variables.
  A \<^verbatim>\<open>time.Duration\<close> is an \<^typ>\<open>int\<close> in nanoseconds.
\<close>

section \<open>config.go: types\<close>

definition ApplicationName :: string where "ApplicationName = ''OmniSSHAgent''"
definition SchemaVersion :: int where "SchemaVersion = 1"
definition BackendWindowsOpenSSH :: string where "BackendWindowsOpenSSH = ''windows-openssh''"
definition BackendEmbedded :: string where "BackendEmbedded = ''embedded''"
definition DefaultBackendPipe :: string where "DefaultBackendPipe = ''openssh-ssh-agent''"
definition DefaultConnectTimeout :: int where "DefaultConnectTimeout = 5000000000"

text \<open>The Go literal \<^verbatim>\<open>`\\.\pipe\`\<close>.\<close>

definition pipePrefix :: string where
  "pipePrefix = [bslash, bslash, CHR ''.'', bslash] @ ''pipe'' @ [bslash]"

record BackendConfig =
  bc_Type :: string
  bc_Pipe :: string
  bc_ConnectTimeout :: string

record PageantConfig =
  pc_Enabled :: bool

record CygwinConfig =
  cy_Enabled :: bool
  cy_SocketPath :: string

record InterfaceConfig =
  ic_Pageant :: PageantConfig
  ic_Cygwin :: CygwinConfig

record TrayConfig =
  tc_ShowSignNotifications :: bool

record LoggingConfig =
  lc_Level :: string

record Config =
  cfg_Version :: int
  cfg_Backend :: BackendConfig
  cfg_Interfaces :: InterfaceConfig
  cfg_Tray :: TrayConfig
  cfg_Logging :: LoggingConfig

record RuntimeConfig =
  rc_ConfigPath :: string
  rc_LogDirectory :: string
  rc_BackendType :: string
  rc_BackendPipePath :: string
  rc_ConnectTimeout :: int
  rc_CygwinPath :: string
  rc_PageantEnabled :: bool
  rc_CygwinEnabled :: bool
  rc_ShowSignNotifications :: bool
  rc_LogLevel :: int

text \<open>\<^verbatim>\<open>slog.LevelDebug\<close> ... \<^verbatim>\<open>slog.LevelError\<close>.\<close>

definition LevelDebug :: int where "LevelDebug = -4"
definition LevelInfo :: int where "LevelInfo = 0"
definition LevelWarn :: int where "LevelWarn = 4"
definition LevelError :: int where "LevelError = 8"

text \<open>The TOML library: \<^verbatim>\<open>toml.Marshal\<close> and a strict \<^verbatim>\<open>Decode\<close> of a whole document.\<close>

record toml_ops =
  toml_Marshal :: "Config \<Rightarrow> bytes result"
  toml_Decode :: "bytes \<Rightarrow> Config result"

section \<open>config.go: operations\<close>

definition Default :: Config where
  "Default =
     \<lparr>cfg_Version = SchemaVersion,
      cfg_Backend = \<lparr>bc_Type = BackendWindowsOpenSSH, bc_Pipe = DefaultBackendPipe,
                     bc_ConnectTimeout = ''5s''\<rparr>,
      cfg_Interfaces = \<lparr>ic_Pageant = \<lparr>pc_Enabled = True\<rparr>,
                        ic_Cygwin = \<lparr>cy_Enabled = True, cy_SocketPath = ''''\<rparr>\<rparr>,
      cfg_Tray = \<lparr>tc_ShowSignNotifications = False\<rparr>,
      cfg_Logging = \<lparr>lc_Level = ''info''\<rparr>\<rparr>"

text \<open>\<^verbatim>\<open>Decode\<close> reads its reader to the end; the reader is the data or the error of reading it.\<close>

definition Decode :: "toml_ops \<Rightarrow> bytes result \<Rightarrow> Config result" where
  "Decode tm rd =
     (case rbind rd (toml_Decode tm) of
        Inl e \<Rightarrow> Inl (ErrWrap ''decode configuration'' e)
      | Inr cfg \<Rightarrow> Inr cfg)"

definition Load :: "os_env \<Rightarrow> toml_ops \<Rightarrow> string \<Rightarrow> world \<Rightarrow> Config result \<times> world" where
  "Load env tm path w =
     (case os_Open env path w of
        (Some e, w1) \<Rightarrow> (Inl (ErrWrap ''open configuration'' e), w1)
      | (None, w1) \<Rightarrow>
          (case os_ReadFile env path w1 of
             (rd, w2) \<Rightarrow> (Decode tm rd, snd (os_plain env (CallClose path) w2))))"

definition validate_backend ::
  "(string \<Rightarrow> int option) \<Rightarrow> BackendConfig \<Rightarrow> (string \<times> int) result" where
  "validate_backend ParseDuration b =
     (if bc_Type b = BackendWindowsOpenSSH then
        (let pipe = TrimSpace (bc_Pipe b) in
         if pipe = '''' then Inl (ErrNew ''backend.pipe must not be empty'')
         else if \<not> HasPrefix (ToLower pipe) pipePrefix \<and> ContainsAny pipe [bslash, CHR ''/''] then
           Inl (ErrNew (''backend.pipe must be a pipe name or '' @ pipePrefix @ '' path''))
         else
           (let pipe' = (if \<not> HasPrefix (ToLower pipe) pipePrefix then pipePrefix @ pipe else pipe) in
            case ParseDuration (bc_ConnectTimeout b) of
              None \<Rightarrow> Inl (ErrNew ''backend.connect_timeout must be a positive duration'')
            | Some parsed \<Rightarrow>
                if parsed \<le> 0 then Inl (ErrNew ''backend.connect_timeout must be a positive duration'')
                else Inr (pipe', parsed)))
      else if bc_Type b = BackendEmbedded then Inr ('''', DefaultConnectTimeout)
      else Inl (ErrNew (''unsupported backend.type '' @ bc_Type b)))"

definition validate_cygwin_path ::
  "filepath_ops \<Rightarrow> string \<Rightarrow> CygwinConfig \<Rightarrow> string result" where
  "validate_cygwin_path fp userProfile c =
     (if cy_SocketPath c = '''' then
        (if userProfile = '''' then Inl (ErrNew ''USERPROFILE is unavailable'')
         else Inr (fp_Join fp [userProfile, ''.ssh'', ''omnisshagent-cygwin.sock'']))
      else if \<not> fp_IsAbs fp (cy_SocketPath c) then
        Inl (ErrNew ''interfaces.cygwin.socket_path must be absolute'')
      else Inr (cy_SocketPath c))"

definition validate_level :: "string \<Rightarrow> int result" where
  "validate_level s =
     (if ToLower s = ''debug'' then Inr LevelDebug
      else if ToLower s = ''info'' then Inr LevelInfo
      else if ToLower s = ''warn'' then Inr LevelWarn
      else if ToLower s = ''error'' then Inr LevelError
      else Inl (ErrNew ''logging.level must be debug, info, warn, or error''))"

definition Validate ::
  "filepath_ops \<Rightarrow> (string \<Rightarrow> int option) \<Rightarrow> Config \<Rightarrow> string \<Rightarrow> string \<Rightarrow> string \<Rightarrow> RuntimeConfig result"
where
  "Validate fp ParseDuration cfg configPath logDirectory userProfile =
     (if cfg_Version cfg \<noteq> SchemaVersion then Inl (ErrNew (''unsupported version '' @ Itoa (cfg_Version cfg)))
      else
        rbind (validate_backend ParseDuration (cfg_Backend cfg)) (\<lambda>(pipe, timeout).
        rbind (validate_cygwin_path fp userProfile (ic_Cygwin (cfg_Interfaces cfg))) (\<lambda>cygwinPath.
        rbind (validate_level (lc_Level (cfg_Logging cfg))) (\<lambda>level.
          Inr \<lparr>rc_ConfigPath = configPath,
               rc_LogDirectory = logDirectory,
               rc_BackendType = bc_Type (cfg_Backend cfg),
               rc_BackendPipePath = pipe,
               rc_ConnectTimeout = timeout,
               rc_CygwinPath = fp_Clean fp cygwinPath,
               rc_PageantEnabled = pc_Enabled (ic_Pageant (cfg_Interfaces cfg)),
               rc_CygwinEnabled = cy_Enabled (ic_Cygwin (cfg_Interfaces cfg)),
               rc_ShowSignNotifications = tc_ShowSignNotifications (cfg_Tray cfg),
               rc_LogLevel = level\<rparr>))))"

section \<open>defaults.go\<close>

text \<open>
  \<open>getenv\<close> gives the value of an environment variable, empty when unset.  On Windows
  \<^verbatim>\<open>os.UserConfigDir\<close> is the variable \<^verbatim>\<open>APPDATA\<close> and \<^verbatim>\<open>os.UserCacheDir\<close> is
  \<^verbatim>\<open>LOCALAPPDATA\<close>, an error when unset.
\<close>

definition UserConfigDir :: "(string \<Rightarrow> string) \<Rightarrow> string result" where
  "UserConfigDir getenv =
     (if getenv ''APPDATA'' = '''' then Inl (ErrNew ''%AppData% is not defined'')
      else Inr (getenv ''APPDATA''))"

definition UserCacheDir :: "(string \<Rightarrow> string) \<Rightarrow> string result" where
  "UserCacheDir getenv =
     (if getenv ''LOCALAPPDATA'' = '''' then Inl (ErrNew ''%LocalAppData% is not defined'')
      else Inr (getenv ''LOCALAPPDATA''))"

definition DefaultConfigPath :: "filepath_ops \<Rightarrow> (string \<Rightarrow> string) \<Rightarrow> string result" where
  "DefaultConfigPath fp getenv =
     (case UserConfigDir getenv of
        Inl e \<Rightarrow> Inl (ErrWrap ''resolve APPDATA'' e)
      | Inr dir \<Rightarrow> Inr (fp_Join fp [dir, ApplicationName, ''config.toml'']))"

definition DefaultLogDirectory :: "filepath_ops \<Rightarrow> (string \<Rightarrow> string) \<Rightarrow> string result" where
  "DefaultLogDirectory fp getenv =
     (let dir = getenv ''LOCALAPPDATA'' in
      if dir = '''' then
        (case UserCacheDir getenv of
           Inl e \<Rightarrow> Inl (ErrWrap ''resolve LOCALAPPDATA'' e)
         | Inr cache \<Rightarrow> Inr (fp_Join fp [cache, ApplicationName, ''logs'']))
      else Inr (fp_Join fp [dir, ApplicationName, ''logs'']))"

definition tmpPattern :: string where "tmpPattern = ''.config-*.tmp''"

text \<open>\<^verbatim>\<open>write\<close> from the temporary file on; the deferred \<^verbatim>\<open>os.Remove(tmpName)\<close> is in \<open>write\<close>.\<close>

definition write_tmp ::
  "os_env \<Rightarrow> string \<Rightarrow> string \<Rightarrow> bytes \<Rightarrow> world \<Rightarrow> goerr option \<times> world" where
  "write_tmp env tmpName path data w0 =
     (let close = (\<lambda>w. snd (os_plain env (CallClose tmpName) w)) in
      try_os (os_plain env (CallChmod tmpName) w0)
        (\<lambda>e w. (Some (ErrWrap ''protect temporary configuration'' e), close w)) (\<lambda>w1.
      try_os (os_Write env tmpName data w1)
        (\<lambda>e w. (Some (ErrWrap ''write temporary configuration'' e), close w)) (\<lambda>w2.
      try_os (os_plain env (CallSync tmpName) w2)
        (\<lambda>e w. (Some (ErrWrap ''flush temporary configuration'' e), close w)) (\<lambda>w3.
      try_os (os_plain env (CallClose tmpName) w3)
        (\<lambda>e w. (Some (ErrWrap ''close temporary configuration'' e), w)) (\<lambda>w4.
      try_os (os_Rename env tmpName path w4)
        (\<lambda>e w. (Some (ErrWrap ''install configuration'' e), w)) (\<lambda>w5. (None, w5)))))))"

definition write_config ::
  "filepath_ops \<Rightarrow> os_env \<Rightarrow> string \<Rightarrow> bytes \<Rightarrow> world \<Rightarrow> goerr option \<times> world" where
  "write_config fp env path data w0 =
     try_os (os_plain env (CallMkdirAll (fp_Dir fp path)) w0)
       (\<lambda>e w. (Some (ErrWrap ''create configuration directory'' e), w)) (\<lambda>w1.
     (case os_CreateTemp env (fp_Dir fp path) tmpPattern w1 of
        (Inl e, w2) \<Rightarrow> (Some (ErrWrap ''create temporary configuration'' e), w2)
      | (Inr tmpName, w2) \<Rightarrow>
     (case write_tmp env tmpName path data w2 of
        (r, w3) \<Rightarrow> (r, snd (os_Remove env tmpName w3)))))"

definition CreateDefault ::
  "filepath_ops \<Rightarrow> os_env \<Rightarrow> toml_ops \<Rightarrow> string \<Rightarrow> world \<Rightarrow> bool result \<times> world" where
  "CreateDefault fp env tm path w0 =
     (case os_Stat env path w0 of
        (Inr _, w1) \<Rightarrow> (Inr False, w1)
      | (Inl e, w1) \<Rightarrow>
          if \<not> errors_Is e ErrNotExist then (Inl (ErrWrap ''inspect configuration'' e), w1)
          else
            (case toml_Marshal tm Default of
               Inl e \<Rightarrow> (Inl (ErrWrap ''encode default configuration'' e), w1)
             | Inr data \<Rightarrow>
                 (case write_config fp env path data w1 of
                    (Some e, w2) \<Rightarrow> (Inl e, w2)
                  | (None, w2) \<Rightarrow> (Inr True, w2))))"

definition Save ::
  "filepath_ops \<Rightarrow> os_env \<Rightarrow> toml_ops \<Rightarrow> string \<Rightarrow> Config \<Rightarrow> world \<Rightarrow> goerr option \<times> world" where
  "Save fp env tm path cfg w =
     (case toml_Marshal tm cfg of
        Inl e \<Rightarrow> (Some (ErrWrap ''encode configuration'' e), w)
      | Inr data \<Rightarrow> write_config fp env path data w)"

definition LoadRuntime ::
  "filepath_ops \<Rightarrow> (string \<Rightarrow> int option) \<Rightarrow> os_env \<Rightarrow> toml_ops \<Rightarrow> (string \<Rightarrow> string) \<Rightarrow>
   string \<Rightarrow> world \<Rightarrow> RuntimeConfig result \<times> world" where
  "LoadRuntime fp ParseDuration env tm getenv path w =
     (case DefaultLogDirectory fp getenv of
        Inl e \<Rightarrow> (Inl e, w)
      | Inr logDir \<Rightarrow>
          (case Load env tm path w of
             (Inl e, w1) \<Rightarrow> (Inl e, w1)
           | (Inr cfg, w1) \<Rightarrow>
               (Validate fp ParseDuration cfg path logDir (getenv ''USERPROFILE''), w1)))"

section \<open>toggles.go\<close>

type_synonym BooleanSetting = byte

definition PageantEnabled :: BooleanSetting where "PageantEnabled = 0"
definition CygwinEnabled :: BooleanSetting where "CygwinEnabled = 1"

record BooleanSettings =
  bs_PageantEnabled :: bool
  bs_CygwinEnabled :: bool

definition booleanSettings :: "Config \<Rightarrow> BooleanSettings" where
  "booleanSettings cfg =
     \<lparr>bs_PageantEnabled = pc_Enabled (ic_Pageant (cfg_Interfaces cfg)),
      bs_CygwinEnabled = cy_Enabled (ic_Cygwin (cfg_Interfaces cfg))\<rparr>"

definition LoadBooleanSettings ::
  "os_env \<Rightarrow> toml_ops \<Rightarrow> string \<Rightarrow> world \<Rightarrow> BooleanSettings result \<times> world" where
  "LoadBooleanSettings env tm path w =
     (case Load env tm path w of
        (Inl e, w1) \<Rightarrow> (Inl e, w1)
      | (Inr cfg, w1) \<Rightarrow> (Inr (booleanSettings cfg), w1))"

text \<open>The switch of \<^verbatim>\<open>ToggleBooleanSetting\<close>: the changed configuration and the new value.\<close>

definition toggle_config :: "BooleanSetting \<Rightarrow> Config \<Rightarrow> (Config \<times> bool) result" where
  "toggle_config setting cfg =
     (let i = cfg_Interfaces cfg; p = ic_Pageant i; c = ic_Cygwin i in
      if setting = PageantEnabled then
        Inr (cfg\<lparr>cfg_Interfaces := i\<lparr>ic_Pageant := p\<lparr>pc_Enabled := \<not> pc_Enabled p\<rparr>\<rparr>\<rparr>, \<not> pc_Enabled p)
      else if setting = CygwinEnabled then
        Inr (cfg\<lparr>cfg_Interfaces := i\<lparr>ic_Cygwin := c\<lparr>cy_Enabled := \<not> cy_Enabled c\<rparr>\<rparr>\<rparr>, \<not> cy_Enabled c)
      else Inl (ErrNew ''unknown Boolean setting''))"

definition ToggleBooleanSetting ::
  "filepath_ops \<Rightarrow> os_env \<Rightarrow> toml_ops \<Rightarrow> string \<Rightarrow> BooleanSetting \<Rightarrow> world \<Rightarrow> bool result \<times> world"
where
  "ToggleBooleanSetting fp env tm path setting w =
     (case Load env tm path w of
        (Inl e, w1) \<Rightarrow> (Inl e, w1)
      | (Inr cfg, w1) \<Rightarrow>
          (case toggle_config setting cfg of
             Inl e \<Rightarrow> (Inl e, w1)
           | Inr (cfg', enabled) \<Rightarrow>
               (case Save fp env tm path cfg' w1 of
                  (Some e, w2) \<Rightarrow> (Inl e, w2)
                | (None, w2) \<Rightarrow> (Inr enabled, w2))))"

section \<open>Validation\<close>

text \<open>What a configuration must satisfy, clause by clause and in no order.\<close>

definition valid_backend :: "(string \<Rightarrow> int option) \<Rightarrow> BackendConfig \<Rightarrow> bool" where
  "valid_backend ParseDuration b \<longleftrightarrow>
     bc_Type b = BackendEmbedded \<or>
     (bc_Type b = BackendWindowsOpenSSH \<and> TrimSpace (bc_Pipe b) \<noteq> '''' \<and>
      (HasPrefix (ToLower (TrimSpace (bc_Pipe b))) pipePrefix \<or>
       set (TrimSpace (bc_Pipe b)) \<inter> {bslash, CHR ''/''} = {}) \<and>
      (\<exists>d > 0. ParseDuration (bc_ConnectTimeout b) = Some d))"

definition valid_config ::
  "filepath_ops \<Rightarrow> (string \<Rightarrow> int option) \<Rightarrow> Config \<Rightarrow> string \<Rightarrow> bool" where
  "valid_config fp ParseDuration cfg userProfile \<longleftrightarrow>
     cfg_Version cfg = 1 \<and>
     valid_backend ParseDuration (cfg_Backend cfg) \<and>
     (let p = cy_SocketPath (ic_Cygwin (cfg_Interfaces cfg)) in
      if p = '''' then userProfile \<noteq> '''' else fp_IsAbs fp p) \<and>
     ToLower (lc_Level (cfg_Logging cfg)) \<in> {''debug'', ''info'', ''warn'', ''error''}"

text \<open>What the rest of the program may rely on in a runtime configuration.\<close>

definition runtime_ok :: "RuntimeConfig \<Rightarrow> bool" where
  "runtime_ok rc \<longleftrightarrow>
     0 < rc_ConnectTimeout rc \<and>
     (rc_BackendType rc = BackendWindowsOpenSSH \<and>
        HasPrefix (ToLower (rc_BackendPipePath rc)) pipePrefix
      \<or> rc_BackendType rc = BackendEmbedded \<and> rc_BackendPipePath rc = '''' \<and>
        rc_ConnectTimeout rc = DefaultConnectTimeout) \<and>
     rc_LogLevel rc \<in> {LevelDebug, LevelInfo, LevelWarn, LevelError}"

lemma backend_types_differ [simp]:
  "BackendEmbedded \<noteq> BackendWindowsOpenSSH" "BackendWindowsOpenSSH \<noteq> BackendEmbedded"
  by (simp_all add: BackendEmbedded_def BackendWindowsOpenSSH_def)

lemma ContainsAny_iff: "ContainsAny s cs \<longleftrightarrow> set s \<inter> set cs \<noteq> {}"
  by (auto simp: ContainsAny_def list_ex_iff)

lemma ToLower_pipePrefix [simp]: "ToLower pipePrefix = pipePrefix"
  by (simp add: ToLower_def pipePrefix_def bslash_def lower_char_def char_code_def)

lemma ToLower_append [simp]: "ToLower (a @ b) = ToLower a @ ToLower b"
  by (simp add: ToLower_def)

lemma validate_backend_ok_iff:
  "(\<exists>x. validate_backend pd b = Inr x) \<longleftrightarrow> valid_backend pd b"
  by (auto simp: validate_backend_def valid_backend_def ContainsAny_iff Let_def
      split: option.splits)

lemma validate_backend_sound:
  assumes "validate_backend pd b = Inr (pipe, timeout)"
  shows "bc_Type b = BackendWindowsOpenSSH \<and> HasPrefix (ToLower pipe) pipePrefix \<and> 0 < timeout
    \<or> bc_Type b = BackendEmbedded \<and> pipe = '''' \<and> timeout = DefaultConnectTimeout"
  using assms
  by (auto simp: validate_backend_def Let_def split: if_splits option.splits)

lemma validate_cygwin_ok_iff:
  "(\<exists>x. validate_cygwin_path fp up c = Inr x) \<longleftrightarrow>
    (if cy_SocketPath c = '''' then up \<noteq> '''' else fp_IsAbs fp (cy_SocketPath c))"
  by (simp add: validate_cygwin_path_def)

lemma validate_level_ok_iff:
  "(\<exists>x. validate_level s = Inr x) \<longleftrightarrow> ToLower s \<in> {''debug'', ''info'', ''warn'', ''error''}"
  by (auto simp: validate_level_def)

lemma validate_level_range:
  "validate_level s = Inr l \<Longrightarrow> l \<in> {LevelDebug, LevelInfo, LevelWarn, LevelError}"
  by (auto simp: validate_level_def split: if_splits)

lemma Validate_Inr_iff [result_iff]:
  "Validate fp pd cfg cp ld up = Inr rc \<longleftrightarrow>
     cfg_Version cfg = SchemaVersion \<and>
     (\<exists>pipe timeout path level.
        validate_backend pd (cfg_Backend cfg) = Inr (pipe, timeout) \<and>
        validate_cygwin_path fp up (ic_Cygwin (cfg_Interfaces cfg)) = Inr path \<and>
        validate_level (lc_Level (cfg_Logging cfg)) = Inr level \<and>
        rc = \<lparr>rc_ConfigPath = cp, rc_LogDirectory = ld, rc_BackendType = bc_Type (cfg_Backend cfg),
              rc_BackendPipePath = pipe, rc_ConnectTimeout = timeout,
              rc_CygwinPath = fp_Clean fp path,
              rc_PageantEnabled = pc_Enabled (ic_Pageant (cfg_Interfaces cfg)),
              rc_CygwinEnabled = cy_Enabled (ic_Cygwin (cfg_Interfaces cfg)),
              rc_ShowSignNotifications = tc_ShowSignNotifications (cfg_Tray cfg),
              rc_LogLevel = level\<rparr>)"
  by (auto simp: Validate_def rbind_Inr_iff)

lemma Validate_accepts_iff:
  "(\<exists>rc. Validate fp pd cfg cp ld up = Inr rc) \<longleftrightarrow> valid_config fp pd cfg up"
  using validate_backend_ok_iff [of pd "cfg_Backend cfg"]
    validate_cygwin_ok_iff [of fp up "ic_Cygwin (cfg_Interfaces cfg)"]
    validate_level_ok_iff [of "lc_Level (cfg_Logging cfg)"]
  by (auto simp: Validate_Inr_iff valid_config_def SchemaVersion_def Let_def)

lemma Validate_runtime_ok: "Validate fp pd cfg cp ld up = Inr rc \<Longrightarrow> runtime_ok rc"
  by (auto simp: Validate_Inr_iff runtime_ok_def DefaultConnectTimeout_def
      dest!: validate_backend_sound validate_level_range)

section \<open>Replacing the file\<close>

definition config_tmp :: "filepath_ops \<Rightarrow> os_env \<Rightarrow> string \<Rightarrow> world \<Rightarrow> string" where
  "config_tmp fp env p w = oe_temp env (Suc (length (w_trace w))) (fp_Dir fp p) tmpPattern"

lemma write_tmp_replaced:
  assumes eq: "write_tmp env t p d w = (r, w')" and ne: "p \<noteq> t"
    and empty: "w_files w t = Some \<lparr>f_data = [], f_regular = True, f_attrs = 0\<rparr>"
  shows "replaced t p d w r w'"
proof -
  let ?w1 = "snd (os_plain env (CallChmod t) w)"
  let ?w2 = "snd (os_Write env t d ?w1)"
  let ?w3 = "snd (os_plain env (CallSync t) ?w2)"
  let ?w4 = "snd (os_plain env (CallClose t) ?w3)"
  note plain = scratch_trans [OF _ scratch_plain]
  have s1: "scratch t w ?w1" by (rule scratch_plain)
  have s2: "scratch t w ?w2" using s1 scratch_Write by (rule scratch_trans)
  have s3: "scratch t w ?w3" using s2 by (rule plain)
  have s4: "scratch t w ?w4" using s3 by (rule plain)
  have full: "w_files ?w4 t = Some \<lparr>f_data = d, f_regular = True, f_attrs = 0\<rparr>"
    if "fst (os_Write env t d ?w1) = None"
    using that empty by (auto simp: os_Write_def Let_def split: option.splits)
  have renamed: "replaced t p d w (fst (os_Rename env t p ?w4)) (snd (os_Rename env t p ?w4))"
    if "fst (os_Write env t d ?w1) = None"
    using replaced_Rename [OF s4 full [OF that] _ _ ne, of d env] by simp
  then have failed: "scratch t w (snd (os_Rename env t p ?w4))"
    if "fst (os_Write env t d ?w1) = None" "fst (os_Rename env t p ?w4) = Some e" for e
    using that by (simp add: replaced_def)
  show ?thesis
    using eq unfolding write_tmp_def Let_def
    by (elim try_os_elim)
      (use renamed in \<open>auto intro!: replaced_error s1 s2 s3 s4 plain intro: failed\<close>)
qed

lemma write_replaces:
  assumes "config_tmp fp env p w \<noteq> p"
  shows "replaces env (config_tmp fp env p w) p d w (write_config fp env p d w)"
proof -
  let ?t = "config_tmp fp env p w"
  let ?w1 = "snd (os_plain env (CallMkdirAll (fp_Dir fp p)) w)"
  let ?w2 = "snd (os_CreateTemp env (fp_Dir fp p) tmpPattern ?w1)"
  have t: "?t = oe_temp env (length (w_trace ?w1)) (fp_Dir fp p) tmpPattern"
    by (simp add: config_tmp_def os_plain_def)
  have s1: "scratch ?t w ?w1" by (rule scratch_plain)
  have s2: "scratch ?t w ?w2" using s1 scratch_CreateTemp unfolding t by (rule scratch_trans)
  show ?thesis
  proof (cases "fst (os_plain env (CallMkdirAll (fp_Dir fp p)) w)")
    case (Some e)
    then show ?thesis using s1 by (simp add: write_config_def try_os_def replaces_def)
  next
    case None
    show ?thesis
    proof (cases rule: CreateTemp_cases [of env "fp_Dir fp p" tmpPattern ?w1])
      case err
      then show ?thesis using s2 None by (simp add: write_config_def try_os_def replaces_def split_beta)
    next
      case ok
      note ok = ok [folded t]
      obtain r w3 where wt: "write_tmp env ?t p d ?w2 = (r, w3)" by fastforce
      have eq: "write_config fp env p d w = (r, snd (os_Remove env ?t w3))"
        using None ok(1) wt by (simp add: write_config_def try_os_def split_beta)
      have "replaced ?t p d ?w2 r w3" using write_tmp_replaced [OF wt] assms ok(2) by simp
      then have "replaced ?t p d w r w3" by (rule replaced_trans [OF s2])
      then show ?thesis using eq by (auto simp: replaces_def)
    qed
  qed
qed

lemma write_tmp_frame: "frame {p, t} w (snd (write_tmp env t p d w))"
  by (auto simp: write_tmp_def try_os_def frame_def os_Write_def os_Rename_def Let_def
      split: option.splits)

lemma write_frame: "frame {p, config_tmp fp env p w} w (snd (write_config fp env p d w))"
proof -
  let ?w1 = "snd (os_plain env (CallMkdirAll (fp_Dir fp p)) w)"
  let ?x = "os_CreateTemp env (fp_Dir fp p) tmpPattern ?w1"
  have t: "fst ?x = Inr t \<Longrightarrow> t = config_tmp fp env p w" for t
    by (auto simp: config_tmp_def os_CreateTemp_def os_plain_def Let_def split: option.splits)
  have f: "frame {config_tmp fp env p w} w (snd ?x)"
    by (auto simp: frame_def config_tmp_def os_CreateTemp_def os_plain_def Let_def split: option.splits)
  have g: "frame {p, t} v (snd (os_Remove env t (snd (write_tmp env t p d v))))" for t v
    using write_tmp_frame [of p t v env d] os_Remove_files [of env t "snd (write_tmp env t p d v)"]
    by (auto simp: frame_def)
  show ?thesis
  proof (cases "fst ?x")
    case (Inl e)
    then show ?thesis using f
      by (auto simp: write_config_def try_os_def split_beta frame_def split: option.splits)
  next
    case (Inr u)
    with t have u: "u = config_tmp fp env p w" by simp
    have "frame {p, u} w (snd (os_Remove env u (snd (write_tmp env u p d (snd ?x)))))"
      using frame_trans [OF frame_mono [OF f] g] u by blast
    then show ?thesis using Inr u
      by (auto simp: write_config_def try_os_def split_beta frame_def split: option.splits)
  qed
qed

interpretation config_writer: atomic_writer "write_config fp" "config_tmp fp" for fp
  by (rule atomic_writerI) (rule write_replaces write_frame, assumption?)+

section \<open>Reading and changing the file\<close>

text \<open>A codec that decodes what it encoded, the behaviour of a TOML library the package relies on.\<close>

definition codec_ok :: "toml_ops \<Rightarrow> bool" where
  "codec_ok tm \<longleftrightarrow> (\<forall>c d. toml_Marshal tm c = Inr d \<longrightarrow> toml_Decode tm d = Inr c)"

text \<open>Calls that only read do not fail.\<close>

definition reads_ok :: "os_env \<Rightarrow> string \<Rightarrow> bool" where
  "reads_ok env p \<longleftrightarrow> (\<forall>k. oe_fault env k (CallOpen p) = None \<and> oe_fault env k (CallReadFile p) = None)"

lemma Load_files [simp]: "w_files (snd (Load env tm p w)) = w_files w"
  by (simp add: Load_def split_beta split: option.split)

lemma Load_reads:
  assumes "reads_ok env p"
  shows "fst (Load env tm p w) =
    (case w_files w p of
       None \<Rightarrow> Inl (ErrWrap ''open configuration'' ErrNotExist)
     | Some n \<Rightarrow> Decode tm (Inr (f_data n)))"
  using assms
  by (auto simp: Load_def os_Open_def os_ReadFile_def fault_of_def reads_ok_def Let_def
      split: option.splits)

lemma Decode_Marshal: "codec_ok tm \<Longrightarrow> toml_Marshal tm c = Inr d \<Longrightarrow> Decode tm (Inr d) = Inr c"
  by (simp add: codec_ok_def Decode_def)

lemma Save_success:
  assumes "codec_ok tm" "config_tmp fp env p w \<noteq> p" "Save fp env tm p cfg w = (None, w')" "reads_ok env' p"
  shows "fst (Load env' tm p w') = Inr cfg"
proof -
  from assms(3) obtain d where d: "toml_Marshal tm cfg = Inr d" "write_config fp env p d w = (None, w')"
    by (auto simp: Save_def split: sum.splits)
  then obtain n where "w_files w' p = Some n" "f_data n = d"
    using config_writer.wr_success [OF assms(2)] by blast
  then show ?thesis using assms(1,4) d by (simp add: Load_reads Decode_Marshal)
qed

lemma Save_failure:
  assumes "config_tmp fp env p w \<noteq> p" "Save fp env tm p cfg w = (Some e, w')"
  shows "w_files w' p = w_files w p"
  using assms config_writer.wr_failure [OF assms(1)] by (auto simp: Save_def split: sum.splits)

lemma toggle_config_involution:
  "toggle_config s cfg = Inr (cfg', b) \<Longrightarrow> toggle_config s cfg' = Inr (cfg, \<not> b)"
  by (auto simp: toggle_config_def Let_def split: if_splits)

lemma toggle_config_only:
  assumes "toggle_config s cfg = Inr (cfg', b)"
  shows "cfg_Version cfg' = cfg_Version cfg \<and> cfg_Backend cfg' = cfg_Backend cfg \<and>
    cfg_Tray cfg' = cfg_Tray cfg \<and> cfg_Logging cfg' = cfg_Logging cfg \<and>
    cy_SocketPath (ic_Cygwin (cfg_Interfaces cfg')) = cy_SocketPath (ic_Cygwin (cfg_Interfaces cfg)) \<and>
    (s = PageantEnabled \<and> booleanSettings cfg' = (booleanSettings cfg)\<lparr>bs_PageantEnabled := b\<rparr> \<or>
     s = CygwinEnabled \<and> booleanSettings cfg' = (booleanSettings cfg)\<lparr>bs_CygwinEnabled := b\<rparr>)"
  using assms by (auto simp: toggle_config_def booleanSettings_def Let_def split: if_splits)

section \<open>Properties\<close>

text \<open>C4 (config_write_atomic). \<^verbatim>\<open>write\<close> (defaults.go) replaces the configuration atomically,
  whatever calls fail: when it returns nil the file holds exactly the data, when it returns an
  error the file is as before; after every single call in between, so also after a crash there,
  the file is the old one or holds the new data in full; no path other than the target and the
  temporary file changes; and the temporary file is gone unless removing it failed.\<close>

theorem config_write_atomic:
  assumes "config_tmp fp env path w \<noteq> path" and "write_config fp env path data w = (r, w')"
  shows "(case r of
            None \<Rightarrow> \<exists>n. w_files w' path = Some n \<and> f_data n = data
          | Some e \<Rightarrow> w_files w' path = w_files w path)
    \<and> extends (old_or_new path (w_files w path) data) w w'
    \<and> frame {path, config_tmp fp env path w} w w'
    \<and> (w_files w (config_tmp fp env path w) = None \<and>
       (\<forall>k. oe_fault env k (CallRemove (config_tmp fp env path w)) = None) \<longrightarrow>
       w_files w' (config_tmp fp env path w) = None)"
  using config_writer.wr_success [OF assms(1)] config_writer.wr_failure [OF assms(1)]
    config_writer.wr_history [OF assms(1), of data] config_writer.wr_frame [of path fp env w data]
    config_writer.wr_tidy [OF assms(1), of data] assms(2)
  by (auto split: option.splits)

definition sample_path :: string where "sample_path = ''C:'' @ [bslash] @ ''config.toml''"

theorem config_write_atomic_witness:
  "\<exists>w'. write_config sample_fp quiet_env sample_path [1, 2] empty_world = (None, w') \<and>
    (\<exists>n. w_files w' sample_path = Some n \<and> f_data n = [1, 2]) \<and>
    w_files w' (config_tmp sample_fp quiet_env sample_path empty_world) = None"
proof -
  have ne: "config_tmp sample_fp quiet_env sample_path empty_world \<noteq> sample_path"
    by (simp add: config_tmp_def quiet_env_def sample_path_def sample_fp_def bslash_def)
  have run: "fst (write_config sample_fp quiet_env sample_path [1, 2] empty_world) = None"
    by (simp add: write_config_def write_tmp_def try_os_def os_defs fault_of_def Let_def quiet_env_def
        empty_world_def)
  obtain w' where w': "write_config sample_fp quiet_env sample_path [1, 2] empty_world = (None, w')"
    using run by (metis prod.collapse)
  show ?thesis using config_write_atomic [OF ne w'] w'
    by (auto simp: quiet_env_def empty_world_def)
qed

text \<open>C16 (Validate_accepts). \<^verbatim>\<open>Validate\<close> accepts a configuration exactly when it meets the
  documented rules: schema version 1; a known backend type, where the Windows OpenSSH backend
  needs a non-blank pipe that is a plain name or a pipe path and a positive timeout, and the
  embedded backend ignores both fields; an absolute socket path or a user profile to derive it
  from; a known log level, in any case.  Acceptance does not depend on the two directories passed
  along.\<close>

theorem Validate_accepts:
  "(\<exists>rc. Validate fp pd cfg cp ld up = Inr rc) \<longleftrightarrow> valid_config fp pd cfg up"
  by (rule Validate_accepts_iff)

text \<open>C29 (Validate_sound). Every runtime configuration \<^verbatim>\<open>Validate\<close> returns has a positive
  connect timeout, a pipe path under the pipe namespace (compared without case) when the backend
  is Windows OpenSSH and none when it is embedded, and one of the four log levels; and the
  enable flags are those of the file.\<close>

theorem Validate_sound:
  assumes "Validate fp pd cfg cp ld up = Inr rc"
  shows "runtime_ok rc \<and> rc_PageantEnabled rc = bs_PageantEnabled (booleanSettings cfg) \<and>
    rc_CygwinEnabled rc = bs_CygwinEnabled (booleanSettings cfg)"
  using Validate_runtime_ok [OF assms] assms by (auto simp: Validate_Inr_iff booleanSettings_def)

definition sample_durations :: "string \<Rightarrow> int option" where
  "sample_durations s = (if s = ''5s'' then Some 5000000000 else None)"

theorem Validate_sound_witness:
  "\<exists>rc. Validate sample_fp sample_durations Default sample_path '''' ''C:'' = Inr rc \<and> runtime_ok rc"
proof -
  have "valid_config sample_fp sample_durations Default ''C:''"
    by (simp add: valid_config_def valid_backend_def Default_def sample_durations_def
        BackendWindowsOpenSSH_def BackendEmbedded_def DefaultBackendPipe_def SchemaVersion_def
        TrimSpace_def isSpace_def char_code_def ToLower_def lower_char_def bslash_def)
  then obtain rc where "Validate sample_fp sample_durations Default sample_path '''' ''C:'' = Inr rc"
    using Validate_accepts_iff by blast
  with Validate_sound show ?thesis by blast
qed

text \<open>(toggle_success). When \<^verbatim>\<open>ToggleBooleanSetting\<close> returns a value, the file it leaves
  decodes to the configuration it read with that one switch flipped and nothing else changed, the
  value returned is the new one, and toggling that configuration once more gives the original back.
  When it returns an error, the file is as it was.\<close>

theorem toggle_success:
  assumes "codec_ok tm" and "reads_ok env' path"
    and "config_tmp fp env path (snd (Load env tm path w)) \<noteq> path"
    and "ToggleBooleanSetting fp env tm path setting w = (r, w')"
  shows "case r of
      Inr b \<Rightarrow> \<exists>cfg cfg'. fst (Load env tm path w) = Inr cfg \<and> fst (Load env' tm path w') = Inr cfg' \<and>
        toggle_config setting cfg = Inr (cfg', b) \<and> toggle_config setting cfg' = Inr (cfg, \<not> b)
    | Inl e \<Rightarrow> w_files w' path = w_files w path"
proof -
  obtain l w1 where l: "Load env tm path w = (l, w1)" by fastforce
  have files: "w_files w1 = w_files w" using Load_files [of env tm path w] l by simp
  show ?thesis
  proof (cases l)
    case (Inl e)
    then show ?thesis using assms(4) l files by (auto simp: ToggleBooleanSetting_def)
  next
    case (Inr cfg)
    show ?thesis
    proof (cases "toggle_config setting cfg")
      case (Inl e)
      then show ?thesis using assms(4) l Inr files by (auto simp: ToggleBooleanSetting_def)
    next
      case t: (Inr p)
      obtain cfg' b where p: "p = (cfg', b)" by fastforce
      have ne: "config_tmp fp env path w1 \<noteq> path" using assms(3) l by simp
      obtain s w2 where s: "Save fp env tm path cfg' w1 = (s, w2)" by fastforce
      show ?thesis
      proof (cases s)
        case None
        then have "fst (Load env' tm path w2) = Inr cfg'"
          using Save_success [OF assms(1) ne _ assms(2)] s by simp
        then show ?thesis
          using assms(4) l Inr t p s None toggle_config_involution [of setting cfg cfg' b]
          by (auto simp: ToggleBooleanSetting_def)
      next
        case (Some e)
        then show ?thesis
          using assms(4) l Inr t p s Save_failure [OF ne] files
          by (auto simp: ToggleBooleanSetting_def)
      qed
    qed
  qed
qed

definition toggled_Default :: Config where
  "toggled_Default =
     Default\<lparr>cfg_Interfaces := (cfg_Interfaces Default)\<lparr>ic_Pageant := \<lparr>pc_Enabled = False\<rparr>\<rparr>\<rparr>"

definition sample_toml :: toml_ops where
  "sample_toml =
     \<lparr>toml_Marshal = (\<lambda>c. if c = Default then Inr [1] else if c = toggled_Default then Inr [2]
        else Inl (ErrNew ''unsupported'')),
      toml_Decode = (\<lambda>d. if d = [1] then Inr Default else if d = [2] then Inr toggled_Default
        else Inl (ErrNew ''syntax''))\<rparr>"

definition sample_world :: world where
  "sample_world = \<lparr>w_files = [sample_path \<mapsto> \<lparr>f_data = [1], f_regular = True, f_attrs = 0\<rparr>], w_trace = []\<rparr>"

lemma sample_codec_ok: "codec_ok sample_toml"
  by (simp add: codec_ok_def sample_toml_def)

lemma quiet_reads_ok: "reads_ok quiet_env p"
  by (simp add: reads_ok_def quiet_env_def)

lemma quiet_no_fault [simp]: "fault_of quiet_env c w = None"
  by (simp add: fault_of_def quiet_env_def)

lemma sample_tmp_ne: "config_tmp sample_fp quiet_env sample_path w \<noteq> sample_path"
  by (simp add: config_tmp_def quiet_env_def sample_path_def sample_fp_def bslash_def)

lemma quiet_write_succeeds: "fst (write_config fp quiet_env p d w) = None"
  by (simp add: write_config_def write_tmp_def try_os_def os_CreateTemp_def os_Write_def os_Rename_def
      os_plain_def Let_def)

theorem toggle_success_witness:
  "\<exists>w'. ToggleBooleanSetting sample_fp quiet_env sample_toml sample_path PageantEnabled sample_world
      = (Inr False, w') \<and> fst (Load quiet_env sample_toml sample_path w') = Inr toggled_Default"
proof -
  let ?r = "ToggleBooleanSetting sample_fp quiet_env sample_toml sample_path PageantEnabled sample_world"
  have load: "fst (Load quiet_env sample_toml sample_path sample_world) = Inr Default"
    by (simp add: Load_reads quiet_reads_ok sample_world_def Decode_def sample_toml_def)
  have tog: "toggle_config PageantEnabled Default = Inr (toggled_Default, False)"
    by (simp add: toggle_config_def toggled_Default_def Default_def Let_def)
  have m: "toml_Marshal sample_toml toggled_Default = Inr [2]"
    by (simp add: sample_toml_def toggled_Default_def Default_def)
  have run: "fst ?r = Inr False"
    using load quiet_write_succeeds [of sample_fp sample_path "[2]"]
    by (simp add: ToggleBooleanSetting_def split_beta tog Save_def m)
  obtain w' where w': "?r = (Inr False, w')" using run by (metis prod.collapse)
  from toggle_success [OF sample_codec_ok quiet_reads_ok sample_tmp_ne w']
  show ?thesis using w' load tog by auto
qed

text \<open>(CreateDefault_safe). \<^verbatim>\<open>CreateDefault\<close> never touches an existing configuration file,
  whatever fails; it reports \<^verbatim>\<open>true\<close> only when there was no file and there now is one that loads
  as the default configuration; and an error leaves the path as it was.\<close>

theorem CreateDefault_safe:
  assumes "codec_ok tm" and "reads_ok env' path"
    and "config_tmp fp env path (snd (os_Stat env path w)) \<noteq> path"
    and "CreateDefault fp env tm path w = (r, w')"
  shows "(w_files w path \<noteq> None \<longrightarrow> w_files w' = w_files w \<and> r \<noteq> Inr True)
    \<and> (r = Inr True \<longrightarrow> w_files w path = None \<and> fst (Load env' tm path w') = Inr Default)
    \<and> (\<forall>e. r = Inl e \<longrightarrow> w_files w' path = w_files w path)"
proof -
  obtain s w1 where s: "os_Stat env path w = (s, w1)" by fastforce
  have files: "w_files w1 = w_files w" using os_Stat_files [of env path w] s by simp
  have ne: "config_tmp fp env path w1 \<noteq> path" using assms(3) s by simp
  have missing: "w_files w path = None" if "s = Inl e" "errors_Is e ErrNotExist" for e
    using s that by (auto simp: os_Stat_def fault_of_def Let_def split: option.splits)
  show ?thesis
  proof (cases "\<exists>e. s = Inl e \<and> errors_Is e ErrNotExist")
    case False
    then show ?thesis using assms(4) s files
      by (auto simp: CreateDefault_def split: sum.splits if_splits)
  next
    case True
    then obtain e where e: "s = Inl e" "errors_Is e ErrNotExist" by blast
    note absent = missing [OF e]
    show ?thesis
    proof (cases "toml_Marshal tm Default")
      case (Inl e')
      then show ?thesis using assms(4) s e absent files by (auto simp: CreateDefault_def)
    next
      case (Inr d)
      obtain x w2 where x: "write_config fp env path d w1 = (x, w2)" by fastforce
      show ?thesis
      proof (cases x)
        case None
        then have "Save fp env tm path Default w1 = (None, w2)" using x Inr by (simp add: Save_def)
        then have "fst (Load env' tm path w2) = Inr Default" by (rule Save_success [OF assms(1) ne _ assms(2)])
        then show ?thesis using assms(4) s e absent Inr x None by (auto simp: CreateDefault_def)
      next
        case (Some e')
        then show ?thesis using assms(4) s e absent Inr x files config_writer.wr_failure [OF ne]
          by (auto simp: CreateDefault_def)
      qed
    qed
  qed
qed

theorem CreateDefault_safe_witness:
  "\<exists>w'. CreateDefault sample_fp quiet_env sample_toml sample_path empty_world = (Inr True, w') \<and>
    fst (Load quiet_env sample_toml sample_path w') = Inr Default"
proof -
  let ?r = "CreateDefault sample_fp quiet_env sample_toml sample_path empty_world"
  have m: "toml_Marshal sample_toml Default = Inr [1]" by (simp add: sample_toml_def)
  have "fst ?r = Inr True"
    using quiet_write_succeeds [of sample_fp sample_path "[1]"]
    by (simp add: CreateDefault_def split_beta m os_Stat_def Let_def empty_world_def)
  then obtain w' where w': "?r = (Inr True, w')" by (metis prod.collapse)
  from CreateDefault_safe [OF sample_codec_ok quiet_reads_ok sample_tmp_ne w']
  show ?thesis using w' by simp
qed

end
