(* ===== verification/Backend.thy ===== *)
theory Backend
  imports Config
begin

text \<open>
  The SSH agent backends (src/internal/backend): the error type and its classification
  (errors.go), the embedded in-memory backend (embedded/backend.go) and the client of the
  Windows OpenSSH agent (openssh/client\_windows.go), which opens a fresh named-pipe connection
  for every request.

  \<^verbatim>\<open>agent.ExtendedAgent\<close> of golang.org/x/crypto is the interface all of them implement; it is the
  record \<open>ExtendedAgent\<close> of operations on an agent state.  The library's keyring, the agent client
  over a connection and the pipe dialer are parameters.
\<close>

section \<open>errors.go\<close>

fun kind_text :: "ErrorKind \<Rightarrow> string" where
  "kind_text ErrorUnavailable = ''unavailable''"
| "kind_text ErrorTimeout = ''timeout''"
| "kind_text ErrorProtocol = ''protocol''"

text \<open>The text of an error value, \<^verbatim>\<open>err.Error()\<close>.\<close>

fun err_text :: "goerr \<Rightarrow> string" where
  "err_text (ErrNew m) = m"
| "err_text (ErrWrap m e) = m @ '': '' @ err_text e"
| "err_text (ErrSentinel s) = s"
| "err_text (ErrErrno n) = ''errno '' @ nat_digits n"
| "err_text (ErrBackend k op e) = kind_text k @ '' backend '' @ op @ '': '' @ err_text e"

text \<open>\<^verbatim>\<open>errors.As(err, &backendError)\<close>: the first \<^verbatim>\<open>*backend.Error\<close> of the chain.\<close>

fun as_backend_error :: "goerr \<Rightarrow> (ErrorKind \<times> string \<times> goerr) option" where
  "as_backend_error (ErrBackend k op e) = Some (k, op, e)"
| "as_backend_error (ErrWrap m e) = as_backend_error e"
| "as_backend_error _ = None"

definition IsKind :: "goerr option \<Rightarrow> ErrorKind \<Rightarrow> bool" where
  "IsKind err kind =
     (case err of
        None \<Rightarrow> False
      | Some e \<Rightarrow> (case as_backend_error e of None \<Rightarrow> False | Some (k, _, _) \<Rightarrow> k = kind))"

section \<open>The agent interface\<close>

record PublicKey =
  pk_Type :: string
  pk_Blob :: bytes

record AgentKey =
  ak_Format :: string
  ak_Blob :: bytes
  ak_Comment :: string

record AddedKey =
  add_PrivateKey :: bytes
  add_Comment :: string
  add_LifetimeSecs :: u32
  add_ConfirmBeforeUse :: bool

type_synonym Signature = bytes

record 's ExtendedAgent =
  ag_List :: "'s \<Rightarrow> AgentKey list result \<times> 's"
  ag_SignWithFlags :: "PublicKey \<Rightarrow> bytes \<Rightarrow> u32 \<Rightarrow> 's \<Rightarrow> Signature result \<times> 's"
  ag_Sign :: "PublicKey \<Rightarrow> bytes \<Rightarrow> 's \<Rightarrow> Signature result \<times> 's"
  ag_Add :: "AddedKey \<Rightarrow> 's \<Rightarrow> unit result \<times> 's"
  ag_Remove :: "PublicKey \<Rightarrow> 's \<Rightarrow> unit result \<times> 's"
  ag_RemoveAll :: "'s \<Rightarrow> unit result \<times> 's"
  ag_Lock :: "bytes \<Rightarrow> 's \<Rightarrow> unit result \<times> 's"
  ag_Unlock :: "bytes \<Rightarrow> 's \<Rightarrow> unit result \<times> 's"
  ag_Signers :: "'s \<Rightarrow> PublicKey list result \<times> 's"
  ag_Extension :: "string \<Rightarrow> bytes \<Rightarrow> 's \<Rightarrow> bytes result \<times> 's"

section \<open>embedded/backend.go\<close>

definition ErrConfirmBeforeUseUnsupported :: goerr where
  "ErrConfirmBeforeUseUnsupported = ErrSentinel ''embedded backend does not support confirm-before-use''"

text \<open>
  \<^verbatim>\<open>New\<close>: \<open>keyring\<close> is what the type assertion on \<^verbatim>\<open>agent.NewKeyring()\<close> yields.  The embedded
  struct promotes every method of the keyring except \<^verbatim>\<open>Add\<close>, which the package overrides.
\<close>

definition embedded_Add :: "'s ExtendedAgent \<Rightarrow> AddedKey \<Rightarrow> 's \<Rightarrow> unit result \<times> 's" where
  "embedded_Add keyring key s =
     (if add_ConfirmBeforeUse key then (Inl ErrConfirmBeforeUseUnsupported, s)
      else ag_Add keyring key s)"

definition embedded_New :: "'s ExtendedAgent option \<Rightarrow> 's ExtendedAgent result" where
  "embedded_New keyring =
     (case keyring of
        None \<Rightarrow> Inl (ErrNew ''embedded keyring does not implement agent.ExtendedAgent'')
      | Some extended \<Rightarrow> Inr (extended\<lparr>ag_Add := embedded_Add extended\<rparr>))"

section \<open>openssh/client\_windows.go\<close>

record Client =
  cl_pipePath :: string
  cl_timeout :: int

definition NormalizePipePath :: "string \<Rightarrow> string" where
  "NormalizePipePath path =
     (if length path \<ge> length pipePrefix \<and> take (length pipePrefix) path = pipePrefix then path
      else pipePrefix @ path)"

definition NewWithDialer :: "string \<Rightarrow> int \<Rightarrow> Client" where
  "NewWithDialer pipePath timeout = \<lparr>cl_pipePath = NormalizePipePath pipePath, cl_timeout = timeout\<rparr>"

definition openssh_New :: "string \<Rightarrow> int \<Rightarrow> Client" where
  "openssh_New pipePath timeout = NewWithDialer pipePath timeout"

text \<open>
  The network as the client sees it: the agent behind the pipe, the connections it has open, and
  every dial and close in order.  \<open>dial\<close> is the dialer's answer to the n-th attempt at a path.
\<close>

datatype conn_event = Dialed string int | DialFailed string int | Closed nat

record 's network =
  nw_remote :: 's
  nw_open :: "nat list"
  nw_log :: "conn_event list"

type_synonym dialer = "nat \<Rightarrow> string \<Rightarrow> goerr option"

definition connect :: "dialer \<Rightarrow> Client \<Rightarrow> 's network \<Rightarrow> nat result \<times> 's network" where
  "connect dial c nw =
     (let n = length (nw_log nw) in
      case dial n (cl_pipePath c) of
        Some err \<Rightarrow>
          (Inl (if errors_Is err DeadlineExceeded then ErrBackend ErrorTimeout ''connect'' err
                else ErrBackend ErrorUnavailable ''connect'' err),
           nw\<lparr>nw_log := nw_log nw @ [DialFailed (cl_pipePath c) (cl_timeout c)]\<rparr>)
      | None \<Rightarrow>
          (Inr n, nw\<lparr>nw_open := n # nw_open nw,
                     nw_log := nw_log nw @ [Dialed (cl_pipePath c) (cl_timeout c)]\<rparr>))"

definition conn_Close :: "nat \<Rightarrow> 's network \<Rightarrow> 's network" where
  "conn_Close n nw = nw\<lparr>nw_open := remove1 n (nw_open nw), nw_log := nw_log nw @ [Closed n]\<rparr>"

text \<open>
  The body every method of \<^verbatim>\<open>Client\<close> has: connect, defer the close, run one agent operation over
  the connection.  \<open>f\<close> is that operation on the remote agent.
\<close>

definition with_connection ::
  "dialer \<Rightarrow> Client \<Rightarrow> ('s \<Rightarrow> 'a result \<times> 's) \<Rightarrow> 's network \<Rightarrow> 'a result \<times> 's network" where
  "with_connection dial c f nw =
     (case connect dial c nw of
        (Inl e, nw1) \<Rightarrow> (Inl e, nw1)
      | (Inr n, nw1) \<Rightarrow>
          (case f (nw_remote nw1) of (r, s) \<Rightarrow> (r, conn_Close n (nw1\<lparr>nw_remote := s\<rparr>))))"

definition client_List where
  "client_List dial a c nw = with_connection dial c (ag_List a) nw"

definition client_Sign where
  "client_Sign dial a c key data nw = with_connection dial c (ag_Sign a key data) nw"

definition client_SignWithFlags where
  "client_SignWithFlags dial a c key data flags nw =
     with_connection dial c (ag_SignWithFlags a key data flags) nw"

definition client_Add where
  "client_Add dial a c key nw = with_connection dial c (ag_Add a key) nw"

definition client_Remove where
  "client_Remove dial a c key nw = with_connection dial c (ag_Remove a key) nw"

definition client_RemoveAll where
  "client_RemoveAll dial a c nw = with_connection dial c (ag_RemoveAll a) nw"

definition client_Lock where
  "client_Lock dial a c passphrase nw = with_connection dial c (ag_Lock a passphrase) nw"

definition client_Unlock where
  "client_Unlock dial a c passphrase nw = with_connection dial c (ag_Unlock a passphrase) nw"

definition client_Signers where
  "client_Signers dial a c nw = with_connection dial c (ag_Signers a) nw"

definition client_Extension where
  "client_Extension dial a c extensionType contents nw =
     with_connection dial c (ag_Extension a extensionType contents) nw"

text \<open>The client as an agent of its own: what \<^verbatim>\<open>Client\<close> implements.\<close>

definition client_agent :: "dialer \<Rightarrow> 's ExtendedAgent \<Rightarrow> Client \<Rightarrow> 's network ExtendedAgent" where
  "client_agent dial a c =
     \<lparr>ag_List = client_List dial a c,
      ag_SignWithFlags = client_SignWithFlags dial a c,
      ag_Sign = client_Sign dial a c,
      ag_Add = client_Add dial a c,
      ag_Remove = client_Remove dial a c,
      ag_RemoveAll = client_RemoveAll dial a c,
      ag_Lock = client_Lock dial a c,
      ag_Unlock = client_Unlock dial a c,
      ag_Signers = client_Signers dial a c,
      ag_Extension = client_Extension dial a c\<rparr>"

lemmas client_ops = client_List_def client_Sign_def client_SignWithFlags_def client_Add_def
  client_Remove_def client_RemoveAll_def client_Lock_def client_Unlock_def client_Signers_def
  client_Extension_def

section \<open>Requests and sequences of requests\<close>

text \<open>
  Every method of the interface as a request, so that properties of all of them are stated once,
  over a sequence of requests.
\<close>

datatype request =
    ReqList
  | ReqSign PublicKey bytes
  | ReqSignWithFlags PublicKey bytes u32
  | ReqAdd AddedKey
  | ReqRemove PublicKey
  | ReqRemoveAll
  | ReqLock bytes
  | ReqUnlock bytes
  | ReqSigners
  | ReqExtension string bytes

datatype reply = RKeys "AgentKey list" | RSig Signature | RUnit unit | RPubs "PublicKey list" | RBytes bytes

definition lift_reply :: "('a \<Rightarrow> reply) \<Rightarrow> 'a result \<times> 's \<Rightarrow> reply result \<times> 's" where
  "lift_reply k x = (case x of (Inl e, s) \<Rightarrow> (Inl e, s) | (Inr a, s) \<Rightarrow> (Inr (k a), s))"

fun handle_request :: "'s ExtendedAgent \<Rightarrow> request \<Rightarrow> 's \<Rightarrow> reply result \<times> 's" where
  "handle_request a ReqList s = lift_reply RKeys (ag_List a s)"
| "handle_request a (ReqSign k d) s = lift_reply RSig (ag_Sign a k d s)"
| "handle_request a (ReqSignWithFlags k d f) s = lift_reply RSig (ag_SignWithFlags a k d f s)"
| "handle_request a (ReqAdd k) s = lift_reply RUnit (ag_Add a k s)"
| "handle_request a (ReqRemove k) s = lift_reply RUnit (ag_Remove a k s)"
| "handle_request a ReqRemoveAll s = lift_reply RUnit (ag_RemoveAll a s)"
| "handle_request a (ReqLock p) s = lift_reply RUnit (ag_Lock a p s)"
| "handle_request a (ReqUnlock p) s = lift_reply RUnit (ag_Unlock a p s)"
| "handle_request a ReqSigners s = lift_reply RPubs (ag_Signers a s)"
| "handle_request a (ReqExtension t d) s = lift_reply RBytes (ag_Extension a t d s)"

fun run_requests :: "'s ExtendedAgent \<Rightarrow> request list \<Rightarrow> 's \<Rightarrow> reply result list \<times> 's" where
  "run_requests a [] s = ([], s)"
| "run_requests a (q # qs) s =
     (case handle_request a q s of (r, s1) \<Rightarrow>
        (case run_requests a qs s1 of (rs, s2) \<Rightarrow> (r # rs, s2)))"

section \<open>Lemmas\<close>

lemma as_backend_error_chain:
  "as_backend_error e = Some (k, op, c) \<Longrightarrow> ErrBackend k op c \<in> set (err_chain e)"
  by (induction e) auto

lemma length_pipePrefix [simp]: "length pipePrefix = 9"
  by (simp add: pipePrefix_def)

lemma NormalizePipePath_prefixed: "HasPrefix (NormalizePipePath p) pipePrefix"
  by (simp add: NormalizePipePath_def HasPrefix_def)

lemma NormalizePipePath_id: "HasPrefix p pipePrefix \<Longrightarrow> NormalizePipePath p = p"
  by (auto simp: NormalizePipePath_def HasPrefix_iff)

lemma NormalizePipePath_other: "\<not> HasPrefix p pipePrefix \<Longrightarrow> NormalizePipePath p = pipePrefix @ p"
  by (auto simp: NormalizePipePath_def HasPrefix_def)

lemma connect_cases:
  obtains (failed) err k where "dial (length (nw_log nw)) (cl_pipePath c) = Some err"
      "connect dial c nw = (Inl (ErrBackend k ''connect'' err),
         nw\<lparr>nw_log := nw_log nw @ [DialFailed (cl_pipePath c) (cl_timeout c)]\<rparr>)"
      "k = (if errors_Is err DeadlineExceeded then ErrorTimeout else ErrorUnavailable)"
    | (connected) "dial (length (nw_log nw)) (cl_pipePath c) = None"
      "connect dial c nw = (Inr (length (nw_log nw)),
         nw\<lparr>nw_open := length (nw_log nw) # nw_open nw,
            nw_log := nw_log nw @ [Dialed (cl_pipePath c) (cl_timeout c)]\<rparr>)"
  by (cases "dial (length (nw_log nw)) (cl_pipePath c)") (auto simp: connect_def Let_def)

text \<open>One method call: what it returns, and that it leaves no connection open.\<close>

lemma with_connection_connected:
  assumes "dial (length (nw_log nw)) (cl_pipePath c) = None" "f (nw_remote nw) = (r, s)"
  shows "with_connection dial c f nw =
    (r, nw\<lparr>nw_remote := s,
           nw_log := nw_log nw @ [Dialed (cl_pipePath c) (cl_timeout c), Closed (length (nw_log nw))]\<rparr>)"
  using assms by (simp add: with_connection_def connect_def conn_Close_def Let_def)

lemma with_connection_failed:
  assumes "dial (length (nw_log nw)) (cl_pipePath c) = Some err"
  shows "with_connection dial c f nw =
    (Inl (ErrBackend (if errors_Is err DeadlineExceeded then ErrorTimeout else ErrorUnavailable) ''connect'' err),
     nw\<lparr>nw_log := nw_log nw @ [DialFailed (cl_pipePath c) (cl_timeout c)]\<rparr>)"
  using assms by (simp add: with_connection_def connect_def Let_def)

lemma lift_reply_with_connection:
  "lift_reply k (with_connection dial c f nw) = with_connection dial c (\<lambda>s. lift_reply k (f s)) nw"
  by (auto simp: lift_reply_def with_connection_def conn_Close_def split: prod.splits sum.splits)

lemma handle_request_fun:
  "handle_request a ReqList = (\<lambda>s. lift_reply RKeys (ag_List a s))"
  "handle_request a (ReqSign k d) = (\<lambda>s. lift_reply RSig (ag_Sign a k d s))"
  "handle_request a (ReqSignWithFlags k d f) = (\<lambda>s. lift_reply RSig (ag_SignWithFlags a k d f s))"
  "handle_request a (ReqAdd ad) = (\<lambda>s. lift_reply RUnit (ag_Add a ad s))"
  "handle_request a (ReqRemove k) = (\<lambda>s. lift_reply RUnit (ag_Remove a k s))"
  "handle_request a ReqRemoveAll = (\<lambda>s. lift_reply RUnit (ag_RemoveAll a s))"
  "handle_request a (ReqLock d) = (\<lambda>s. lift_reply RUnit (ag_Lock a d s))"
  "handle_request a (ReqUnlock d) = (\<lambda>s. lift_reply RUnit (ag_Unlock a d s))"
  "handle_request a ReqSigners = (\<lambda>s. lift_reply RPubs (ag_Signers a s))"
  "handle_request a (ReqExtension t d) = (\<lambda>s. lift_reply RBytes (ag_Extension a t d s))"
  by (rule ext, simp)+

lemma handle_client_agent:
  "handle_request (client_agent dial a c) q nw = with_connection dial c (handle_request a q) nw"
  by (cases q)
    (simp_all add: handle_request_fun client_agent_def client_ops lift_reply_with_connection)

lemma with_connection_open: "nw_open (snd (with_connection dial c f nw)) = nw_open nw"
proof (cases "dial (length (nw_log nw)) (cl_pipePath c)")
  case None
  obtain r s where "f (nw_remote nw) = (r, s)" by fastforce
  with None show ?thesis by (simp add: with_connection_connected)
next
  case (Some err)
  then show ?thesis by (simp add: with_connection_failed)
qed

section \<open>The contract of an agent\<close>

text \<open>
  One agent implements another: on every request it admits in its current state it gives the
  reply the other gives and moves to the corresponding state.  Both backends are interpretations:
  the client implements the agent behind the pipe whenever its dial succeeds, the embedded
  backend implements the library's keyring on everything but a confirm-before-use key.
\<close>

fun admitted_run :: "('t \<Rightarrow> request \<Rightarrow> bool) \<Rightarrow> 't ExtendedAgent \<Rightarrow> request list \<Rightarrow> 't \<Rightarrow> bool" where
  "admitted_run admits b [] t = True"
| "admitted_run admits b (q # qs) t \<longleftrightarrow> admits t q \<and> admitted_run admits b qs (snd (handle_request b q t))"

locale agent_refinement =
  fixes a :: "'s ExtendedAgent" and b :: "'t ExtendedAgent"
    and abs :: "'t \<Rightarrow> 's" and admits :: "'t \<Rightarrow> request \<Rightarrow> bool"
  assumes step: "admits t q \<Longrightarrow> handle_request a q (abs t) = apsnd abs (handle_request b q t)"
begin

lemma run_refines:
  "admitted_run admits b qs t \<Longrightarrow> run_requests a qs (abs t) = apsnd abs (run_requests b qs t)"
proof (induction qs arbitrary: t)
  case Nil
  show ?case by simp
next
  case (Cons q qs)
  obtain r t1 where h: "handle_request b q t = (r, t1)" by fastforce
  with Cons.prems step [of t q] have "handle_request a q (abs t) = (r, abs t1)" by simp
  moreover have "run_requests a qs (abs t1) = apsnd abs (run_requests b qs t1)"
    using Cons h by simp
  ultimately show ?case using h by (simp add: split_beta)
qed

lemma replies_agree:
  "admitted_run admits b qs t \<Longrightarrow> fst (run_requests b qs t) = fst (run_requests a qs (abs t))"
  by (simp add: run_refines)

end

lemma with_connection_admitted:
  assumes "dial (length (nw_log nw)) (cl_pipePath c) = None"
  shows "f (nw_remote nw) = apsnd nw_remote (with_connection dial c f nw)"
proof -
  obtain r s where "f (nw_remote nw) = (r, s)" by fastforce
  with assms show ?thesis by (simp add: with_connection_connected)
qed

definition dial_ok :: "dialer \<Rightarrow> Client \<Rightarrow> 's network \<Rightarrow> request \<Rightarrow> bool" where
  "dial_ok dial c nw q \<longleftrightarrow> dial (length (nw_log nw)) (cl_pipePath c) = None"

interpretation client_ref: agent_refinement a "client_agent dial a c" nw_remote "dial_ok dial c"
  for a dial c
  by unfold_locales (unfold handle_client_agent dial_ok_def, rule with_connection_admitted)

fun wants_confirm :: "request \<Rightarrow> bool" where
  "wants_confirm (ReqAdd k) = add_ConfirmBeforeUse k"
| "wants_confirm _ = False"

interpretation embedded_ref: agent_refinement k "k\<lparr>ag_Add := embedded_Add k\<rparr>" id "\<lambda>_ q. \<not> wants_confirm q"
  for k
proof
  fix t q assume "\<not> wants_confirm q"
  then show "handle_request k q (id t) = apsnd id (handle_request (k\<lparr>ag_Add := embedded_Add k\<rparr>) q t)"
    by (cases q) (simp_all add: embedded_Add_def apsnd_def prod.map_id0)
qed

lemma admitted_run_stateless:
  "(\<And>t q. q \<in> set qs \<Longrightarrow> admits t q) \<Longrightarrow> admitted_run admits b qs t"
  by (induction qs arbitrary: t) auto

section \<open>Runs of requests with failing dials\<close>

text \<open>The events one request leaves, and which requests of a run reach the remote agent.\<close>

definition one_connection :: "Client \<Rightarrow> conn_event list \<Rightarrow> bool" where
  "one_connection c ev \<longleftrightarrow>
     ev = [DialFailed (cl_pipePath c) (cl_timeout c)] \<or>
     (\<exists>n. ev = [Dialed (cl_pipePath c) (cl_timeout c), Closed n])"

fun reached :: "dialer \<Rightarrow> Client \<Rightarrow> nat \<Rightarrow> request list \<Rightarrow> bool list" where
  "reached dial c n [] = []"
| "reached dial c n (q # qs) =
     (if dial n (cl_pipePath c) = None then True # reached dial c (n + 2) qs
      else False # reached dial c (n + 1) qs)"

fun select :: "bool list \<Rightarrow> 'a list \<Rightarrow> 'a list" where
  "select (m # ms) (x # xs) = (if m then x # select ms xs else select ms xs)"
| "select _ _ = []"

definition unreachable :: "'a result \<Rightarrow> bool" where
  "unreachable r \<longleftrightarrow> IsKind (err_of r) ErrorUnavailable \<or> IsKind (err_of r) ErrorTimeout"

lemma with_connection_events:
  obtains ev where "nw_log (snd (with_connection dial c f nw)) = nw_log nw @ ev" "one_connection c ev"
proof (cases "dial (length (nw_log nw)) (cl_pipePath c)")
  case None
  obtain r s where "f (nw_remote nw) = (r, s)" by fastforce
  with None that show ?thesis by (simp add: with_connection_connected one_connection_def)
next
  case (Some err)
  with that show ?thesis by (simp add: with_connection_failed one_connection_def)
qed

lemma run_events:
  "nw_open (snd (run_requests (client_agent dial a c) qs nw)) = nw_open nw \<and>
   (\<exists>evs. nw_log (snd (run_requests (client_agent dial a c) qs nw)) = nw_log nw @ concat evs \<and>
      length evs = length qs \<and> list_all (one_connection c) evs)"
proof (induction qs arbitrary: nw)
  case Nil
  show ?case by (auto intro: exI [of _ "[]"])
next
  case (Cons q qs)
  let ?x = "with_connection dial c (handle_request a q) nw"
  obtain ev where ev: "nw_log (snd ?x) = nw_log nw @ ev" "one_connection c ev"
    by (rule with_connection_events)
  from Cons obtain evs where evs: "list_all (one_connection c) evs" "length evs = length qs"
      "nw_log (snd (run_requests (client_agent dial a c) qs (snd ?x))) = nw_log (snd ?x) @ concat evs"
      "nw_open (snd (run_requests (client_agent dial a c) qs (snd ?x))) = nw_open (snd ?x)"
    by blast
  then show ?case using ev
    by (simp add: handle_client_agent split_beta with_connection_open) (rule exI [of _ "ev # evs"], simp)
qed

lemma length_run [simp]: "length (fst (run_requests a qs s)) = length qs"
  by (induction qs arbitrary: s) (simp_all add: split_beta)

lemma run_reached:
  "let rn = run_requests (client_agent dial a c) qs nw; ms = reached dial c (length (nw_log nw)) qs;
       rm = run_requests a (select ms qs) (nw_remote nw)
   in select ms (fst rn) = fst rm \<and> nw_remote (snd rn) = snd rm \<and>
      list_all unreachable (select (map Not ms) (fst rn))"
proof (induction qs arbitrary: nw)
  case Nil
  show ?case by simp
next
  case (Cons q qs)
  show ?case
  proof (cases "dial (length (nw_log nw)) (cl_pipePath c)")
    case None
    obtain r s where "handle_request a q (nw_remote nw) = (r, s)" by fastforce
    then show ?thesis using None Cons [of "snd (with_connection dial c (handle_request a q) nw)"]
      by (simp add: Let_def handle_client_agent split_beta with_connection_connected)
  next
    case (Some err)
    then show ?thesis using Cons [of "snd (with_connection dial c (handle_request a q) nw)"]
      by (simp add: Let_def handle_client_agent split_beta with_connection_failed unreachable_def IsKind_def)
  qed
qed

section \<open>Properties\<close>

text \<open>(connect_classified). A failed \<^verbatim>\<open>connect\<close> is classified by its cause: a timeout exactly
  when \<^verbatim>\<open>context.DeadlineExceeded\<close> is in the dialer's error chain, unavailable otherwise, never a
  protocol error; the cause stays reachable for \<^verbatim>\<open>errors.Is\<close>; and no connection is left open and
  the remote agent is not touched.\<close>

theorem connect_classified:
  assumes "connect dial c nw = (Inl e, nw')"
  shows "\<exists>err. dial (length (nw_log nw)) (cl_pipePath c) = Some err \<and> errors_Is e err \<and>
    IsKind (Some e) ErrorTimeout = errors_Is err DeadlineExceeded \<and>
    IsKind (Some e) ErrorUnavailable = (\<not> errors_Is err DeadlineExceeded) \<and>
    \<not> IsKind (Some e) ErrorProtocol \<and>
    nw_open nw' = nw_open nw \<and> nw_remote nw' = nw_remote nw"
  by (cases rule: connect_cases [of dial nw c]) (use assms in \<open>auto simp: IsKind_def\<close>)

definition sample_client :: Client where
  "sample_client = openssh_New ''openssh-ssh-agent'' DefaultConnectTimeout"

definition sample_network :: "nat network" where
  "sample_network = \<lparr>nw_remote = 0, nw_open = [], nw_log = []\<rparr>"

definition busy_dialer :: dialer where
  "busy_dialer n p = (if n = 0 then Some (ErrWrap ''dial'' DeadlineExceeded) else None)"

theorem connect_classified_witness:
  "\<exists>e nw'. connect busy_dialer sample_client sample_network = (Inl e, nw') \<and>
    IsKind (Some e) ErrorTimeout \<and> \<not> IsKind (Some e) ErrorUnavailable"
proof -
  have "\<exists>e nw'. connect busy_dialer sample_client sample_network = (Inl e, nw')"
    by (simp add: connect_def busy_dialer_def sample_network_def)
  then obtain e nw' where c: "connect busy_dialer sample_client sample_network = (Inl e, nw')" by blast
  from connect_classified [OF c] c show ?thesis by (auto simp: busy_dialer_def sample_network_def)
qed

text \<open>(client_one_connection_per_request). Over every sequence of requests and every pattern of
  dial failures, the client makes exactly one dial per request, to its pipe and with its timeout,
  closes each connection it opened before the next request, and leaves open exactly the
  connections that were open before.\<close>

theorem client_one_connection_per_request:
  "nw_open (snd (run_requests (client_agent dial a c) qs nw)) = nw_open nw \<and>
   (\<exists>evs. nw_log (snd (run_requests (client_agent dial a c) qs nw)) = nw_log nw @ concat evs \<and>
      length evs = length qs \<and> list_all (one_connection c) evs)"
  by (rule run_events)

text \<open>C14 (client_recovers). A failed dial costs the request that made it and nothing else: over
  every sequence of requests and every pattern of dial failures, the requests whose dial
  succeeded get the replies the remote agent gives to that subsequence alone, the remote agent
  ends in the state that subsequence leaves, and every other request gets an error of kind
  unavailable or timeout.\<close>

theorem client_recovers:
  "let rn = run_requests (client_agent dial a c) qs nw; ms = reached dial c (length (nw_log nw)) qs;
       rm = run_requests a (select ms qs) (nw_remote nw)
   in select ms (fst rn) = fst rm \<and> nw_remote (snd rn) = snd rm \<and>
      list_all unreachable (select (map Not ms) (fst rn))"
  by (rule run_reached)


text \<open>An agent that counts its keys: enough to see state pass through a connection.\<close>

definition counting_agent :: "nat ExtendedAgent" where
  "counting_agent =
     \<lparr>ag_List = (\<lambda>n. (Inr (replicate n \<lparr>ak_Format = [], ak_Blob = [], ak_Comment = []\<rparr>), n)),
      ag_SignWithFlags = (\<lambda>k d f n. (Inr d, n)), ag_Sign = (\<lambda>k d n. (Inr d, n)),
      ag_Add = (\<lambda>k n. (Inr (), Suc n)), ag_Remove = (\<lambda>k n. (Inr (), n - 1)),
      ag_RemoveAll = (\<lambda>n. (Inr (), 0)), ag_Lock = (\<lambda>p n. (Inr (), n)),
      ag_Unlock = (\<lambda>p n. (Inr (), n)), ag_Signers = (\<lambda>n. (Inr [], n)),
      ag_Extension = (\<lambda>t d n. (Inr d, n))\<rparr>"

definition sample_key :: AddedKey where
  "sample_key = \<lparr>add_PrivateKey = [7], add_Comment = ''k'', add_LifetimeSecs = 0, add_ConfirmBeforeUse = False\<rparr>"


text \<open>(embedded_restricts_keyring). The embedded backend is the library's keyring on every
  sequence of requests that adds no confirm-before-use key, and rejects such a key with
  \<^verbatim>\<open>ErrConfirmBeforeUseUnsupported\<close> without changing the keyring.\<close>

theorem embedded_restricts_keyring:
  assumes "embedded_New (Some keyring) = Inr b"
  shows "(list_all (\<lambda>q. \<not> wants_confirm q) qs \<longrightarrow> run_requests b qs s = run_requests keyring qs s) \<and>
    (add_ConfirmBeforeUse key \<longrightarrow>
      handle_request b (ReqAdd key) s = (Inl ErrConfirmBeforeUseUnsupported, s))"
proof -
  have b: "b = keyring\<lparr>ag_Add := embedded_Add keyring\<rparr>" using assms by (simp add: embedded_New_def)
  have "run_requests b qs s = run_requests keyring qs s" if "list_all (\<lambda>q. \<not> wants_confirm q) qs"
    using embedded_ref.run_refines [of keyring qs s] that admitted_run_stateless [of qs "\<lambda>_ q. \<not> wants_confirm q" b s]
    by (simp add: b list_all_iff apsnd_def prod.map_id0)
  then show ?thesis by (simp add: b embedded_Add_def lift_reply_def)
qed

theorem embedded_restricts_keyring_witness:
  "\<exists>b. embedded_New (Some counting_agent) = Inr b \<and>
    run_requests b [ReqAdd sample_key] 0 = run_requests counting_agent [ReqAdd sample_key] 0 \<and>
    handle_request b (ReqAdd (sample_key\<lparr>add_ConfirmBeforeUse := True\<rparr>)) 0 =
      (Inl ErrConfirmBeforeUseUnsupported, 0)"
proof -
  obtain b where b: "embedded_New (Some counting_agent) = Inr b" by (simp add: embedded_New_def)
  from embedded_restricts_keyring [OF b, of "[ReqAdd sample_key]" 0
      "sample_key\<lparr>add_ConfirmBeforeUse := True\<rparr>"] b
  show ?thesis by (auto simp: sample_key_def)
qed

end
