(* ===== verification/Component.thy ===== *)
theory Component
  imports Backend
begin

text \<open>
  The interface of a startable component (src/internal/interfaces): \<^verbatim>\<open>Component\<close> with \<^verbatim>\<open>Name\<close> and
  \<^verbatim>\<open>Start\<close>, and \<^verbatim>\<open>ReadyComponent\<close> with the \<^verbatim>\<open>Ready\<close> channel.  Pageant, Cygwin and the OpenSSH
  pipe all implement it with the same two fields, a channel of capacity one and a \<^verbatim>\<open>sync.Once\<close>;
  they are the record \<open>readiness\<close>.

  The locale \<open>ready_component\<close> is the contract the application relies on.  Each of the three
  components interprets it on its own \<^verbatim>\<open>Start\<close>.
\<close>

section \<open>Reporting readiness\<close>

record readiness =
  rd_once :: bool
  rd_ready :: "goerr option list"

definition fresh_ready :: readiness where
  "fresh_ready = \<lparr>rd_once = False, rd_ready = []\<rparr>"

text \<open>\<^verbatim>\<open>c.readyOnce.Do(func() { c.ready <- err })\<close>.\<close>

definition reportReady :: "goerr option \<Rightarrow> readiness \<Rightarrow> readiness" where
  "reportReady err rd =
     (if rd_once rd then rd else \<lparr>rd_once = True, rd_ready = rd_ready rd @ [err]\<rparr>)"

text \<open>The deferred call every \<^verbatim>\<open>Start\<close> begins with: a non-nil result is reported.\<close>

definition report_result :: "goerr option \<Rightarrow> readiness \<Rightarrow> readiness" where
  "report_result resultErr rd = (if resultErr \<noteq> None then reportReady resultErr rd else rd)"

section \<open>Serving a connection\<close>

text \<open>
  \<^verbatim>\<open>agent.ServeAgent\<close> of golang.org/x/crypto reads requests from a connection until an error and
  writes the replies.  It is a parameter: on an agent state and the bytes to read it gives its
  error (or that the backend panicked), the bytes it wrote and the agent state it left.
\<close>

datatype served = Served "goerr option" bytes | ServePanic string

type_synonym 's serve_agent = "'s \<Rightarrow> bytes \<Rightarrow> served \<times> 's"

text \<open>A call that may panic.\<close>

datatype 'a outcome = Returned 'a | Panicked string

text \<open>The error of serving that the interfaces report: any but the end of the stream.\<close>

definition serve_failed :: "goerr option \<Rightarrow> bool" where
  "serve_failed err \<longleftrightarrow> err \<noteq> None \<and> \<not> is_err err EOF"

section \<open>Accepting clients\<close>

text \<open>
  \<open>Accepted\<close> is a client, handed to a goroutine of its own; \<open>AcceptFailed e stopped\<close> an error of
  \<^verbatim>\<open>Accept\<close> and whether the context was done then.  A list that ends first is a listener still
  waiting.
\<close>

datatype accept = Accepted | AcceptFailed goerr bool

fun accept_loop :: "string \<Rightarrow> accept list \<Rightarrow> nat \<Rightarrow> (goerr option \<times> nat) option" where
  "accept_loop what [] n = None"
| "accept_loop what (Accepted # xs) n = accept_loop what xs (Suc n)"
| "accept_loop what (AcceptFailed e stopped # xs) n =
     Some (if stopped then None else Some (ErrWrap what e), n)"

section \<open>The contract of a ready component\<close>

text \<open>
  \<open>start e rd\<close> is a run of \<^verbatim>\<open>Start\<close> in the environment \<open>e\<close> with the component's readiness \<open>rd\<close>:
  \<open>None\<close> while it has not returned, otherwise its error and the readiness it leaves.  The laws: a run that has
  returned reported exactly once; a reported failure is the error it returned; and it returns nil
  only after reporting success.
\<close>

locale ready_component =
  fixes start :: "'e \<Rightarrow> readiness \<Rightarrow> (goerr option \<times> readiness) option"
  assumes reports_once: "start e fresh_ready = Some (r, rd) \<Longrightarrow> \<exists>x. rd_ready rd = [x]"
    and reports_failure: "start e fresh_ready = Some (r, rd) \<Longrightarrow> rd_ready rd = [Some x] \<Longrightarrow> r = Some x"
    and reports_success: "start e fresh_ready = Some (None, rd) \<Longrightarrow> rd_ready rd = [None]"
begin

text \<open>What the receiver of \<^verbatim>\<open>Ready\<close> gets from a run that has returned.\<close>

lemma report_of_run:
  assumes "start e fresh_ready = Some (r, rd)"
  shows "rd_ready rd = [None] \<or> (r \<noteq> None \<and> rd_ready rd = [r])"
proof -
  obtain x where "rd_ready rd = [x]" using reports_once [OF assms] by blast
  then show ?thesis using reports_failure [OF assms] by (cases x) auto
qed

text \<open>A receiver never blocks on a component that has returned, and never gets a second value.\<close>

lemma one_report: "start e fresh_ready = Some (r, rd) \<Longrightarrow> length (rd_ready rd) = 1"
  using reports_once by fastforce

end

section \<open>Lemmas\<close>

lemma reportReady_fresh [simp]: "reportReady err fresh_ready = \<lparr>rd_once = True, rd_ready = [err]\<rparr>"
  by (simp add: reportReady_def fresh_ready_def)

lemma reportReady_done [simp]: "reportReady err \<lparr>rd_once = True, rd_ready = xs\<rparr> = \<lparr>rd_once = True, rd_ready = xs\<rparr>"
  by (simp add: reportReady_def)

lemma report_result_simps [simp]:
  "report_result None rd = rd"
  "report_result (Some e) rd = reportReady (Some e) rd"
  by (simp_all add: report_result_def)

text \<open>
  The three components share one shape: an error before readiness, or success reported and then
  some result.  That shape is enough for the contract.
\<close>

lemma ready_componentI:
  assumes "\<And>e r rd. start e fresh_ready = Some (r, rd) \<Longrightarrow>
    (\<exists>x. r = Some x \<and> rd = reportReady (Some x) fresh_ready) \<or>
    rd = report_result r (reportReady None fresh_ready)"
  shows "ready_component start"
proof
  fix e r rd assume s: "start e fresh_ready = Some (r, rd)"
  show "\<exists>x. rd_ready rd = [x]" using assms [OF s] by (cases r) auto
next
  fix e r rd x assume s: "start e fresh_ready = Some (r, rd)" "rd_ready rd = [Some x]"
  show "r = Some x" using assms [OF s(1)] s(2) by (cases r) auto
next
  fix e rd assume s: "start e fresh_ready = Some (None, rd)"
  show "rd_ready rd = [None]" using assms [OF s] by auto
qed

end
