(* ===== verification/App.thy ===== *)
theory App
  imports Component "HOL-Library.Multiset"
begin

text \<open>
  The application (src/internal/app): the aggregated state (state.go) and the supervisor that
  starts every component in goroutines of its own, collects one startup status from each and shuts
  them down (application.go).

  \<^verbatim>\<open>Run\<close> is concurrent, so it is a step relation: one step per channel operation of one
  goroutine, in any order the scheduler picks.  Components appear only through what they do to
  their channels: report readiness once, and return (or panic) once.
\<close>

section \<open>state.go\<close>

type_synonym State = string

definition StateRunning :: State where "StateRunning = ''running''"
definition StateDegraded :: State where "StateDegraded = ''degraded''"
definition StateConfigurationError :: State where "StateConfigurationError = ''configuration_error''"

record ComponentStatus =
  cs_Name :: string
  cs_Enabled :: bool
  cs_Running :: bool
  cs_Error :: "goerr option"

definition Aggregate :: "goerr option \<Rightarrow> ComponentStatus list \<Rightarrow> State" where
  "Aggregate configurationError statuses =
     (if configurationError \<noteq> None then StateConfigurationError
      else if list_ex (\<lambda>s. cs_Enabled s \<and> (\<not> cs_Running s \<or> cs_Error s \<noteq> None)) statuses then StateDegraded
      else StateRunning)"

definition Tooltip :: "State \<Rightarrow> string" where
  "Tooltip state =
     (if state = StateRunning then ''OmniSSHAgent - Running''
      else if state = StateDegraded then ''OmniSSHAgent - Degraded''
      else if state = StateConfigurationError then ''OmniSSHAgent - Configuration error''
      else ''OmniSSHAgent - '' @ state)"

section \<open>application.go\<close>

text \<open>A component of the list: its name and whether it implements \<^verbatim>\<open>ReadyComponent\<close>.\<close>

record AppComponent =
  ac_Name :: string
  ac_Ready :: bool

text \<open>
  Where the goroutine of a component is: at its \<^verbatim>\<open>select\<close> (or about to send the status of a
  component without readiness), waiting for \<^verbatim>\<open>stopped\<close>, or done.
\<close>

datatype phase = Selecting | Stopping | Finished

text \<open>
  \<open>ap_ready\<close> and \<open>ap_stopped\<close> are what is in the two channels of each component, \<open>ap_results\<close> the
  channel of statuses, \<open>ap_statuses\<close> those received; beside a status stands the position of its component, which
  the program does not keep.  \<open>ap_set\<close> is whether \<^verbatim>\<open>Run\<close> has published the state.
\<close>

record Application =
  ap_logger :: bool
  ap_hasSink :: bool
  ap_state :: State
  ap_sink :: "State list"
  ap_log :: "string list"
  ap_ctx :: "goerr option"
  ap_ready :: "goerr option option list"
  ap_stopped :: "goerr option option list"
  ap_phase :: "phase list"
  ap_results :: "(nat \<times> ComponentStatus) list"
  ap_statuses :: "(nat \<times> ComponentStatus) list"
  ap_set :: bool
  ap_done :: bool

definition app_New :: "AppComponent list \<Rightarrow> bool \<Rightarrow> bool \<Rightarrow> Application" where
  "app_New cs sink logger =
     \<lparr>ap_logger = logger, ap_hasSink = sink, ap_state = StateDegraded, ap_sink = [], ap_log = [], ap_ctx = None,
      ap_ready = replicate (length cs) None, ap_stopped = replicate (length cs) None,
      ap_phase = replicate (length cs) Selecting, ap_results = [], ap_statuses = [],
      ap_set = False, ap_done = False\<rparr>"

definition setState :: "State \<Rightarrow> Application \<Rightarrow> Application" where
  "setState state a =
     a\<lparr>ap_state := state,
       ap_log := (if ap_logger a then ap_log a @ [''application state changed''] else ap_log a),
       ap_sink := (if ap_hasSink a then ap_sink a @ [state] else ap_sink a)\<rparr>"

definition app_State :: "Application \<Rightarrow> State" where
  "app_State a = ap_state a"

definition SetConfigurationError :: "Application \<Rightarrow> Application" where
  "SetConfigurationError a = setState StateConfigurationError a"

text \<open>The three arms of the \<^verbatim>\<open>select\<close> and the branch without it: what goes on \<^verbatim>\<open>results\<close>.\<close>

definition status_ready :: "AppComponent \<Rightarrow> goerr option \<Rightarrow> ComponentStatus" where
  "status_ready c err = \<lparr>cs_Name = ac_Name c, cs_Enabled = True, cs_Running = (err = None), cs_Error = err\<rparr>"

definition status_failed :: "AppComponent \<Rightarrow> goerr option \<Rightarrow> ComponentStatus" where
  "status_failed c err = \<lparr>cs_Name = ac_Name c, cs_Enabled = True, cs_Running = False, cs_Error = err\<rparr>"

definition status_assumed :: "AppComponent \<Rightarrow> ComponentStatus" where
  "status_assumed c = \<lparr>cs_Name = ac_Name c, cs_Enabled = True, cs_Running = True, cs_Error = None\<rparr>"

definition send_result :: "nat \<Rightarrow> ComponentStatus \<Rightarrow> phase \<Rightarrow> Application \<Rightarrow> Application" where
  "send_result i s ph a =
     a\<lparr>ap_results := ap_results a @ [(i, s)], ap_phase := (ap_phase a)[i := ph]\<rparr>"

definition receive_status :: "Application \<Rightarrow> Application" where
  "receive_status a =
     (case ap_results a of
        [] \<Rightarrow> a
      | (i, s) # rest \<Rightarrow>
          a\<lparr>ap_results := rest, ap_statuses := ap_statuses a @ [(i, s)],
            ap_log := (if cs_Error s \<noteq> None \<and> ap_logger a then ap_log a @ [''component startup failed''] else ap_log a)\<rparr>)"

definition publish :: "Application \<Rightarrow> Application" where
  "publish a = (setState (Aggregate None (map snd (ap_statuses a))) a)\<lparr>ap_set := True\<rparr>"

text \<open>
  Steps of the environment: a component reports readiness, its \<^verbatim>\<open>Start\<close> returns or panics, the
  context ends (by the parent or by \<^verbatim>\<open>Shutdown\<close>).
\<close>

inductive env_step :: "AppComponent list \<Rightarrow> Application \<Rightarrow> Application \<Rightarrow> bool" for cs where
  env_ready: "i < length cs \<Longrightarrow> ac_Ready (cs ! i) \<Longrightarrow> ap_ready a ! i = None \<Longrightarrow>
    env_step cs a (a\<lparr>ap_ready := (ap_ready a)[i := Some err]\<rparr>)"
| env_stop: "i < length cs \<Longrightarrow> ap_stopped a ! i = None \<Longrightarrow>
    env_step cs a (a\<lparr>ap_stopped := (ap_stopped a)[i := Some err]\<rparr>)"
| env_cancel: "ap_ctx a = None \<Longrightarrow> env_step cs a (a\<lparr>ap_ctx := Some err\<rparr>)"

text \<open>Steps of the goroutines \<^verbatim>\<open>Run\<close> starts and of \<^verbatim>\<open>Run\<close> itself.\<close>

inductive run_step :: "AppComponent list \<Rightarrow> Application \<Rightarrow> Application \<Rightarrow> bool" for cs where
  select_ready: "i < length cs \<Longrightarrow> ap_phase a ! i = Selecting \<Longrightarrow> ac_Ready (cs ! i) \<Longrightarrow> ap_ready a ! i = Some err \<Longrightarrow>
    run_step cs a (send_result i (status_ready (cs ! i) err) Stopping a)"
| select_stopped: "i < length cs \<Longrightarrow> ap_phase a ! i = Selecting \<Longrightarrow> ac_Ready (cs ! i) \<Longrightarrow> ap_stopped a ! i = Some err \<Longrightarrow>
    run_step cs a (send_result i (status_failed (cs ! i) err) Finished a)"
| select_ctx: "i < length cs \<Longrightarrow> ap_phase a ! i = Selecting \<Longrightarrow> ac_Ready (cs ! i) \<Longrightarrow> ap_ctx a = Some err \<Longrightarrow>
    run_step cs a (send_result i (status_failed (cs ! i) (Some err)) Stopping a)"
| not_ready: "i < length cs \<Longrightarrow> ap_phase a ! i = Selecting \<Longrightarrow> \<not> ac_Ready (cs ! i) \<Longrightarrow>
    run_step cs a (send_result i (status_assumed (cs ! i)) Stopping a)"
| wait_stopped: "i < length cs \<Longrightarrow> ap_phase a ! i = Stopping \<Longrightarrow> ap_stopped a ! i = Some err \<Longrightarrow>
    run_step cs a (a\<lparr>ap_phase := (ap_phase a)[i := Finished]\<rparr>)"
| collect: "ap_results a \<noteq> [] \<Longrightarrow> length (ap_statuses a) < length cs \<Longrightarrow> run_step cs a (receive_status a)"
| set_state: "length (ap_statuses a) = length cs \<Longrightarrow> \<not> ap_set a \<Longrightarrow> run_step cs a (publish a)"
| close_done: "ap_set a \<Longrightarrow> \<not> ap_done a \<Longrightarrow> list_all (\<lambda>p. p = Finished) (ap_phase a) \<Longrightarrow>
    run_step cs a (a\<lparr>ap_done := True\<rparr>)"

definition app_step :: "AppComponent list \<Rightarrow> Application \<Rightarrow> Application \<Rightarrow> bool" where
  "app_step cs a b \<longleftrightarrow> env_step cs a b \<or> run_step cs a b"

inductive app_reach :: "AppComponent list \<Rightarrow> Application \<Rightarrow> bool" for cs where
  reach_init: "app_reach cs (app_New cs sink logger)"
| reach_step: "app_reach cs a \<Longrightarrow> app_step cs a b \<Longrightarrow> app_reach cs b"

text \<open>
  \<^verbatim>\<open>Shutdown\<close>: cancel once, then wait for \<^verbatim>\<open>done\<close> or the caller's context.  \<open>expired\<close> is the error
  of that context if it ended; when both are ready either may be picked.
\<close>

definition Shutdown_cancel :: "Application \<Rightarrow> Application" where
  "Shutdown_cancel a = (if ap_ctx a = None then a\<lparr>ap_ctx := Some Canceled\<rparr> else a)"

definition Shutdown_result :: "goerr option \<Rightarrow> Application \<Rightarrow> goerr option list" where
  "Shutdown_result expired a =
     (if ap_done a then [None] else []) @
     (case expired of Some e \<Rightarrow> [Some (ErrWrap ''shutdown components'' e)] | None \<Rightarrow> [])"

inductive_cases run_stepE: "run_step cs a b"
inductive_cases env_stepE: "env_step cs a b"

section \<open>Invariant\<close>

text \<open>What a status says of the component at position \<open>i\<close>.\<close>

definition status_ok :: "AppComponent list \<Rightarrow> Application \<Rightarrow> nat \<Rightarrow> ComponentStatus \<Rightarrow> bool" where
  "status_ok cs a i s \<longleftrightarrow>
     cs_Name s = ac_Name (cs ! i) \<and> cs_Enabled s \<and>
     (cs_Running s \<longrightarrow> cs_Error s = None \<and> (ac_Ready (cs ! i) \<longrightarrow> ap_ready a ! i = Some None))"

definition all_statuses :: "Application \<Rightarrow> (nat \<times> ComponentStatus) list" where
  "all_statuses a = ap_statuses a @ ap_results a"

definition app_shape :: "AppComponent list \<Rightarrow> Application \<Rightarrow> bool" where
  "app_shape cs a \<longleftrightarrow>
     length (ap_ready a) = length cs \<and> length (ap_stopped a) = length cs \<and> length (ap_phase a) = length cs"

definition app_counts :: "AppComponent list \<Rightarrow> Application \<Rightarrow> bool" where
  "app_counts cs a \<longleftrightarrow>
     distinct (map fst (all_statuses a)) \<and>
     fst ` set (all_statuses a) = {i. i < length cs \<and> ap_phase a ! i \<noteq> Selecting}"

definition app_told :: "AppComponent list \<Rightarrow> Application \<Rightarrow> bool" where
  "app_told cs a \<longleftrightarrow> (\<forall>(i, s) \<in> set (all_statuses a). status_ok cs a i s)"

definition app_ends :: "AppComponent list \<Rightarrow> Application \<Rightarrow> bool" where
  "app_ends cs a \<longleftrightarrow>
     (\<forall>i < length cs. ap_phase a ! i = Finished \<longrightarrow> ap_stopped a ! i \<noteq> None) \<and>
     (ap_set a \<longrightarrow> length (ap_statuses a) = length cs \<and> ap_state a = Aggregate None (map snd (ap_statuses a))) \<and>
     (ap_done a \<longrightarrow> ap_set a \<and> (\<forall>i < length cs. ap_phase a ! i = Finished))"

definition app_inv :: "AppComponent list \<Rightarrow> Application \<Rightarrow> bool" where
  "app_inv cs a \<longleftrightarrow> app_shape cs a \<and> app_counts cs a \<and> app_told cs a \<and> app_ends cs a"

lemmas app_inv_defs = app_inv_def app_shape_def app_counts_def app_told_def app_ends_def all_statuses_def

lemma app_inv_init: "app_inv cs (app_New cs sink logger)"
  by (simp add: app_inv_defs app_New_def)

lemma send_result_simps [simp]:
  "ap_ready (send_result i s ph a) = ap_ready a" "ap_stopped (send_result i s ph a) = ap_stopped a"
  "ap_phase (send_result i s ph a) = (ap_phase a)[i := ph]" "ap_set (send_result i s ph a) = ap_set a"
  "ap_done (send_result i s ph a) = ap_done a" "ap_statuses (send_result i s ph a) = ap_statuses a"
  "ap_results (send_result i s ph a) = ap_results a @ [(i, s)]" "ap_state (send_result i s ph a) = ap_state a"
  by (simp_all add: send_result_def)

text \<open>One send by a goroutine still at its select.\<close>

lemma app_inv_send:
  assumes inv: "app_inv cs a" and i: "i < length cs" "ap_phase a ! i = Selecting" and ph: "ph \<noteq> Selecting"
    and st: "status_ok cs a i s" and fin: "ph = Finished \<longrightarrow> ap_stopped a ! i \<noteq> None"
  shows "app_inv cs (send_result i s ph a)"
proof -
  let ?b = "send_result i s ph a"
  have len: "length (ap_phase a) = length cs" using inv by (simp add: app_inv_defs)
  have shape: "app_shape cs ?b" using inv by (simp add: app_inv_def app_shape_def)
  have all: "all_statuses ?b = all_statuses a @ [(i, s)]" by (simp add: all_statuses_def)
  have set: "fst ` set (all_statuses a) = {j. j < length cs \<and> ap_phase a ! j \<noteq> Selecting}"
    and dist: "distinct (map fst (all_statuses a))" using inv by (simp_all add: app_inv_def app_counts_def)
  have "i \<notin> fst ` set (all_statuses a)" using set i by simp
  then have counts: "app_counts cs ?b" using dist set i ph len
    by (auto simp: app_counts_def all nth_list_update)
  have told: "app_told cs ?b" using inv st by (auto simp: app_inv_def app_told_def all status_ok_def)
  have ends: "app_ends cs ?b" using inv i fin len
    by (auto simp: app_inv_def app_ends_def nth_list_update)
  show ?thesis using shape counts told ends by (simp add: app_inv_def)
qed

lemma app_inv_run_step: "run_step cs a b \<Longrightarrow> app_inv cs a \<Longrightarrow> app_inv cs b"
proof (induction rule: run_step.induct)
  case (select_ready i a err)
  then show ?case by (intro app_inv_send) (auto simp: status_ok_def status_ready_def)
next
  case (select_stopped i a err)
  then show ?case by (intro app_inv_send) (auto simp: status_ok_def status_failed_def)
next
  case (select_ctx i a err)
  then show ?case by (intro app_inv_send) (auto simp: status_ok_def status_failed_def)
next
  case (not_ready i a)
  then show ?case by (intro app_inv_send) (auto simp: status_ok_def status_assumed_def)
next
  case (wait_stopped i a err)
  then show ?case by (auto simp: app_inv_defs nth_list_update status_ok_def)
next
  case (collect a)
  then obtain x rest where r: "ap_results a = x # rest" by (meson neq_Nil_conv)
  have "all_statuses (receive_status a) = all_statuses a"
    by (cases x) (simp add: all_statuses_def receive_status_def r)
  moreover have "ap_ready (receive_status a) = ap_ready a" "ap_stopped (receive_status a) = ap_stopped a"
    "ap_phase (receive_status a) = ap_phase a" "ap_set (receive_status a) = ap_set a" "ap_done (receive_status a) = ap_done a"
    by (cases x, simp add: receive_status_def r)+
  ultimately show ?case using collect
    by (auto simp: app_inv_def app_shape_def app_counts_def app_told_def app_ends_def status_ok_def)
next
  case (set_state a)
  then show ?case by (auto simp: app_inv_defs publish_def setState_def status_ok_def)
next
  case (close_done a)
  then show ?case by (auto simp: app_inv_defs status_ok_def list_all_length)
qed

lemma app_inv_env_step: "env_step cs a b \<Longrightarrow> app_inv cs a \<Longrightarrow> app_inv cs b"
proof (induction rule: env_step.induct)
  case (env_ready i a err)
  let ?b = "a\<lparr>ap_ready := (ap_ready a)[i := Some err]\<rparr>"
  have all: "all_statuses ?b = all_statuses a" by (simp add: all_statuses_def)
  have "status_ok cs ?b j s" if "status_ok cs a j s" for j s
    using that env_ready(1-3) by (cases "j = i") (auto simp: status_ok_def)
  then have "app_told cs ?b" using env_ready(4) by (fastforce simp: app_inv_def app_told_def all)
  then show ?case using env_ready(4) by (simp add: app_inv_def app_shape_def app_counts_def app_ends_def all)
next
  case (env_stop i a err)
  then show ?case by (auto simp: app_inv_defs status_ok_def nth_list_update)
next
  case (env_cancel a err)
  then show ?case by (auto simp: app_inv_defs status_ok_def)
qed

lemma app_reach_inv: "app_reach cs a \<Longrightarrow> app_inv cs a"
  by (induction rule: app_reach.induct) (auto simp: app_inv_init app_step_def app_inv_run_step app_inv_env_step)

section \<open>Progress\<close>

fun phase_work :: "phase \<Rightarrow> nat" where
  "phase_work Selecting = 3"
| "phase_work Stopping = 1"
| "phase_work Finished = 0"

text \<open>What is left to do once the components have returned: every step of \<^verbatim>\<open>Run\<close> lowers it.\<close>

definition work :: "Application \<Rightarrow> nat" where
  "work a = sum_list (map phase_work (ap_phase a)) + length (ap_results a) +
     (if ap_set a then 0 else 1) + (if ap_done a then 0 else 1)"

lemma work_update:
  "i < length xs \<Longrightarrow> sum_list (map phase_work (xs[i := p])) + phase_work (xs ! i) =
     sum_list (map phase_work xs) + phase_work p"
proof (induction xs arbitrary: i)
  case (Cons x xs)
  then show ?case by (cases i) fastforce+
qed simp

lemma work_send:
  assumes "i < length (ap_phase a)" "ap_phase a ! i = Selecting" "ph \<noteq> Selecting"
  shows "work (send_result i s ph a) < work a"
proof -
  have "phase_work ph \<le> 1" using assms(3) by (cases ph) simp_all
  then show ?thesis using work_update [OF assms(1), of ph] assms(2) by (simp add: work_def)
qed

lemma run_step_work: "run_step cs a b \<Longrightarrow> app_shape cs a \<Longrightarrow> work b < work a"
proof (induction rule: run_step.induct)
  case (collect a)
  then show ?case by (cases "ap_results a") (auto simp: work_def receive_status_def)
next
  case (set_state a)
  then show ?case by (simp add: work_def publish_def setState_def)
next
  case (close_done a)
  then show ?case by (simp add: work_def)
next
  case (wait_stopped i a err)
  then show ?case using work_update [of i "ap_phase a" Finished] by (simp add: work_def app_shape_def)
qed (simp_all add: work_send app_shape_def)

definition all_stopped :: "Application \<Rightarrow> bool" where
  "all_stopped a = list_all (\<lambda>x. x \<noteq> None) (ap_stopped a)"

lemma app_counts_length:
  assumes "app_inv cs a"
  shows "length (all_statuses a) = card {i. i < length cs \<and> ap_phase a ! i \<noteq> Selecting}"
  using assms distinct_card [of "map fst (all_statuses a)"] by (simp add: app_inv_def app_counts_def)

lemma all_reported:
  assumes "app_inv cs a" "\<forall>i < length cs. ap_phase a ! i \<noteq> Selecting"
  shows "length (all_statuses a) = length cs"
proof -
  have "{i. i < length cs \<and> ap_phase a ! i \<noteq> Selecting} = {..<length cs}" using assms(2) by auto
  then show ?thesis using app_counts_length [OF assms(1)] by simp
qed

text \<open>A state in which no step of \<^verbatim>\<open>Run\<close> is left, with every component returned, is a finished one.\<close>

lemma quiescent_done:
  assumes inv: "app_inv cs a" and stopped: "all_stopped a" and quiet: "\<And>b. \<not> run_step cs a b"
  shows "ap_done a"
proof -
  have st: "ap_stopped a ! i \<noteq> None" if "i < length cs" for i
    using stopped inv that by (simp add: all_stopped_def list_all_length app_inv_def app_shape_def)
  have fin: "ap_phase a ! i = Finished" if i: "i < length cs" for i
  proof (cases "ap_phase a ! i")
    case Selecting
    then show ?thesis using quiet st [OF i] select_stopped [OF i] not_ready [OF i] by blast
  next
    case Stopping
    then show ?thesis using quiet st [OF i] wait_stopped [OF i] by blast
  qed
  then have len: "length (all_statuses a) = length cs" by (intro all_reported [OF inv]) simp
  have "ap_results a = []"
    using quiet collect [of a cs] len by (cases "ap_results a") (auto simp: all_statuses_def)
  then have "ap_set a" using quiet set_state [of a cs] len by (auto simp: all_statuses_def)
  then show ?thesis using quiet close_done [of a cs] fin inv
    by (auto simp: list_all_length app_inv_def app_shape_def)
qed

lemma run_steps_inv: "(run_step cs)\<^sup>*\<^sup>* a b \<Longrightarrow> app_inv cs a \<Longrightarrow> app_inv cs b"
  by (induction rule: rtranclp_induct) (auto simp: app_inv_run_step)

lemma run_step_stopped: "run_step cs a b \<Longrightarrow> ap_stopped b = ap_stopped a"
  by (induction rule: run_step.induct) (auto simp: receive_status_def publish_def setState_def split: list.splits)

lemma run_steps_stopped: "(run_step cs)\<^sup>*\<^sup>* a b \<Longrightarrow> ap_stopped b = ap_stopped a"
  by (induction rule: rtranclp_induct) (auto simp: run_step_stopped)

lemma run_to_done:
  "app_inv cs a \<Longrightarrow> all_stopped a \<Longrightarrow> \<exists>b. (run_step cs)\<^sup>*\<^sup>* a b \<and> ap_done b"
proof (induction "work a" arbitrary: a rule: less_induct)
  case less
  show ?case
  proof (cases "\<exists>b. run_step cs a b")
    case True
    then obtain b where b: "run_step cs a b" by blast
    then have "work b < work a" using run_step_work less.prems by (auto simp: app_inv_def)
    moreover have "all_stopped b" using less.prems run_step_stopped [OF b] by (simp add: all_stopped_def)
    ultimately show ?thesis using less.hyps app_inv_run_step [OF b] less.prems b
      by (meson converse_rtranclp_into_rtranclp)
  next
    case False
    then show ?thesis using quiescent_done less.prems by blast
  qed
qed

text \<open>The statuses behind a published state.\<close>

lemma published_statuses:
  assumes "app_reach cs a" and "ap_set a"
  shows "length (ap_statuses a) = length cs" and "mset (map fst (ap_statuses a)) = mset [0..<length cs]"
    and "list_all (\<lambda>(i, s). status_ok cs a i s) (ap_statuses a)"
    and "ap_state a = (if list_all (\<lambda>(i, s). cs_Running s) (ap_statuses a) then StateRunning else StateDegraded)"
proof -
  have inv: "app_inv cs a" using assms(1) by (rule app_reach_inv)
  have len: "length (ap_statuses a) = length cs" and state: "ap_state a = Aggregate None (map snd (ap_statuses a))"
    using inv assms(2) by (simp_all add: app_inv_def app_ends_def)
  have dist: "distinct (map fst (ap_statuses a))"
    using inv by (simp add: app_inv_def app_counts_def all_statuses_def)
  have "fst ` set (all_statuses a) \<subseteq> {0..<length cs}" using inv by (auto simp: app_inv_def app_counts_def)
  then have sub: "set (map fst (ap_statuses a)) \<subseteq> {0..<length cs}" by (simp add: all_statuses_def image_Un)
  have "card (set (map fst (ap_statuses a))) = length cs" using distinct_card [OF dist] len by simp
  then have "set (map fst (ap_statuses a)) = {0..<length cs}"
    using sub by (intro card_subset_eq) simp_all
  then have ms: "mset (map fst (ap_statuses a)) = mset [0..<length cs]"
    using dist by (metis atLeastLessThan_upt distinct_upt set_eq_iff_mset_eq_distinct)
  have told: "list_all (\<lambda>(i, s). status_ok cs a i s) (ap_statuses a)"
    using inv by (auto simp: app_inv_def app_told_def all_statuses_def list_all_iff)
  have "list_ex (\<lambda>s. cs_Enabled s \<and> (\<not> cs_Running s \<or> cs_Error s \<noteq> None)) (map snd (ap_statuses a)) \<longleftrightarrow>
      \<not> list_all (\<lambda>(i, s). cs_Running s) (ap_statuses a)"
    using told by (fastforce simp: list_ex_iff list_all_iff status_ok_def)
  then show "ap_state a = (if list_all (\<lambda>(i, s). cs_Running s) (ap_statuses a) then StateRunning else StateDegraded)"
    using state by (simp add: Aggregate_def)
  show "length (ap_statuses a) = length cs" "mset (map fst (ap_statuses a)) = mset [0..<length cs]"
    "list_all (\<lambda>(i, s). status_ok cs a i s) (ap_statuses a)" by (fact len ms told)+
qed

section \<open>Properties\<close>

text \<open>C2 (app_state_correct). In every interleaving of the components and the supervisor, once \<^verbatim>\<open>Run\<close>
  has published the state it holds exactly one status per component, each carrying that
  component's name; and the state is running exactly when every status says running, which a
  component that reports readiness gets only by having reported success.  Otherwise it is degraded.\<close>

theorem app_state_correct:
  assumes "app_reach cs a" and "ap_set a"
  shows "length (ap_statuses a) = length cs \<and> mset (map fst (ap_statuses a)) = mset [0..<length cs] \<and>
    list_all (\<lambda>(i, s). status_ok cs a i s) (ap_statuses a) \<and>
    ap_state a = (if list_all (\<lambda>(i, s). cs_Running s) (ap_statuses a) then StateRunning else StateDegraded)"
  using published_statuses [OF assms] by simp

text \<open>(app_done_safe). When the \<^verbatim>\<open>done\<close> channel is closed, so whenever \<^verbatim>\<open>Shutdown\<close> can return nil,
  the state was published and the \<^verbatim>\<open>Start\<close> of every component has returned; \<^verbatim>\<open>Shutdown\<close> reports a
  timeout only if its own context ended.\<close>

theorem app_done_safe:
  assumes "app_reach cs a"
  shows "(None \<in> set (Shutdown_result expired a) \<longrightarrow> ap_set a \<and> all_stopped a) \<and>
    (\<forall>e. Some e \<in> set (Shutdown_result expired a) \<longrightarrow> (\<exists>x. expired = Some x \<and> errors_Is e x))"
proof -
  have "app_inv cs a" using assms by (rule app_reach_inv)
  then have "ap_done a \<longrightarrow> ap_set a \<and> all_stopped a"
    by (auto simp: app_inv_def app_ends_def app_shape_def all_stopped_def list_all_length)
  then show ?thesis by (auto simp: Shutdown_result_def split: option.splits if_splits)
qed


text \<open>A complete run with one component: it becomes ready, the state is published, its \<^verbatim>\<open>Start\<close> returns.\<close>

definition sample_cs :: "AppComponent list" where
  "sample_cs = [\<lparr>ac_Name = ''pageant'', ac_Ready = True\<rparr>]"

definition sample_published :: Application where
  "sample_published =
     publish (receive_status (send_result 0 (status_ready (sample_cs ! 0) None) Stopping
       ((app_New sample_cs True True)\<lparr>ap_ready := [Some None]\<rparr>)))"

definition sample_stopped :: Application where
  "sample_stopped = sample_published\<lparr>ap_stopped := [Some None]\<rparr>"

lemma sample_published_reach: "app_reach sample_cs sample_published"
proof -
  let ?a0 = "app_New sample_cs True True"
  let ?a1 = "?a0\<lparr>ap_ready := [Some None]\<rparr>"
  let ?a2 = "send_result 0 (status_ready (sample_cs ! 0) None) Stopping ?a1"
  let ?a3 = "receive_status ?a2"
  have "env_step sample_cs ?a0 ?a1"
    using env_ready [of 0 sample_cs ?a0 None] by (simp add: sample_cs_def app_New_def)
  then have 1: "app_reach sample_cs ?a1"
    by (intro reach_step [OF reach_init [of _ True True]]) (simp add: app_step_def)
  have "run_step sample_cs ?a1 ?a2" by (rule select_ready) (simp_all add: sample_cs_def app_New_def)
  then have 2: "app_reach sample_cs ?a2" by (intro reach_step [OF 1]) (simp add: app_step_def)
  have "run_step sample_cs ?a2 ?a3" by (rule collect) (simp_all add: sample_cs_def app_New_def)
  then have 3: "app_reach sample_cs ?a3" by (intro reach_step [OF 2]) (simp add: app_step_def)
  have "run_step sample_cs ?a3 (publish ?a3)"
    by (rule set_state) (simp_all add: sample_cs_def app_New_def receive_status_def)
  then show ?thesis unfolding sample_published_def by (intro reach_step [OF 3]) (simp add: app_step_def)
qed

lemma sample_stopped_reach: "app_reach sample_cs sample_stopped"
proof -
  have "env_step sample_cs sample_published sample_stopped"
    using env_stop [of 0 sample_cs sample_published None]
    by (simp add: sample_stopped_def sample_published_def sample_cs_def publish_def setState_def receive_status_def app_New_def)
  then show ?thesis by (intro reach_step [OF sample_published_reach]) (simp add: app_step_def)
qed

lemma sample_all_stopped: "all_stopped sample_stopped"
  by (simp add: all_stopped_def sample_stopped_def)

theorem app_state_correct_witness: "ap_set sample_published \<and> ap_state sample_published = StateRunning"
proof -
  have s: "ap_set sample_published" by (simp add: sample_published_def publish_def)
  have "list_all (\<lambda>(i, s). cs_Running s) (ap_statuses sample_published)"
    by (simp add: sample_published_def publish_def setState_def receive_status_def app_New_def status_ready_def)
  then show ?thesis using s app_state_correct [OF sample_published_reach s] by simp
qed

theorem app_done_safe_witness:
  "Shutdown_result (Some DeadlineExceeded) sample_published = [Some (ErrWrap ''shutdown components'' DeadlineExceeded)] \<and>
    (\<exists>x. Some DeadlineExceeded = Some x \<and> errors_Is (ErrWrap ''shutdown components'' DeadlineExceeded) x)"
proof -
  have "Shutdown_result (Some DeadlineExceeded) sample_published = [Some (ErrWrap ''shutdown components'' DeadlineExceeded)]"
    by (simp add: Shutdown_result_def sample_published_def publish_def setState_def receive_status_def app_New_def)
  then show ?thesis using app_done_safe [OF sample_published_reach, of "Some DeadlineExceeded"] by simp
qed


end
