(* ===== verification/Runtime.thy ===== *)
theory Runtime
  imports Backend
begin

text \<open>
  The runtime services of the program: the daily log file (src/internal/logging), registration
  for Windows sign-in (src/internal/autostart), the single-instance mutex
  (src/internal/singleton), the shutdown event (src/internal/control), opening a path in the shell
  (src/internal/open) and the command line (src/internal/cli).  Registry, kernel objects and the
  shell are explicit states or parameters.
\<close>

section \<open>logging.go\<close>

text \<open>
  An open log file is its path and whether the handle has been closed.  A date is the number
  \<^verbatim>\<open>time.Now().Format("20060102")\<close> prints.  \<open>lg_mkdir\<close>, \<open>lg_open\<close> and \<open>lg_write\<close> say which calls
  fail, by the number of the call.
\<close>

record DailyWriter =
  dw_dir :: string
  dw_date :: nat
  dw_file :: "(string \<times> bool) option"

record log_world =
  lw_files :: "string \<Rightarrow> bytes"
  lw_fallback :: bytes
  lw_calls :: nat

record log_env =
  lg_mkdir :: "nat \<Rightarrow> goerr option"
  lg_open :: "nat \<Rightarrow> goerr option"
  lg_write :: "nat \<Rightarrow> goerr option"

definition NewDailyWriter :: "string \<Rightarrow> DailyWriter" where
  "NewDailyWriter dir = \<lparr>dw_dir = dir, dw_date = 0, dw_file = None\<rparr>"

definition log_path :: "filepath_ops \<Rightarrow> string \<Rightarrow> nat \<Rightarrow> string" where
  "log_path fp dir date = fp_Join fp [dir, ''omnisshagent-'' @ nat_digits date @ ''.log'']"

definition tick :: "log_world \<Rightarrow> log_world" where
  "tick w = w\<lparr>lw_calls := Suc (lw_calls w)\<rparr>"

definition write_fallback :: "bytes \<Rightarrow> log_world \<Rightarrow> log_world" where
  "write_fallback p w = w\<lparr>lw_fallback := lw_fallback w @ p\<rparr>"

text \<open>\<^verbatim>\<open>w.file.Write(p)\<close>: a closed handle gives \<^verbatim>\<open>os.ErrClosed\<close>.\<close>

definition file_Write :: "log_env \<Rightarrow> string \<times> bool \<Rightarrow> bytes \<Rightarrow> log_world \<Rightarrow> goerr option \<times> log_world" where
  "file_Write le f p w =
     (if snd f then (Some (ErrSentinel ''os.ErrClosed''), tick w)
      else
        (case lg_write le (lw_calls w) of
           Some e \<Rightarrow> (Some e, tick w)
         | None \<Rightarrow> (None, (tick w)\<lparr>lw_files := (lw_files w)(fst f := lw_files w (fst f) @ p)\<rparr>)))"

definition DailyWriter_Write ::
  "filepath_ops \<Rightarrow> log_env \<Rightarrow> nat \<Rightarrow> bytes \<Rightarrow> DailyWriter \<Rightarrow> log_world \<Rightarrow> goerr option \<times> DailyWriter \<times> log_world"
where
  "DailyWriter_Write fp le date p d w =
     (if dw_file d = None \<or> date \<noteq> dw_date d then
        (let d1 = d\<lparr>dw_file := map_option (\<lambda>f. (fst f, True)) (dw_file d)\<rparr>; w1 = tick w in
         if lg_mkdir le (lw_calls w) \<noteq> None then (None, d1, write_fallback p w1)
         else
           (let w2 = tick w1 in
            if lg_open le (lw_calls w1) \<noteq> None then (None, d1, write_fallback p w2)
            else
              (let f = (log_path fp (dw_dir d) date, False); d2 = d1\<lparr>dw_file := Some f, dw_date := date\<rparr> in
               case file_Write le f p w2 of (r, w3) \<Rightarrow> (r, d2, w3))))
      else
        (case dw_file d of
           None \<Rightarrow> (None, d, w)
         | Some f \<Rightarrow> (case file_Write le f p w of (r, w1) \<Rightarrow> (r, d, w1))))"

definition DailyWriter_Close :: "DailyWriter \<Rightarrow> goerr option \<times> DailyWriter" where
  "DailyWriter_Close d =
     (case dw_file d of
        None \<Rightarrow> (None, d)
      | Some f \<Rightarrow> (if snd f then Some (ErrSentinel ''os.ErrClosed'') else None, d\<lparr>dw_file := None\<rparr>))"

fun write_all ::
  "filepath_ops \<Rightarrow> log_env \<Rightarrow> (nat \<times> bytes) list \<Rightarrow> DailyWriter \<Rightarrow> log_world \<Rightarrow> goerr option list \<times> DailyWriter \<times> log_world"
where
  "write_all fp le [] d w = ([], d, w)"
| "write_all fp le ((date, p) # xs) d w =
     (case DailyWriter_Write fp le date p d w of (r, d1, w1) \<Rightarrow>
        (case write_all fp le xs d1 w1 of (rs, d2, w2) \<Rightarrow> (r # rs, d2, w2)))"

text \<open>
  \<^verbatim>\<open>New\<close>: a logger is its level and its writer; \<open>json\<close> is the line \<^verbatim>\<open>slog.NewJSONHandler\<close> writes for a record.
\<close>

record Logger =
  lo_level :: int
  lo_writer :: DailyWriter

definition logging_New :: "string \<Rightarrow> int \<Rightarrow> Logger" where
  "logging_New dir level = \<lparr>lo_level = level, lo_writer = NewDailyWriter dir\<rparr>"

definition Logger_Log ::
  "filepath_ops \<Rightarrow> log_env \<Rightarrow> (int \<Rightarrow> string \<Rightarrow> bytes) \<Rightarrow> nat \<Rightarrow> int \<Rightarrow> string \<Rightarrow> Logger \<Rightarrow> log_world \<Rightarrow> Logger \<times> log_world" where
  "Logger_Log fp le json date level msg lo w =
     (if level < lo_level lo then (lo, w)
      else (case DailyWriter_Write fp le date (json level msg) (lo_writer lo) w of (_, d, w1) \<Rightarrow> (lo\<lparr>lo_writer := d\<rparr>, w1)))"

text \<open>\<^verbatim>\<open>SafeError\<close>: \<^verbatim>\<open>%v\<close> prints the text of an error.\<close>

definition SafeError :: "string \<Rightarrow> goerr option \<Rightarrow> string" where
  "SafeError operation err = operation @ '': '' @ (case err of None \<Rightarrow> ''<nil>'' | Some e \<Rightarrow> err_text e)"

section \<open>autostart\_windows.go\<close>

definition runKeyPath :: string where
  "runKeyPath = strJoin [''Software'', ''Microsoft'', ''Windows'', ''CurrentVersion'', ''Run''] [bslash]"

definition valueName :: string where "valueName = ''OmniSSHAgent''"

text \<open>The \<^verbatim>\<open>Run\<close> key: absent, or its values by name.  \<open>rg_fault\<close> is an error other than absence.\<close>

type_synonym run_key = "(string \<rightharpoonup> string) option"

record registry_env =
  rg_Executable :: "string result"
  rg_open_fault :: "goerr option"
  rg_value_fault :: "goerr option"

definition quoteExecutable :: "string \<Rightarrow> string" where
  "quoteExecutable executable = [CHR 0x22] @ executable @ [CHR 0x22]"

definition commandTargetsExecutable :: "string \<Rightarrow> string \<Rightarrow> bool" where
  "commandTargetsExecutable command executable =
     (let command = TrimSpace command in
      EqualFold command executable \<or> EqualFold command (quoteExecutable executable))"

definition Enabled :: "registry_env \<Rightarrow> run_key \<Rightarrow> bool result" where
  "Enabled rg key =
     (case rg_Executable rg of
        Inl e \<Rightarrow> Inl e
      | Inr executable \<Rightarrow>
          (case rg_open_fault rg of
             Some e \<Rightarrow> Inl e
           | None \<Rightarrow>
               (case key of
                  None \<Rightarrow> Inr False
                | Some values \<Rightarrow>
                    (case rg_value_fault rg of
                       Some e \<Rightarrow> Inl e
                     | None \<Rightarrow>
                         (case values valueName of
                            None \<Rightarrow> Inr False
                          | Some command \<Rightarrow> Inr (commandTargetsExecutable command executable))))))"

definition SetEnabled :: "registry_env \<Rightarrow> bool \<Rightarrow> run_key \<Rightarrow> goerr option \<times> run_key" where
  "SetEnabled rg enabled key =
     (if \<not> enabled then
        (case rg_open_fault rg of
           Some e \<Rightarrow> (Some e, key)
         | None \<Rightarrow>
             (case key of
                None \<Rightarrow> (None, key)
              | Some values \<Rightarrow>
                  (case rg_value_fault rg of
                     Some e \<Rightarrow> (Some e, key)
                   | None \<Rightarrow> (None, Some (values(valueName := None))))))
      else
        (case rg_Executable rg of
           Inl e \<Rightarrow> (Some e, key)
         | Inr executable \<Rightarrow>
             (case rg_open_fault rg of
                Some e \<Rightarrow> (Some e, key)
              | None \<Rightarrow>
                  (let values = (case key of None \<Rightarrow> Map.empty | Some v \<Rightarrow> v) in
                   case rg_value_fault rg of
                     Some e \<Rightarrow> (Some e, Some values)
                   | None \<Rightarrow> (None, Some (values(valueName \<mapsto> quoteExecutable executable)))))))"

section \<open>mutex\_windows.go\<close>

definition ErrAlreadyRunning :: goerr where
  "ErrAlreadyRunning = ErrSentinel ''OmniSSHAgent is already running''"

text \<open>
  Named kernel mutexes: the handles open on each name, in any process.  \<^verbatim>\<open>CreateMutex\<close> of a name
  that is open gives a handle and \<^verbatim>\<open>ERROR_ALREADY_EXISTS\<close> (183).
\<close>

record kernel =
  kn_handles :: "(nat \<times> string) list"
  kn_next :: nat

record mutex_env =
  mx_utf16 :: "goerr option"
  mx_fault :: "goerr option"
  mx_last_exists :: bool

definition CloseHandle :: "nat \<Rightarrow> kernel \<Rightarrow> kernel" where
  "CloseHandle h k = k\<lparr>kn_handles := filter (\<lambda>x. fst x \<noteq> h) (kn_handles k)\<rparr>"

definition CreateMutex :: "string \<Rightarrow> kernel \<Rightarrow> nat \<times> goerr option \<times> kernel" where
  "CreateMutex name k =
     (let h = kn_next k; k1 = k\<lparr>kn_handles := (h, name) # kn_handles k, kn_next := Suc h\<rparr> in
      (h, if list_ex (\<lambda>x. snd x = name) (kn_handles k) then Some (ErrErrno 183) else None, k1))"

definition Acquire :: "mutex_env \<Rightarrow> string \<Rightarrow> kernel \<Rightarrow> nat result \<times> kernel" where
  "Acquire mx name k =
     (case mx_utf16 mx of
        Some e \<Rightarrow> (Inl e, k)
      | None \<Rightarrow>
          (case mx_fault mx of
             Some e \<Rightarrow> (Inl (ErrWrap ''create singleton mutex'' e), k)
           | None \<Rightarrow>
               (case CreateMutex name k of (h, err, k1) \<Rightarrow>
                  if is_err err (ErrErrno 183) then
                    (Inl ErrAlreadyRunning, if h \<noteq> 0 then CloseHandle h k1 else k1)
                  else
                    (case err of
                       Some e \<Rightarrow> (Inl (ErrWrap ''create singleton mutex'' e), k1)
                     | None \<Rightarrow>
                         if mx_last_exists mx then (Inl ErrAlreadyRunning, CloseHandle h k1)
                         else (Inr h, k1)))))"

definition Mutex_Close :: "nat option \<Rightarrow> kernel \<Rightarrow> kernel" where
  "Mutex_Close m k = (case m of None \<Rightarrow> k | Some h \<Rightarrow> if h = 0 then k else CloseHandle h k)"

section \<open>shutdown\_windows.go\<close>

definition ShutdownEventName :: string where
  "ShutdownEventName = ''Local'' @ [bslash] @ ''OmniSSHAgent-Shutdown''"

text \<open>Named manual-reset events: whether each exists, and if so whether it is signalled.\<close>

type_synonym events = "string \<rightharpoonup> bool"

record event_env =
  ev_utf16 :: "goerr option"
  ev_open :: "goerr option"
  ev_set :: "goerr option"

definition NewShutdownEvent :: "event_env \<Rightarrow> string \<Rightarrow> events \<Rightarrow> goerr option \<times> events" where
  "NewShutdownEvent ev name es =
     (case ev_utf16 ev of
        Some e \<Rightarrow> (Some (ErrWrap ''encode shutdown event name'' e), es)
      | None \<Rightarrow>
          (case ev_open ev of
             Some e \<Rightarrow> (Some (ErrWrap ''create shutdown event'' e), es)
           | None \<Rightarrow> (None, es(name \<mapsto> (case es name of Some b \<Rightarrow> b | None \<Rightarrow> False)))))"

definition RequestShutdown :: "event_env \<Rightarrow> string \<Rightarrow> events \<Rightarrow> bool result \<times> events" where
  "RequestShutdown ev name es =
     (case ev_utf16 ev of
        Some e \<Rightarrow> (Inl (ErrWrap ''encode shutdown event name'' e), es)
      | None \<Rightarrow>
          (case ev_open ev of
             Some e \<Rightarrow> (Inl (ErrWrap ''open shutdown event'' e), es)
           | None \<Rightarrow>
               (case es name of
                  None \<Rightarrow> (Inr False, es)
                | Some _ \<Rightarrow>
                    (case ev_set ev of
                       Some e \<Rightarrow> (Inl (ErrWrap ''signal shutdown event'' e), es)
                     | None \<Rightarrow> (Inr True, es(name \<mapsto> True))))))"

text \<open>
  \<^verbatim>\<open>Wait\<close> polls.  Each poll sees an error of \<^verbatim>\<open>WaitForSingleObject\<close>, or the event at that time, and
  then the context; a list that ends first is a wait still going on.
\<close>

record poll =
  pl_error :: "goerr option"
  pl_signalled :: bool
  pl_ctx :: "goerr option"

fun Wait :: "poll list \<Rightarrow> goerr option option" where
  "Wait [] = None"
| "Wait (x # xs) =
     (case pl_error x of
        Some e \<Rightarrow> Some (Some (ErrWrap ''wait for shutdown event'' e))
      | None \<Rightarrow>
          if pl_signalled x then Some None
          else (case pl_ctx x of Some e \<Rightarrow> Some (Some e) | None \<Rightarrow> Wait xs))"

text \<open>\<^verbatim>\<open>ShutdownEvent.Close\<close>: \<open>None\<close> is a nil event; the handle is cleared even when it could not be closed.\<close>

definition ShutdownEvent_Close :: "(u64 \<Rightarrow> goerr option) \<Rightarrow> u64 option \<Rightarrow> goerr option \<times> u64 option \<times> u64 list" where
  "ShutdownEvent_Close closeHandle e =
     (case e of
        None \<Rightarrow> (None, None, [])
      | Some h \<Rightarrow> if h = 0 then (None, e, []) else (closeHandle h, Some 0, [h]))"

section \<open>open\_windows.go\<close>

record shell_env =
  sh_utf16 :: "string \<Rightarrow> goerr option"
  sh_ShellExecute :: "string \<Rightarrow> nat"
  sh_start :: "string \<Rightarrow> string \<Rightarrow> goerr option"
  sh_systemroot :: string

definition open_Path :: "shell_env \<Rightarrow> string \<Rightarrow> goerr option" where
  "open_Path sh path =
     (case sh_utf16 sh path of
        Some e \<Rightarrow> Some e
      | None \<Rightarrow>
          if sh_ShellExecute sh path \<le> 32 then
            Some (ErrNew (''ShellExecuteW failed with code '' @ nat_digits (sh_ShellExecute sh path)))
          else None)"

definition open_Configuration :: "filepath_ops \<Rightarrow> shell_env \<Rightarrow> string \<Rightarrow> goerr option" where
  "open_Configuration fp sh path =
     (if open_Path sh path = None then None
      else
        (case sh_start sh (fp_Join fp [sh_systemroot sh, ''System32'', ''notepad.exe'']) path of
           Some e \<Rightarrow> Some (ErrWrap ''open configuration'' e)
         | None \<Rightarrow> None))"

section \<open>cli.go\<close>

definition ExitOK :: int where "ExitOK = 0"
definition ExitInternal :: int where "ExitInternal = 1"
definition ExitUsage :: int where "ExitUsage = 2"
definition ExitConfiguration :: int where "ExitConfiguration = 3"
definition ExitAlreadyRunning :: int where "ExitAlreadyRunning = 4"
definition ExitWindows :: int where "ExitWindows = 7"

record Result =
  rs_StartApplication :: bool
  rs_Code :: int

text \<open>\<^verbatim>\<open>FlagSet.Parse\<close> for a set with the one string flag \<^verbatim>\<open>config\<close>.\<close>

definition split_value :: "string \<Rightarrow> string \<times> string option" where
  "split_value name =
     (let r = takeWhile (\<lambda>c. c \<noteq> CHR ''='') (tl name) in
      if length r = length (tl name) then (name, None)
      else (hd name # r, Some (drop (length r + 2) name)))"

function parse_flags :: "string list \<Rightarrow> string \<Rightarrow> (string \<times> string list) option" where
  "parse_flags [] path = Some (path, [])"
| "parse_flags (s # rest) path =
     (if length s < 2 \<or> hd s \<noteq> CHR ''-'' then Some (path, s # rest)
      else if s = ''--'' then Some (path, rest)
      else
        (let name = (if s ! 1 = CHR ''-'' then drop 2 s else drop 1 s) in
         if hd name = CHR ''-'' \<or> hd name = CHR ''='' then None
         else
           (case split_value name of (key, val) \<Rightarrow>
              if key \<noteq> ''config'' then None
              else
                (case val of
                   Some v \<Rightarrow> parse_flags rest v
                 | None \<Rightarrow> (case rest of [] \<Rightarrow> None | v # rest' \<Rightarrow> parse_flags rest' v)))))"
  by pat_completeness auto
termination by (relation "measure (\<lambda>(args, _). length args)") auto

record cli_env =
  cl_fp :: filepath_ops
  cl_durations :: "string \<Rightarrow> int option"
  cl_os :: os_env
  cl_toml :: toml_ops
  cl_getenv :: "string \<Rightarrow> string"
  cl_version :: string

definition usage :: Result where "usage = \<lparr>rs_StartApplication = False, rs_Code = ExitUsage\<rparr>"
definition finished :: "int \<Rightarrow> Result" where "finished c = \<lparr>rs_StartApplication = False, rs_Code = c\<rparr>"

text \<open>
  \<^verbatim>\<open>Run\<close>: the result, and what was printed on each stream (for the version, the build's text; the
  flag package prints its own messages).
\<close>

definition cli_Run :: "cli_env \<Rightarrow> string list \<Rightarrow> world \<Rightarrow> Result \<times> string list \<times> string list \<times> world" where
  "cli_Run ce args w =
     (case args of
        [] \<Rightarrow> (\<lparr>rs_StartApplication = True, rs_Code = 0\<rparr>, [], [], w)
      | cmd # rest \<Rightarrow>
          if cmd = ''--version'' \<or> cmd = ''version'' then
            (if rest \<noteq> [] then (usage, [], [''version accepts no arguments''], w)
             else (finished 0, [cl_version ce], [], w))
          else if cmd = ''config-path'' then
            (if rest \<noteq> [] then (usage, [], [''config-path accepts no arguments''], w)
             else
               (case DefaultConfigPath (cl_fp ce) (cl_getenv ce) of
                  Inl e \<Rightarrow> (finished ExitInternal, [], [err_text e], w)
                | Inr path \<Rightarrow> (finished 0, [path], [], w)))
          else if cmd = ''check-config'' then
            (case DefaultConfigPath (cl_fp ce) (cl_getenv ce) of
               Inl e \<Rightarrow> (finished ExitInternal, [], [err_text e], w)
             | Inr defaultPath \<Rightarrow>
                 (case parse_flags rest defaultPath of
                    None \<Rightarrow> (usage, [], [], w)
                  | Some (path, extra) \<Rightarrow>
                      if extra \<noteq> [] then (usage, [], [''unexpected arguments''], w)
                      else
                        (case LoadRuntime (cl_fp ce) (cl_durations ce) (cl_os ce) (cl_toml ce) (cl_getenv ce) path w of
                           (Inl e, w1) \<Rightarrow> (finished ExitConfiguration, [], [err_text e], w1)
                         | (Inr _, w1) \<Rightarrow> (finished 0, [''configuration is valid: '' @ path], [], w1))))
          else (usage, [], [''unknown command: '' @ cmd], w))"

section \<open>Logging\<close>

text \<open>
  A writer is sound at a date when its handle is open, or belongs to an earlier date: the second is
  what a failed rollover leaves behind.
\<close>

definition writer_ok :: "filepath_ops \<Rightarrow> nat \<Rightarrow> DailyWriter \<Rightarrow> bool" where
  "writer_ok fp date d \<longleftrightarrow>
     (case dw_file d of
        None \<Rightarrow> True
      | Some (path, closed) \<Rightarrow>
          dw_date d \<le> date \<and> (closed \<longrightarrow> dw_date d < date) \<and> path = log_path fp (dw_dir d) (dw_date d))"

text \<open>A write landed in the file of its date, or on the fallback stream, and nowhere else.\<close>

definition landed :: "filepath_ops \<Rightarrow> string \<Rightarrow> nat \<Rightarrow> bytes \<Rightarrow> log_world \<Rightarrow> log_world \<Rightarrow> bool" where
  "landed fp dir date p w w' \<longleftrightarrow>
     (lw_fallback w' = lw_fallback w \<and>
        lw_files w' = (lw_files w)(log_path fp dir date := lw_files w (log_path fp dir date) @ p)) \<or>
     (lw_fallback w' = lw_fallback w @ p \<and> lw_files w' = lw_files w)"

fun landed_all :: "filepath_ops \<Rightarrow> string \<Rightarrow> (nat \<times> bytes) list \<Rightarrow> log_world \<Rightarrow> log_world \<Rightarrow> bool" where
  "landed_all fp dir [] w w' \<longleftrightarrow> lw_files w' = lw_files w \<and> lw_fallback w' = lw_fallback w"
| "landed_all fp dir ((date, p) # xs) w w' \<longleftrightarrow>
     (\<exists>w1. landed fp dir date p w w1 \<and> landed_all fp dir xs w1 w')"

definition disk_ok :: "log_env \<Rightarrow> bool" where
  "disk_ok le \<longleftrightarrow> (\<forall>k. lg_write le k = None)"

lemma tick_simps [simp]: "lw_files (tick w) = lw_files w" "lw_fallback (tick w) = lw_fallback w"
  by (simp_all add: tick_def)

lemma DailyWriter_Write_step:
  assumes "writer_ok fp date d" "disk_ok le" "DailyWriter_Write fp le date p d w = (r, d', w')"
  shows "r = None \<and> landed fp (dw_dir d) date p w w' \<and> dw_dir d' = dw_dir d \<and>
    (\<forall>later. date \<le> later \<longrightarrow> writer_ok fp later d')"
proof (cases "dw_file d = None \<or> date \<noteq> dw_date d")
  case True
  have old: "writer_ok fp later (d\<lparr>dw_file := map_option (\<lambda>f. (fst f, True)) (dw_file d)\<rparr>)" if "date \<le> later" for later
    using assms(1) True that by (auto simp: writer_ok_def split: option.splits)
  show ?thesis
  proof (cases "lg_mkdir le (lw_calls w) \<noteq> None \<or> lg_open le (lw_calls (tick w)) \<noteq> None")
    case failed: True
    then show ?thesis using True assms(3) old
      by (auto simp: DailyWriter_Write_def Let_def landed_def write_fallback_def split: if_splits)
  next
    case False
    have "r = None" "d' = d\<lparr>dw_file := Some (log_path fp (dw_dir d) date, False), dw_date := date\<rparr>"
      "w' = (tick (tick (tick w)))\<lparr>lw_files := (lw_files w)
         (log_path fp (dw_dir d) date := lw_files w (log_path fp (dw_dir d) date) @ p)\<rparr>"
      using True False assms(2,3)
      by (auto simp: DailyWriter_Write_def Let_def file_Write_def disk_ok_def)
    then show ?thesis by (simp add: landed_def writer_ok_def)
  qed
next
  case False
  then obtain path closed where f: "dw_file d = Some (path, closed)" by auto
  with False assms(1) have "\<not> closed" "path = log_path fp (dw_dir d) date" by (auto simp: writer_ok_def)
  then have "r = None" "d' = d"
    "w' = (tick w)\<lparr>lw_files := (lw_files w)(path := lw_files w path @ p)\<rparr>"
    using False f assms(2,3) by (auto simp: DailyWriter_Write_def file_Write_def disk_ok_def)
  then show ?thesis using f False \<open>path = _\<close> \<open>\<not> closed\<close> by (auto simp: landed_def writer_ok_def)
qed

lemma write_all_landed:
  "writer_ok fp (case xs of [] \<Rightarrow> 0 | x # _ \<Rightarrow> fst x) d \<or> xs = [] \<Longrightarrow> sorted (map fst xs) \<Longrightarrow> disk_ok le \<Longrightarrow>
    write_all fp le xs d w = (rs, d', w') \<Longrightarrow>
    rs = replicate (length xs) None \<and> landed_all fp (dw_dir d) xs w w'"
proof (induction xs arbitrary: d w rs)
  case Nil
  then show ?case by simp
next
  case (Cons x xs)
  obtain date p where x: "x = (date, p)" by fastforce
  obtain r d1 w1 where s: "DailyWriter_Write fp le date p d w = (r, d1, w1)" by (metis prod_cases3)
  obtain rs1 where rest: "write_all fp le xs d1 w1 = (rs1, d', w')" "rs = r # rs1"
    using Cons.prems(4) by (auto simp: x s split: prod.splits)
  have step: "r = None \<and> landed fp (dw_dir d) date p w w1 \<and> dw_dir d1 = dw_dir d \<and>
      (\<forall>later. date \<le> later \<longrightarrow> writer_ok fp later d1)"
    using DailyWriter_Write_step [OF _ Cons.prems(3) s] Cons.prems(1) by (simp add: x)
  then have "writer_ok fp (case xs of [] \<Rightarrow> 0 | y # _ \<Rightarrow> fst y) d1 \<or> xs = []"
    using Cons.prems(2) x by (cases xs) auto
  then have "rs1 = replicate (length xs) None \<and> landed_all fp (dw_dir d1) xs w1 w'"
    using Cons.IH [OF _ _ Cons.prems(3) rest(1)] Cons.prems(2) by simp
  then show ?case using step rest(2) x by auto
qed

text \<open>A logger writes exactly the records at or above its level, in order.\<close>

fun log_all ::
  "filepath_ops \<Rightarrow> log_env \<Rightarrow> (int \<Rightarrow> string \<Rightarrow> bytes) \<Rightarrow> (nat \<times> int \<times> string) list \<Rightarrow> Logger \<Rightarrow> log_world \<Rightarrow> Logger \<times> log_world"
where
  "log_all fp le json [] lo w = (lo, w)"
| "log_all fp le json ((date, level, msg) # xs) lo w =
     (case Logger_Log fp le json date level msg lo w of (lo1, w1) \<Rightarrow> log_all fp le json xs lo1 w1)"

lemma log_all_filter:
  "log_all fp le json xs lo w =
    (case write_all fp le (map (\<lambda>(date, level, msg). (date, json level msg)) (filter (\<lambda>x. lo_level lo \<le> fst (snd x)) xs))
       (lo_writer lo) w of (rs, d, w') \<Rightarrow> (lo\<lparr>lo_writer := d\<rparr>, w'))"
proof (induction xs arbitrary: lo w)
  case (Cons x xs)
  obtain date level msg where x: "x = (date, level, msg)" by (cases x)
  show ?case
    by (cases "level < lo_level lo") (auto simp: x Logger_Log_def Cons.IH split: prod.splits)
qed simp

lemma logger_keeps_records:
  assumes "sorted (map fst xs)" and "disk_ok le" and "log_all fp le json xs (logging_New dir level) w = (lo, w')"
  shows "landed_all fp dir (map (\<lambda>(date, l, m). (date, json l m)) (filter (\<lambda>x. level \<le> fst (snd x)) xs)) w w'"
proof -
  let ?ys = "map (\<lambda>(date, l, m). (date, json l m)) (filter (\<lambda>x. level \<le> fst (snd x)) xs)"
  obtain rs d w1 where r: "write_all fp le ?ys (NewDailyWriter dir) w = (rs, d, w1)" by (metis prod_cases3)
  have "fst \<circ> (\<lambda>(date, l, m). (date, json l m)) = fst" by auto
  then have "map fst ?ys = map fst (filter (\<lambda>x. level \<le> fst (snd x)) xs)" by simp
  moreover have "sorted (map fst (filter (\<lambda>x. level \<le> fst (snd x)) xs))" using assms(1) by (rule sorted_filter)
  ultimately have "sorted (map fst ?ys)" by metis
  from write_all_landed [of fp ?ys "NewDailyWriter dir" le w rs d w1, OF _ this assms(2) r] show ?thesis
    using assms(3) r by (simp add: log_all_filter logging_New_def NewDailyWriter_def writer_ok_def)
qed

lemma ShutdownEvent_Close_twice:
  assumes "ShutdownEvent_Close ch e = (r, e1, hs)" and "ShutdownEvent_Close ch e1 = (r2, e2, hs2)"
  shows "r2 = None \<and> hs2 = [] \<and> e2 = e1 \<and> (e = Some h \<and> h \<noteq> 0 \<longrightarrow> hs = [h] \<and> r = ch h)"
  using assms by (auto simp: ShutdownEvent_Close_def split: option.splits if_splits)

section \<open>Sign-in registration\<close>

lemma TrimSpace_quote [simp]: "TrimSpace (quoteExecutable e) = quoteExecutable e"
  by (rule TrimSpace_id) (auto simp: quoteExecutable_def isSpace_def char_code_def)

lemma targets_quoted [simp]: "commandTargetsExecutable (quoteExecutable e) e"
  by (simp add: commandTargetsExecutable_def)

section \<open>The single instance\<close>

datatype mutex_op = OpAcquire mutex_env string | OpClose nat

fun mutex_step :: "mutex_op \<Rightarrow> kernel \<Rightarrow> kernel" where
  "mutex_step (OpAcquire mx name) k = snd (Acquire mx name k)"
| "mutex_step (OpClose h) k = Mutex_Close (Some h) k"

definition holders :: "string \<Rightarrow> kernel \<Rightarrow> nat list" where
  "holders name k = map fst (filter (\<lambda>x. snd x = name) (kn_handles k))"

definition kernel_ok :: "kernel \<Rightarrow> bool" where
  "kernel_ok k \<longleftrightarrow> 0 < kn_next k \<and> list_all (\<lambda>x. fst x < kn_next k) (kn_handles k) \<and>
     (\<forall>name. length (holders name k) \<le> 1)"

lemma holders_Close: "length (holders name (CloseHandle h k)) \<le> length (holders name k)"
proof -
  have "length (filter P (filter Q xs)) \<le> length (filter P xs)" for P Q and xs :: "(nat \<times> string) list"
    by (induction xs) auto
  then show ?thesis by (simp add: holders_def CloseHandle_def del: filter_filter)
qed

lemma kernel_ok_Close: "kernel_ok k \<Longrightarrow> kernel_ok (CloseHandle h k)"
proof -
  assume ok: "kernel_ok k"
  then have "length (holders name (CloseHandle h k)) \<le> 1" for name
    using ok order_trans [OF holders_Close [of name h k]] by (simp add: kernel_ok_def)
  then show ?thesis using ok by (auto simp: kernel_ok_def list_all_iff CloseHandle_def)
qed

lemma exists_iff_holders: "list_ex (\<lambda>x. snd x = name) (kn_handles k) \<longleftrightarrow> holders name k \<noteq> []"
  by (auto simp: list_ex_iff holders_def filter_empty_conv)

text \<open>A failed \<^verbatim>\<open>Acquire\<close> leaves the handles as they were; a successful one is the first on its name.\<close>

lemma Acquire_cases:
  assumes "kernel_ok k"
  obtains (failed) e where "fst (Acquire mx name k) = Inl e" "kn_handles (snd (Acquire mx name k)) = kn_handles k"
      "kn_next k \<le> kn_next (snd (Acquire mx name k))"
  | (got) "Acquire mx name k = (Inr (kn_next k), k\<lparr>kn_handles := (kn_next k, name) # kn_handles k, kn_next := Suc (kn_next k)\<rparr>)"
      "holders name k = []"
proof -
  have drop: "filter (\<lambda>x. fst x \<noteq> kn_next k) (kn_handles k) = kn_handles k"
    using assms by (auto simp: kernel_ok_def list_all_iff filter_id_conv)
  have pos: "0 < kn_next k" using assms by (simp add: kernel_ok_def)
  show thesis
  proof (cases "mx_utf16 mx = None \<and> mx_fault mx = None \<and> holders name k = [] \<and> \<not> mx_last_exists mx")
    case True
    then have "\<not> list_ex (\<lambda>x. snd x = name) (kn_handles k)" by (simp add: exists_iff_holders)
    then have "Acquire mx name k = (Inr (kn_next k), k\<lparr>kn_handles := (kn_next k, name) # kn_handles k, kn_next := Suc (kn_next k)\<rparr>)"
      using True by (simp add: Acquire_def CreateMutex_def Let_def)
    then show ?thesis using True got by blast
  next
    case False
    then have "\<exists>e. fst (Acquire mx name k) = Inl e \<and> kn_handles (snd (Acquire mx name k)) = kn_handles k \<and>
        kn_next k \<le> kn_next (snd (Acquire mx name k))"
      using drop pos
      by (auto simp: Acquire_def CreateMutex_def CloseHandle_def Let_def exists_iff_holders split: option.splits)
    then show ?thesis using failed by blast
  qed
qed

lemma kernel_ok_step: "kernel_ok k \<Longrightarrow> kernel_ok (mutex_step op k)"
proof (cases op)
  case (OpAcquire mx name)
  assume ok: "kernel_ok k"
  then show ?thesis
  proof (cases rule: Acquire_cases [of k mx name])
    case (failed e)
    then show ?thesis using ok OpAcquire
      by (auto simp: kernel_ok_def holders_def list_all_iff intro: less_le_trans)
  next
    case got
    have "length (holders n (snd (Acquire mx name k))) \<le> 1" for n
      using ok got by (cases "n = name") (auto simp: holders_def kernel_ok_def)
    then show ?thesis using ok OpAcquire got by (auto simp: kernel_ok_def list_all_iff less_SucI)
  qed
next
  case (OpClose h)
  assume "kernel_ok k"
  then show ?thesis using OpClose kernel_ok_Close by (simp add: Mutex_Close_def)
qed

definition boot :: kernel where "boot = \<lparr>kn_handles = [], kn_next = 1\<rparr>"

lemma kernel_ok_run: "kernel_ok (fold mutex_step ops boot)"
proof -
  have "kernel_ok k \<Longrightarrow> kernel_ok (fold mutex_step ops k)" for k
    by (induction ops arbitrary: k) (auto intro: kernel_ok_step)
  then show ?thesis by (simp add: kernel_ok_def boot_def holders_def)
qed

section \<open>Properties\<close>

text \<open>(log_never_lost). With a clock that does not run backwards and a disk that accepts writes to
  open files, no log line is lost whatever directories or files cannot be created: every write of
  any sequence succeeds and its bytes end in the file of its date or on the fallback stream, in
  order, also across midnight and after failed rollovers.\<close>

theorem log_never_lost:
  assumes "sorted (map fst xs)" and "disk_ok le"
    and "write_all fp le xs (NewDailyWriter dir) w = (rs, d', w')"
  shows "rs = replicate (length xs) None \<and> landed_all fp dir xs w w'"
  using write_all_landed [of fp xs "NewDailyWriter dir" le w rs d' w'] assms
  by (simp add: NewDailyWriter_def writer_ok_def)

text \<open>A disk on which the log directory cannot be created the first time.\<close>

definition flaky_log :: log_env where
  "flaky_log = \<lparr>lg_mkdir = (\<lambda>k. if k = 0 then Some (ErrErrno 5) else None), lg_open = (\<lambda>_. None), lg_write = (\<lambda>_. None)\<rparr>"

definition empty_log :: log_world where
  "empty_log = \<lparr>lw_files = (\<lambda>_. []), lw_fallback = [], lw_calls = 0\<rparr>"

theorem log_never_lost_witness:
  "\<exists>rs d' w'. write_all sample_fp flaky_log [(20240101, [1]), (20240101, [2]), (20240102, [3])] (NewDailyWriter ''logs'') empty_log
      = (rs, d', w') \<and> rs = [None, None, None] \<and>
    landed_all sample_fp ''logs'' [(20240101, [1]), (20240101, [2]), (20240102, [3])] empty_log w'"
proof -
  let ?xs = "[(20240101, [1]), (20240101, [2]), (20240102, [3 :: byte])]"
  obtain rs d' w' where r: "write_all sample_fp flaky_log ?xs (NewDailyWriter ''logs'') empty_log = (rs, d', w')"
    by (metis prod_cases3)
  have s: "sorted (map fst (?xs :: (nat \<times> bytes) list))" by simp
  have d: "disk_ok flaky_log" by (simp add: disk_ok_def flaky_log_def)
  from log_never_lost [OF s d r] r show ?thesis by (auto simp: numeral_3_eq_3)
qed

text \<open>(autostart_roundtrip). After \<^verbatim>\<open>SetEnabled\<close> returns nil, \<^verbatim>\<open>Enabled\<close> answers exactly what was
  set, whatever the key held before and whether or not it existed, and no other value of the key has
  changed; when \<^verbatim>\<open>SetEnabled\<close> fails, no value has changed.\<close>

theorem autostart_roundtrip:
  assumes "SetEnabled rg enabled key = (r, key')" and "rg_Executable rg = Inr exe"
  shows "(r = None \<longrightarrow> Enabled rg key' = Inr enabled) \<and>
    (\<forall>v. v \<noteq> valueName \<longrightarrow> (case key' of None \<Rightarrow> None | Some m \<Rightarrow> m v) = (case key of None \<Rightarrow> None | Some m \<Rightarrow> m v)) \<and>
    (r \<noteq> None \<longrightarrow> (case key' of None \<Rightarrow> None | Some m \<Rightarrow> m valueName) = (case key of None \<Rightarrow> None | Some m \<Rightarrow> m valueName))"
  using assms
  by (cases enabled; auto simp: SetEnabled_def Enabled_def Let_def split: option.splits; metis)

theorem autostart_roundtrip_witness:
  "Enabled \<lparr>rg_Executable = Inr ''a.exe'', rg_open_fault = None, rg_value_fault = None\<rparr>
     (snd (SetEnabled \<lparr>rg_Executable = Inr ''a.exe'', rg_open_fault = None, rg_value_fault = None\<rparr> True None)) = Inr True"
proof -
  let ?rg = "\<lparr>rg_Executable = Inr ''a.exe'', rg_open_fault = None, rg_value_fault = None\<rparr>"
  obtain r key' where s: "SetEnabled ?rg True None = (r, key')" by fastforce
  have "r = None" using s by (auto simp: SetEnabled_def Let_def)
  then show ?thesis using autostart_roundtrip [OF s] s by simp
qed

text \<open>C19 (single_instance). Whatever processes acquire and close the named mutex, in whatever order and
  with whatever failures, at most one of them holds it; and \<^verbatim>\<open>Acquire\<close> succeeds only when nobody does,
  while a refused \<^verbatim>\<open>Acquire\<close> leaks no handle.\<close>

theorem single_instance:
  "length (holders name (fold mutex_step ops boot)) \<le> 1 \<and>
   (case Acquire mx name (fold mutex_step ops boot) of
      (Inr h, k') \<Rightarrow> holders name (fold mutex_step ops boot) = [] \<and> holders name k' = [h]
    | (Inl e, k') \<Rightarrow> kn_handles k' = kn_handles (fold mutex_step ops boot))"
proof -
  let ?k = "fold mutex_step ops boot"
  have ok: "kernel_ok ?k" by (rule kernel_ok_run)
  then have one: "length (holders name ?k) \<le> 1" by (simp add: kernel_ok_def)
  from ok show ?thesis
  proof (cases rule: Acquire_cases [of ?k mx name])
    case (failed e)
    then show ?thesis using one by (cases "Acquire mx name ?k") simp
  next
    case got
    then show ?thesis using one by (simp add: holders_def)
  qed
qed

text \<open>(check_config_exact). \<^verbatim>\<open>check-config --config path\<close> exits with 0 exactly when the file reads and
  decodes to a configuration that meets the documented rules, and with the configuration exit code
  otherwise; no command changes a file, and only an empty command line starts the application.\<close>

theorem check_config_exact:
  assumes "reads_ok (cl_os ce) path" and "cl_getenv ce ''APPDATA'' \<noteq> ''''" and "cl_getenv ce ''LOCALAPPDATA'' \<noteq> ''''"
    and "cli_Run ce [''check-config'', ''--config'', path] w = (r, out, err, w')"
  shows "w_files w' = w_files w \<and> \<not> rs_StartApplication r \<and>
    rs_Code r = (if \<exists>n cfg. w_files w path = Some n \<and> toml_Decode (cl_toml ce) (f_data n) = Inr cfg \<and>
                     valid_config (cl_fp ce) (cl_durations ce) cfg (cl_getenv ce ''USERPROFILE'')
                 then ExitOK else ExitConfiguration)"
proof -
  let ?up = "cl_getenv ce ''USERPROFILE''"
  obtain dp where dp: "DefaultConfigPath (cl_fp ce) (cl_getenv ce) = Inr dp"
    using assms(2) by (simp add: DefaultConfigPath_def UserConfigDir_def)
  obtain ld where ld: "DefaultLogDirectory (cl_fp ce) (cl_getenv ce) = Inr ld"
    using assms(3) by (simp add: DefaultLogDirectory_def Let_def)
  have flags: "parse_flags [''--config'', path] dp = Some (path, [])" by (simp add: split_value_def Let_def)
  obtain l w1 where l: "Load (cl_os ce) (cl_toml ce) path w = (l, w1)" by fastforce
  have files: "w_files w1 = w_files w" using Load_files [of "cl_os ce" "cl_toml ce" path w] l by simp
  have res: "l = (case w_files w path of None \<Rightarrow> Inl (ErrWrap ''open configuration'' ErrNotExist)
      | Some n \<Rightarrow> Decode (cl_toml ce) (Inr (f_data n)))"
    using Load_reads [OF assms(1), of "cl_toml ce" w] l by simp
  let ?ok = "\<exists>cfg. l = Inr cfg \<and> valid_config (cl_fp ce) (cl_durations ce) cfg ?up"
  have "?ok \<longleftrightarrow> (\<exists>n cfg. w_files w path = Some n \<and> toml_Decode (cl_toml ce) (f_data n) = Inr cfg \<and>
      valid_config (cl_fp ce) (cl_durations ce) cfg ?up)"
    by (auto simp: res Decode_def split: option.splits sum.splits)
  moreover have "w_files w' = w_files w \<and> \<not> rs_StartApplication r \<and> rs_Code r = (if ?ok then ExitOK else ExitConfiguration)"
  proof (cases l)
    case (Inl e)
    then show ?thesis using assms(4) files
      by (auto simp: cli_Run_def dp flags LoadRuntime_def ld l finished_def simp del: parse_flags.simps)
  next
    case (Inr cfg)
    then show ?thesis
      using assms(4) files Validate_accepts_iff [of "cl_fp ce" "cl_durations ce" cfg path ld ?up]
      by (auto simp: cli_Run_def dp flags LoadRuntime_def ld l finished_def ExitOK_def
          simp del: parse_flags.simps split: sum.splits)
  qed
  ultimately show ?thesis by simp
qed

definition sample_cli :: cli_env where
  "sample_cli =
     \<lparr>cl_fp = sample_fp, cl_durations = sample_durations, cl_os = quiet_env, cl_toml = sample_toml,
      cl_getenv = (\<lambda>_. ''C:''), cl_version = ''dev''\<rparr>"

theorem check_config_exact_witness:
  "\<exists>r out err w'. cli_Run sample_cli [''check-config'', ''--config'', ''missing''] sample_world = (r, out, err, w') \<and>
    rs_Code r = ExitConfiguration \<and> w_files w' = w_files sample_world"
proof -
  obtain r out err w' where c: "cli_Run sample_cli [''check-config'', ''--config'', ''missing''] sample_world = (r, out, err, w')"
    by (metis prod_cases4)
  have q: "reads_ok (cl_os sample_cli) ''missing''" by (simp add: sample_cli_def quiet_reads_ok)
  have e: "cl_getenv sample_cli ''APPDATA'' \<noteq> ''''" "cl_getenv sample_cli ''LOCALAPPDATA'' \<noteq> ''''"
    by (simp_all add: sample_cli_def)
  have "w_files sample_world ''missing'' = None" by (simp add: sample_world_def sample_path_def)
  with check_config_exact [OF q e c] c show ?thesis by simp
qed

end
