(* ===== verification/Pageant.thy ===== *)
theory Pageant
  imports Component
begin

text \<open>
  The Pageant interface (src/internal/interfaces/pageant/pageant\_windows.go): a hidden window
  that answers \<^verbatim>\<open>WM_COPYDATA\<close> requests through a named shared-memory section.

  The Windows API is the record \<open>pageant_env\<close>: what each call returns.  The state of the process is
  \<open>pworld\<close>: the active component, the bytes behind each mapped view, the agent behind the
  interface, the log, and every handle, view and window opened and closed, in order.  \<^verbatim>\<open>int\<close> is
  64 bits wide, as on the amd64 and arm64 targets the program is built for.
\<close>

section \<open>Constants and types\<close>

definition ClassName :: string where "ClassName = ''Pageant''"
definition copyDataID :: u64 where "copyDataID = 0x804e50ba"
definition MaxMessageLen :: int where "MaxMessageLen = 256 * 1024"
definition wmCopyData :: u32 where "wmCopyData = 0x4A"
definition wmDestroy :: u32 where "wmDestroy = 0x2"
definition wmQuit :: u32 where "wmQuit = 0x12"

record copyDataStruct =
  cd_Data :: u64
  cd_Size :: u32
  cd_Pointer :: u64

record message =
  msg_Window :: u64
  msg_Message :: u32
  msg_WParam :: u64
  msg_LParam :: u64

record PageantComponent =
  pg_logger :: bool

datatype pageant_event =
    EvOpenFileMapping u64
  | EvCloseHandle u64
  | EvMapView u64
  | EvUnmapView u64
  | EvCreateWindow u64
  | EvDestroyWindow u64

record 's pworld =
  pw_active :: "PageantComponent option"
  pw_region :: "u64 \<Rightarrow> bytes"
  pw_agent :: 's
  pw_events :: "pageant_event list"
  pw_log :: "string list"

record 's pageant_env =
  pe_memory :: "u64 \<Rightarrow> byte"
  pe_UTF16PtrFromString :: "string \<Rightarrow> goerr option"
  pe_OpenFileMapping :: "string \<Rightarrow> u64 \<times> goerr option"
  pe_MapViewOfFile :: "u64 \<Rightarrow> u64 \<times> goerr option"
  pe_VirtualQuery :: "u64 \<Rightarrow> goerr option"
  pe_ServeAgent :: "'s serve_agent"
  pe_DefWindowProc :: "message \<Rightarrow> u64"

section \<open>Memory\<close>

definition memoryAt :: "(u64 \<Rightarrow> byte) \<Rightarrow> u64 \<Rightarrow> nat \<Rightarrow> bytes" where
  "memoryAt mem address sz = map (\<lambda>i. mem (address + of_nat i)) [0..<sz]"

definition le_word :: "bytes \<Rightarrow> 'a::len word" where
  "le_word bs = foldr (\<lambda>b acc. ucast b OR push_bit 8 acc) bs 0"

text \<open>
  \<^verbatim>\<open>(*copyDataStruct)(unsafe.Pointer(&raw[0]))\<close>: the 24 bytes of the structure, with four bytes
  of padding before the pointer.
\<close>

definition copyData_at :: "(u64 \<Rightarrow> byte) \<Rightarrow> u64 \<Rightarrow> copyDataStruct" where
  "copyData_at mem lParam =
     (let raw = memoryAt mem lParam 24 in
      \<lparr>cd_Data = le_word (take 8 raw),
       cd_Size = le_word (take 4 (drop 8 raw)),
       cd_Pointer = le_word (take 8 (drop 16 raw))\<rparr>)"

definition pg_emit :: "pageant_event \<Rightarrow> 's pworld \<Rightarrow> 's pworld" where
  "pg_emit e w = w\<lparr>pw_events := pw_events w @ [e]\<rparr>"

definition windowsError :: "goerr option \<Rightarrow> goerr" where
  "windowsError err =
     (case err of
        None \<Rightarrow> ErrNew ''Windows API call failed''
      | Some e \<Rightarrow> if errors_Is e (ErrErrno 0) then ErrNew ''Windows API call failed'' else e)"

section \<open>One request\<close>

definition failure_reply :: bytes where "failure_reply = [0, 0, 0, 1, 5]"

text \<open>\<^verbatim>\<open>handle\<close> from \<^verbatim>\<open>VirtualQuery\<close> on, with the view at \<open>address\<close> mapped.\<close>

definition handle_view ::
  "'s pageant_env \<Rightarrow> u64 \<Rightarrow> 's pworld \<Rightarrow> goerr option outcome \<times> 's pworld" where
  "handle_view env address w =
     (case pe_VirtualQuery env address of
        Some e \<Rightarrow> (Returned (Some (ErrWrap ''VirtualQuery'' e)), w)
      | None \<Rightarrow>
          (let mapped = pw_region w address; mappedSize = int (length mapped) in
           if length mapped < 4 then (Returned (Some (ErrNew ''shared memory mapping is too small'')), w)
           else
             (case be_get32 (take 4 mapped) of
                None \<Rightarrow> (Panicked ''index out of range'', w)
              | Some n \<Rightarrow>
                  (let len = uint n in
                   if len \<le> 0 \<or> len > MaxMessageLen \<or> len + 4 > mappedSize then
                     (Returned (Some (ErrNew (''invalid SSH agent message length '' @ Itoa len))), w)
                   else
                     (let request = take (nat (len + 4)) mapped in
                      case pe_ServeAgent env (pw_agent w) request of
                        (ServePanic m, s) \<Rightarrow> (Panicked m, w\<lparr>pw_agent := s\<rparr>)
                      | (Served err out, s) \<Rightarrow>
                          (let response = (if serve_failed err then failure_reply else out);
                               w1 = w\<lparr>pw_agent := s\<rparr> in
                           if length response < 5 \<or> length response > length mapped then
                             (Returned (Some (ErrNew ''invalid SSH agent response length'')), w1)
                           else
                             (Returned None,
                              w1\<lparr>pw_region := (pw_region w1)(address := response @ drop (length response) mapped)\<rparr>)))))))"

text \<open>\<^verbatim>\<open>handle\<close> from \<^verbatim>\<open>MapViewOfFile\<close> on; the deferred unmap runs on every path, panics included.\<close>

definition handle_mapping ::
  "'s pageant_env \<Rightarrow> u64 \<Rightarrow> 's pworld \<Rightarrow> goerr option outcome \<times> 's pworld" where
  "handle_mapping env h w =
     (case pe_MapViewOfFile env h of (address, callErr) \<Rightarrow>
        if address = 0 then (Returned (Some (ErrWrap ''MapViewOfFile'' (windowsError callErr))), w)
        else
          (case handle_view env address (pg_emit (EvMapView address) w) of
             (r, w1) \<Rightarrow> (r, pg_emit (EvUnmapView address) w1)))"

definition handle ::
  "'s pageant_env \<Rightarrow> copyDataStruct option \<Rightarrow> 's pworld \<Rightarrow> goerr option outcome \<times> 's pworld" where
  "handle env data w =
     (case data of
        None \<Rightarrow> (Returned (Some (ErrNew ''invalid WM_COPYDATA identifier'')), w)
      | Some d \<Rightarrow>
          if cd_Data d \<noteq> copyDataID then (Returned (Some (ErrNew ''invalid WM_COPYDATA identifier'')), w)
          else if cd_Size d < 2 \<or> cd_Size d > 260 \<or> cd_Pointer d = 0 then
            (Returned (Some (ErrNew ''invalid shared memory name'')), w)
          else
            (let nameBytes = memoryAt (pe_memory env) (cd_Pointer d) (unat (cd_Size d)) in
             if nameBytes ! (length nameBytes - 1) \<noteq> 0 then
               (Returned (Some (ErrNew ''shared memory name is not terminated'')), w)
             else
               (let name = string_of (take (length nameBytes - 1) nameBytes) in
                if \<not> HasPrefix name ''PageantRequest'' then
                  (Returned (Some (ErrNew ''unexpected shared memory name'')), w)
                else
                  (case pe_UTF16PtrFromString env name of
                     Some e \<Rightarrow> (Returned (Some e), w)
                   | None \<Rightarrow>
                       (case pe_OpenFileMapping env name of (h, callErr) \<Rightarrow>
                          if h = 0 then
                            (Returned (Some (ErrWrap ''OpenFileMappingW'' (windowsError callErr))), w)
                          else
                            (case handle_mapping env h (pg_emit (EvOpenFileMapping h) w) of
                               (r, w1) \<Rightarrow> (r, pg_emit (EvCloseHandle h) w1)))))))"

definition log_if :: "PageantComponent \<Rightarrow> string \<Rightarrow> 's pworld \<Rightarrow> 's pworld" where
  "log_if c text w = (if pg_logger c then w\<lparr>pw_log := pw_log w @ [text]\<rparr> else w)"

text \<open>A recovered panic leaves the unnamed result at its zero value.\<close>

definition windowProc :: "'s pageant_env \<Rightarrow> message \<Rightarrow> 's pworld \<Rightarrow> u64 \<times> 's pworld" where
  "windowProc env m w =
     (case (pw_active w, msg_Message m = wmCopyData) of
        (Some c, True) \<Rightarrow>
          (case handle env (Some (copyData_at (pe_memory env) (msg_LParam m))) w of
             (Returned None, w1) \<Rightarrow> (1, w1)
           | (Returned (Some e), w1) \<Rightarrow> (0, log_if c ''Pageant request failed'' w1)
           | (Panicked p, w1) \<Rightarrow> (0, log_if c ''Pageant request panic'' w1))
      | _ \<Rightarrow>
          if msg_Message m = wmDestroy then (0, w) else (pe_DefWindowProc env m, w))"

section \<open>The message loop and \<^verbatim>\<open>Start\<close>\<close>

text \<open>
  \<open>se_messages\<close> is what the calls of \<^verbatim>\<open>GetMessageW\<close> return, in order: the raw result, the error
  and the message.  A list that ends before the loop does is a thread still waiting.  The
  goroutine that posts \<^verbatim>\<open>WM_QUIT\<close> when the context ends is seen here as a result of zero.
\<close>

record start_env =
  se_GetModuleHandle :: "u64 \<times> goerr option"
  se_FindWindow :: u64
  se_RegisterClass :: "u64 \<times> goerr option"
  se_CreateWindow :: "u64 \<times> goerr option"
  se_messages :: "(u64 \<times> goerr option \<times> message) list"

text \<open>\<^verbatim>\<open>int32(result) == -1\<close>.\<close>

definition getmessage_failed :: "u64 \<Rightarrow> bool" where
  "getmessage_failed result \<longleftrightarrow> sint (ucast result :: 32 word) = -1"

fun message_loop ::
  "'s pageant_env \<Rightarrow> (u64 \<times> goerr option \<times> message) list \<Rightarrow> 's pworld \<Rightarrow> (goerr option \<times> 's pworld) option"
where
  "message_loop env [] w = None"
| "message_loop env ((result, callErr, m) # ms) w =
     (if getmessage_failed result then Some (Some (ErrWrap ''GetMessageW'' (windowsError callErr)), w)
      else if result = 0 then Some (None, w)
      else message_loop env ms (snd (windowProc env m w)))"

text \<open>\<^verbatim>\<open>Start\<close> from \<^verbatim>\<open>GetModuleHandleW\<close> to its return, before the deferred reset of \<^verbatim>\<open>active\<close>.\<close>

definition start_window ::
  "'s pageant_env \<Rightarrow> start_env \<Rightarrow> readiness \<Rightarrow> 's pworld \<Rightarrow> (goerr option \<times> readiness \<times> 's pworld) option"
where
  "start_window env se rd w =
     (if fst (se_GetModuleHandle se) = 0 then
        Some (Some (ErrWrap ''GetModuleHandleW'' (windowsError (snd (se_GetModuleHandle se)))), rd, w)
      else if se_FindWindow se \<noteq> 0 then
        Some (Some (ErrNew ''Pageant window conflict: another Pageant-compatible application is running''), rd, w)
      else if fst (se_RegisterClass se) = 0 then
        Some (Some (ErrWrap ''Pageant window class conflict'' (windowsError (snd (se_RegisterClass se)))), rd, w)
      else if fst (se_CreateWindow se) = 0 then
        Some (Some (ErrWrap ''create Pageant window'' (windowsError (snd (se_CreateWindow se)))), rd, w)
      else
        (let window = fst (se_CreateWindow se); rd1 = reportReady None rd in
         map_option (\<lambda>(r, w1). (r, rd1, pg_emit (EvDestroyWindow window) w1))
           (message_loop env (se_messages se) (pg_emit (EvCreateWindow window) w))))"

definition Start ::
  "PageantComponent \<Rightarrow> 's pageant_env \<Rightarrow> start_env \<Rightarrow> readiness \<Rightarrow> 's pworld \<Rightarrow>
   (goerr option \<times> readiness \<times> 's pworld) option" where
  "Start c env se rd w =
     map_option (\<lambda>(r, rd1, w1). (r, report_result r rd1, w1))
       (if pw_active w \<noteq> None then
          Some (Some (ErrNew ''Pageant interface is already active in this process''), rd, w)
        else
          map_option (\<lambda>(r, rd1, w1). (r, rd1, w1\<lparr>pw_active := None\<rparr>))
            (start_window env se rd (w\<lparr>pw_active := Some c\<rparr>)))"

section \<open>Lemmas\<close>

lemma length_memoryAt [simp]: "length (memoryAt mem a n) = n"
  by (simp add: memoryAt_def)

lemma pg_emit_simps [simp]:
  "pw_events (pg_emit e w) = pw_events w @ [e]"
  "pw_region (pg_emit e w) = pw_region w"
  "pw_agent (pg_emit e w) = pw_agent w"
  "pw_active (pg_emit e w) = pw_active w"
  "pw_log (pg_emit e w) = pw_log w"
  by (simp_all add: pg_emit_def)

lemma log_if_simps [simp]:
  "pw_events (log_if c t w) = pw_events w"
  "pw_region (log_if c t w) = pw_region w"
  "pw_agent (log_if c t w) = pw_agent w"
  "pw_active (log_if c t w) = pw_active w"
  by (simp_all add: log_if_def)

text \<open>
  What \<^verbatim>\<open>handle\<close> does once a view is mapped.  A well-formed request is a message whose length
  field is positive, within the limit and within the mapping.
\<close>

definition request_in :: "bytes \<Rightarrow> bytes \<Rightarrow> bool" where
  "request_in mapped request \<longleftrightarrow>
     (\<exists>n body rest. request = be_put32 n @ body \<and> mapped = request @ rest \<and>
        length body = unat n \<and> 0 < unat n \<and> int (unat n) \<le> MaxMessageLen)"

definition reply_of :: "goerr option \<Rightarrow> bytes \<Rightarrow> bytes" where
  "reply_of err out = (if serve_failed err then failure_reply else out)"

lemma be_put32_join: "be_put32 (be_join a b c d) = [a, b, c, d]"
proof -
  have "ucast (drop_bit 24 (be_join a b c d)) = a" "ucast (drop_bit 16 (be_join a b c d)) = b"
    "ucast (drop_bit 8 (be_join a b c d)) = c" "ucast (be_join a b c d) = d"
    by (rule bit_word_eqI, auto simp: be_join_def bit_simps dest: bit_imp_le_length)+
  then show ?thesis by (simp add: be_put32_def)
qed

lemma be_get32_Some_iff: "be_get32 bs = Some n \<longleftrightarrow> (\<exists>rest. bs = be_put32 n @ rest)"
proof
  assume "be_get32 bs = Some n"
  then show "\<exists>rest. bs = be_put32 n @ rest"
    by (cases bs rule: be_get32.cases) (auto simp: be_put32_join)
next
  show "\<exists>rest. bs = be_put32 n @ rest \<Longrightarrow> be_get32 bs = Some n" by auto
qed

lemma request_inI:
  assumes "be_get32 (take 4 mapped) = Some n" "0 < uint n" "uint n \<le> MaxMessageLen"
    "uint n + 4 \<le> int (length mapped)"
  shows "request_in mapped (take (nat (uint n + 4)) mapped)"
proof -
  obtain rest where "take 4 mapped = be_put32 n @ rest"
    using assms(1) be_get32_Some_iff by blast
  then have 4: "take 4 mapped = be_put32 n"
    using length_take [of 4 mapped] by (cases rest) auto
  have u: "uint n = int (unat n)" by (rule uint_nat)
  have k: "nat (uint n + 4) = 4 + unat n" unfolding u by linarith
  have le: "4 + unat n \<le> length mapped" using assms(4) unfolding u by linarith
  have "take (4 + unat n) mapped = be_put32 n @ take (unat n) (drop 4 mapped)"
    using 4 by (simp add: take_add)
  moreover have "length (take (unat n) (drop 4 mapped)) = unat n" using le by simp
  moreover have "0 < unat n" "int (unat n) \<le> MaxMessageLen"
    using assms(2,3) unfolding u by linarith+
  moreover have "mapped = take (4 + unat n) mapped @ drop (4 + unat n) mapped" by simp
  ultimately show ?thesis unfolding request_in_def k by blast
qed

text \<open>The ways a mapped request can end, which every property of \<^verbatim>\<open>handle\<close> goes through.\<close>

lemma handle_view_cases:
  obtains
    (refused) e where "handle_view env a w = (Returned (Some e), w)"
  | (panicked) m s req where "request_in (pw_region w a) req" "pe_ServeAgent env (pw_agent w) req = (ServePanic m, s)"
      "handle_view env a w = (Panicked m, w\<lparr>pw_agent := s\<rparr>)"
  | (unfit) err out s req e where "request_in (pw_region w a) req" "pe_ServeAgent env (pw_agent w) req = (Served err out, s)"
      "handle_view env a w = (Returned (Some e), w\<lparr>pw_agent := s\<rparr>)"
      "length (reply_of err out) < 5 \<or> length (reply_of err out) > length (pw_region w a)"
  | (replied) err out s req where "request_in (pw_region w a) req" "pe_ServeAgent env (pw_agent w) req = (Served err out, s)"
      "handle_view env a w = (Returned None, w\<lparr>pw_agent := s, pw_region := (pw_region w)
         (a := reply_of err out @ drop (length (reply_of err out)) (pw_region w a))\<rparr>)"
      "5 \<le> length (reply_of err out)" "length (reply_of err out) \<le> length (pw_region w a)"
proof (cases "pe_VirtualQuery env a")
  case (Some e)
  then show ?thesis by (intro refused) (simp add: handle_view_def)
next
  case None
  let ?m = "pw_region w a"
  show ?thesis
  proof (cases "be_get32 (take 4 ?m)")
    case none: None
    then have "length ?m < 4" by (simp add: be_get32_None_iff min_def split: if_splits)
    then show ?thesis by (intro refused) (simp add: handle_view_def None Let_def)
  next
    case n: (Some n)
    have 4: "\<not> length ?m < 4" using n be_get32_None_iff [of "take 4 ?m"] by (auto simp: min_def split: if_splits)
    show ?thesis
    proof (cases "uint n \<le> 0 \<or> uint n > MaxMessageLen \<or> uint n + 4 > int (length ?m)")
      case True
      then show ?thesis using None n 4 by (intro refused) (simp add: handle_view_def Let_def)
    next
      case False
      let ?req = "take (nat (uint n + 4)) ?m"
      have req: "request_in ?m ?req" using False by (intro request_inI [OF n]) linarith+
      obtain x s where serve: "pe_ServeAgent env (pw_agent w) ?req = (x, s)" by fastforce
      show ?thesis
      proof (cases x)
        case (ServePanic m)
        then show ?thesis using None n 4 False serve
          by (intro panicked [OF req]) (simp_all add: handle_view_def Let_def)
      next
        case (Served err out)
        show ?thesis
        proof (cases "length (reply_of err out) < 5 \<or> length (reply_of err out) > length ?m")
          case True
          then show ?thesis using None n 4 False serve Served
            by (intro unfit [OF req]) (simp_all add: handle_view_def Let_def flip: reply_of_def)
        next
          case fit: False
          have "handle_view env a w = (Returned None, w\<lparr>pw_agent := s, pw_region := (pw_region w)
              (a := reply_of err out @ drop (length (reply_of err out)) ?m)\<rparr>)"
            using fit None n 4 False serve Served
            by (simp add: handle_view_def Let_def flip: reply_of_def)
          then show ?thesis using serve Served fit by (intro replied [OF req]) auto
        qed
      qed
    qed
  qed
qed

lemma handle_mapping_cases:
  obtains (unmapped) e where "handle_mapping env h w = (Returned (Some e), w)"
  | (mapped) a r w1 where "a \<noteq> 0" "pe_MapViewOfFile env h = (a, snd (pe_MapViewOfFile env h))"
      "handle_view env a (pg_emit (EvMapView a) w) = (r, w1)"
      "handle_mapping env h w = (r, pg_emit (EvUnmapView a) w1)"
proof (cases "pe_MapViewOfFile env h")
  case (Pair a callErr)
  obtain r w1 where "handle_view env a (pg_emit (EvMapView a) w) = (r, w1)" by fastforce
  with Pair that show ?thesis by (cases "a = 0") (simp_all add: handle_mapping_def)
qed

lemma handle_cases:
  obtains (refused) e where "handle env d w = (Returned (Some e), w)"
  | (opened) h r w1 where "h \<noteq> 0" "handle_mapping env h (pg_emit (EvOpenFileMapping h) w) = (r, w1)"
      "handle env d w = (r, pg_emit (EvCloseHandle h) w1)"
proof (cases "\<exists>e. handle env d w = (Returned (Some e), w)")
  case True
  then show ?thesis using refused by blast
next
  case False
  then show ?thesis
    by (auto simp: handle_def Let_def split: option.splits prod.splits if_splits intro: opened)
qed

text \<open>Handles and views opened and closed by one request, in the order of the calls.\<close>

definition balanced_events :: "pageant_event list \<Rightarrow> bool" where
  "balanced_events evs \<longleftrightarrow>
     evs = [] \<or> (\<exists>h. evs = [EvOpenFileMapping h, EvCloseHandle h]) \<or>
     (\<exists>h a. evs = [EvOpenFileMapping h, EvMapView a, EvUnmapView a, EvCloseHandle h])"

lemma handle_view_events [simp]: "pw_events (snd (handle_view env a w)) = pw_events w"
  by (cases rule: handle_view_cases [of env a w]) simp_all

lemma handle_view_active [simp]: "pw_active (snd (handle_view env a w)) = pw_active w"
  by (cases rule: handle_view_cases [of env a w]) simp_all

lemma handle_events_ex:
  "\<exists>evs. pw_events (snd (handle env d w)) = pw_events w @ evs \<and> balanced_events evs"
proof (cases rule: handle_cases [of env d w])
  case (refused e)
  then show ?thesis by (simp add: balanced_events_def)
next
  case (opened h r w1)
  show ?thesis
  proof (cases rule: handle_mapping_cases [of env h "pg_emit (EvOpenFileMapping h) w"])
    case (unmapped e)
    then show ?thesis using opened by (auto simp: balanced_events_def)
  next
    case (mapped a r2 w2)
    have "pw_events w2 = pw_events w @ [EvOpenFileMapping h, EvMapView a]"
      using handle_view_events [of env a "pg_emit (EvMapView a) (pg_emit (EvOpenFileMapping h) w)"]
        mapped(3) by simp
    then show ?thesis using opened mapped by (auto simp: balanced_events_def)
  qed
qed

text \<open>Every run of \<^verbatim>\<open>handle\<close> either refuses before anything is opened, or does exactly what the view does.\<close>

lemma handle_as_view:
  obtains (refused) e evs where "handle env d w = (Returned (Some e), w\<lparr>pw_events := pw_events w @ evs\<rparr>)"
  | (viewed) a evs where "a \<noteq> 0"
      "handle env d w = apsnd (\<lambda>w1. w1\<lparr>pw_events := pw_events w @ evs\<rparr>)
         (handle_view env a (w\<lparr>pw_events := pw_events w @ take 2 evs\<rparr>))"
proof (cases rule: handle_cases [of env d w])
  case (refused e)
  then show ?thesis by (intro that(1) [of e "[]"]) simp
next
  case (opened h r w1)
  show ?thesis
  proof (cases rule: handle_mapping_cases [of env h "pg_emit (EvOpenFileMapping h) w"])
    case (unmapped e)
    then show ?thesis using opened
      by (intro that(1) [of e "[EvOpenFileMapping h, EvCloseHandle h]"]) (auto simp: pg_emit_def)
  next
    case (mapped a r2 w2)
    let ?evs = "[EvOpenFileMapping h, EvMapView a, EvUnmapView a, EvCloseHandle h]"
    have v: "handle_view env a (w\<lparr>pw_events := pw_events w @ take 2 ?evs\<rparr>) = (r2, w2)"
      using mapped(3) by (simp add: pg_emit_def)
    then have "pw_events w2 = pw_events w @ take 2 ?evs"
      using handle_view_events [of env a "w\<lparr>pw_events := pw_events w @ take 2 ?evs\<rparr>"] by simp
    then show ?thesis using opened mapped v
      by (intro that(2) [of a ?evs]) (simp_all add: pg_emit_def)
  qed
qed

lemma windowProc_active [simp]: "pw_active (snd (windowProc env m w)) = pw_active w"
proof -
  have "pw_active (snd (handle env d w)) = pw_active w" for d
  proof (cases rule: handle_as_view [of env d w])
    case (viewed a evs)
    then show ?thesis
      using handle_view_active [of env a "w\<lparr>pw_events := pw_events w @ take 2 evs\<rparr>"] by simp
  qed simp
  then show ?thesis
    unfolding windowProc_def
    by (auto split: option.splits prod.splits outcome.splits bool.splits simp: fun_eq_iff) (metis snd_conv)+
qed

text \<open>The message loop: it keeps the active component, and only requests add events.\<close>

fun is_window_event :: "pageant_event \<Rightarrow> bool" where
  "is_window_event (EvCreateWindow _) = True"
| "is_window_event (EvDestroyWindow _) = True"
| "is_window_event _ = False"

definition quiet_events :: "pageant_event list \<Rightarrow> bool" where
  "quiet_events evs \<longleftrightarrow> list_all (\<lambda>e. \<not> is_window_event e) evs"

lemma windowProc_events:
  "\<exists>evs. pw_events (snd (windowProc env m w)) = pw_events w @ evs \<and> quiet_events evs"
proof -
  have h: "\<exists>evs. pw_events (snd (handle env d w)) = pw_events w @ evs \<and> quiet_events evs" for d
    using handle_events_ex [of env d w] by (auto simp: balanced_events_def quiet_events_def)
  have "snd (windowProc env m w) = w \<or> (\<exists>d. pw_events (snd (windowProc env m w)) = pw_events (snd (handle env d w)))"
    by (auto simp: windowProc_def split: option.splits prod.splits outcome.splits bool.splits) (metis snd_conv)+
  then show ?thesis using h by (auto simp: quiet_events_def)
qed

lemma message_loop_events:
  "message_loop env ms w = Some (r, w') \<Longrightarrow>
    pw_active w' = pw_active w \<and> (\<exists>evs. pw_events w' = pw_events w @ evs \<and> quiet_events evs)"
proof (induction env ms w rule: message_loop.induct)
  case (1 env w)
  then show ?case by simp
next
  case (2 env result callErr m ms w)
  show ?case
  proof (cases "getmessage_failed result \<or> result = 0")
    case True
    then show ?thesis using 2(2) by (auto simp: quiet_events_def split: if_splits)
  next
    case False
    obtain evs where "pw_events (snd (windowProc env m w)) = pw_events w @ evs" "quiet_events evs"
      using windowProc_events by blast
    then show ?thesis using 2 False by (fastforce simp: quiet_events_def)
  qed
qed

definition loop_ends :: "(u64 \<times> goerr option \<times> message) list \<Rightarrow> bool" where
  "loop_ends ms = list_ex (\<lambda>(result, _, _). getmessage_failed result \<or> result = 0) ms"

lemma message_loop_ends_iff: "message_loop env ms w \<noteq> None \<longleftrightarrow> loop_ends ms"
  by (induction env ms w rule: message_loop.induct) (auto simp: loop_ends_def)

definition start_run ::
  "PageantComponent \<times> 's pageant_env \<times> start_env \<times> 's pworld \<Rightarrow> readiness \<Rightarrow> (goerr option \<times> readiness) option"
where
  "start_run = (\<lambda>(c, env, se, w) rd. map_option (\<lambda>(r, rd1, w1). (r, rd1)) (Start c env se rd w))"

lemma start_window_cases:
  assumes "start_window env se rd w = Some (r, rd1, w1)"
  obtains (early) e where "r = Some e" "rd1 = rd" "w1 = w"
  | (ran) win w2 where "rd1 = reportReady None rd"
      "message_loop env (se_messages se) (pg_emit (EvCreateWindow win) w) = Some (r, w2)"
      "w1 = pg_emit (EvDestroyWindow win) w2"
  using assms by (auto simp: start_window_def Let_def split: if_splits)

lemma start_run_shape:
  assumes "start_run x fresh_ready = Some (r, rd)"
  shows "(\<exists>e. r = Some e \<and> rd = reportReady (Some e) fresh_ready) \<or>
    rd = report_result r (reportReady None fresh_ready)"
proof -
  obtain c env se w where x: "x = (c, env, se, w)" by (cases x)
  show ?thesis
  proof (cases "pw_active w")
    case (Some a)
    then show ?thesis using assms by (auto simp: x start_run_def Start_def)
  next
    case None
    then obtain rd1 w1 where s: "start_window env se fresh_ready (w\<lparr>pw_active := Some c\<rparr>) = Some (r, rd1, w1)"
        and rd: "rd = report_result r rd1"
      using assms by (auto simp: x start_run_def Start_def)
    from s show ?thesis by (cases rule: start_window_cases) (auto simp: rd)
  qed
qed

interpretation pageant_ready: ready_component start_run
  by (rule ready_componentI) (rule start_run_shape)

section \<open>Properties\<close>

text \<open>C1 (pageant_reply). When \<^verbatim>\<open>handle\<close> returns nil, the mapping held a complete agent message
  (its four-byte length positive, at most \<^verbatim>\<open>MaxMessageLen\<close> and inside the mapping), exactly that
  message was given to the agent, and the mapping now starts with the agent's reply, or with
  \<^verbatim>\<open>SSH_AGENT_FAILURE\<close> when serving failed; the reply is at least five bytes and never longer than
  the mapping, whose size and remaining bytes are unchanged, as are all other mappings.\<close>

theorem pageant_reply:
  assumes "handle env d w = (Returned None, w')"
  shows "\<exists>a req err out. a \<noteq> 0 \<and> request_in (pw_region w a) req \<and>
    pe_ServeAgent env (pw_agent w) req = (Served err out, pw_agent w') \<and>
    5 \<le> length (reply_of err out) \<and> length (reply_of err out) \<le> length (pw_region w a) \<and>
    pw_region w' = (pw_region w)(a := reply_of err out @ drop (length (reply_of err out)) (pw_region w a))"
proof (cases rule: handle_as_view [of env d w])
  case (refused e evs)
  then show ?thesis using assms by simp
next
  case (viewed a evs)
  show ?thesis
    by (cases rule: handle_view_cases [of env a "w\<lparr>pw_events := pw_events w @ take 2 evs\<rparr>"])
      (use viewed assms in auto)
qed

definition sample_request :: copyDataStruct where
  "sample_request = \<lparr>cd_Data = copyDataID, cd_Size = 15, cd_Pointer = 1000\<rparr>"

definition sample_memory :: "u64 \<Rightarrow> byte" where
  "sample_memory a = (bytes_of ''PageantRequest'' @ [0]) ! unat (a - 1000)"

definition sample_pageant_env :: "nat pageant_env" where
  "sample_pageant_env =
     \<lparr>pe_memory = sample_memory, pe_UTF16PtrFromString = (\<lambda>_. None),
      pe_OpenFileMapping = (\<lambda>_. (7, None)), pe_MapViewOfFile = (\<lambda>_. (9, None)),
      pe_VirtualQuery = (\<lambda>_. None),
      pe_ServeAgent = (\<lambda>n req. (Served (Some EOF) [0, 0, 0, 5, 12, 0, 0, 0, 0], Suc n)),
      pe_DefWindowProc = (\<lambda>_. 0)\<rparr>"

definition sample_pworld :: "nat pworld" where
  "sample_pworld =
     \<lparr>pw_active = None, pw_region = (\<lambda>_. [0, 0, 0, 1, 11, 0, 0, 0, 0, 99]), pw_agent = 0,
      pw_events = [], pw_log = []\<rparr>"

lemma sample_name:
  "memoryAt sample_memory 1000 15 = bytes_of ''PageantRequest'' @ [0]"
  by (code_simp)

lemma sample_handle:
  "fst (handle sample_pageant_env (Some sample_request) sample_pworld) = Returned None"
  by code_simp

theorem pageant_reply_witness:
  "\<exists>w' a. handle sample_pageant_env (Some sample_request) sample_pworld = (Returned None, w') \<and>
    pw_region w' a = [0, 0, 0, 5, 12, 0, 0, 0, 0, 99]"
proof -
  obtain w' where w': "handle sample_pageant_env (Some sample_request) sample_pworld = (Returned None, w')"
    using sample_handle by (metis prod.collapse)
  from pageant_reply [OF w'] obtain a where
    "pw_region w' a = [0, 0, 0, 5, 12, 0, 0, 0, 0, 99]"
    by (auto simp: sample_pageant_env_def sample_pworld_def reply_of_def serve_failed_def)
  with w' show ?thesis by blast
qed



text \<open>(pageant_resources). On every path through \<^verbatim>\<open>handle\<close>, panics included, the section handle
  and the view it opened are released exactly once each, the view first.\<close>

theorem pageant_resources:
  "\<exists>evs. pw_events (snd (handle env d w)) = pw_events w @ evs \<and> balanced_events evs"
  by (rule handle_events_ex)

text \<open>(pageant_lifecycle). Once \<^verbatim>\<open>Start\<close> has returned, the process-wide active component is what
  it was before, the window was destroyed if it was created, and readiness was reported exactly
  once: an error exactly as returned, or success.  A second component started while one is active
  fails and changes nothing.\<close>

theorem pageant_lifecycle:
  assumes "Start c env se fresh_ready w = Some (r, rd, w')"
  shows "pw_active w' = pw_active w \<and>
    (rd_ready rd = [None] \<or> r \<noteq> None \<and> rd_ready rd = [r]) \<and>
    (r = None \<longrightarrow> rd_ready rd = [None]) \<and>
    (\<exists>evs. pw_events w' = pw_events w @ evs \<and>
      (evs = [] \<or> (\<exists>win mid. evs = EvCreateWindow win # mid @ [EvDestroyWindow win] \<and> quiet_events mid))) \<and>
    (pw_active w \<noteq> None \<longrightarrow> r \<noteq> None \<and> w' = w)"
proof -
  have run: "start_run (c, env, se, w) fresh_ready = Some (r, rd)" using assms by (simp add: start_run_def)
  note report = pageant_ready.report_of_run [OF run]
  have ok: "r = None \<longrightarrow> rd_ready rd = [None]" using pageant_ready.reports_success run by blast
  show ?thesis
  proof (cases "pw_active w")
    case (Some a)
    then show ?thesis using assms report ok by (auto simp: Start_def)
  next
    case None
    then obtain rd1 w1 where s: "start_window env se fresh_ready (w\<lparr>pw_active := Some c\<rparr>) = Some (r, rd1, w1)"
        and w': "w' = w1\<lparr>pw_active := None\<rparr>"
      using assms by (auto simp: Start_def)
    from s show ?thesis
    proof (cases rule: start_window_cases)
      case (early e)
      then show ?thesis using None w' report ok by simp
    next
      case (ran win w2)
      from message_loop_events [OF ran(2)] obtain mid
        where "pw_events w2 = pw_events w @ EvCreateWindow win # mid" "quiet_events mid" by auto
      then show ?thesis using None w' report ok ran by auto
    qed
  qed
qed

definition sample_start_env :: start_env where
  "sample_start_env =
     \<lparr>se_GetModuleHandle = (1, None), se_FindWindow = 0, se_RegisterClass = (1, None),
      se_CreateWindow = (5, None),
      se_messages = [(0, None, \<lparr>msg_Window = 0, msg_Message = wmQuit, msg_WParam = 0, msg_LParam = 0\<rparr>)]\<rparr>"

theorem pageant_lifecycle_witness:
  "\<exists>rd w'. Start \<lparr>pg_logger = True\<rparr> sample_pageant_env sample_start_env fresh_ready sample_pworld = Some (None, rd, w') \<and>
    pw_active w' = None \<and> rd_ready rd = [None]"
proof -
  have nf: "\<not> getmessage_failed 0" by (simp add: getmessage_failed_def)
  obtain rd w' where s: "Start \<lparr>pg_logger = True\<rparr> sample_pageant_env sample_start_env fresh_ready sample_pworld
      = Some (None, rd, w')"
    by (simp add: Start_def start_window_def sample_start_env_def sample_pworld_def Let_def nf)
  from pageant_lifecycle [OF s] s show ?thesis by (auto simp: sample_pworld_def)
qed

text \<open>(pageant_returns). \<^verbatim>\<open>Start\<close> returns exactly when another component is active, a setup call
  failed or found a conflict, or \<^verbatim>\<open>GetMessageW\<close> reports quit or failure; it cannot be ended by any
  request.\<close>

theorem pageant_returns:
  "Start c env se rd w \<noteq> None \<longleftrightarrow>
     pw_active w \<noteq> None \<or> fst (se_GetModuleHandle se) = 0 \<or> se_FindWindow se \<noteq> 0 \<or>
     fst (se_RegisterClass se) = 0 \<or> fst (se_CreateWindow se) = 0 \<or> loop_ends (se_messages se)"
  using message_loop_ends_iff
    [of env "se_messages se" "pg_emit (EvCreateWindow (fst (se_CreateWindow se))) (w\<lparr>pw_active := Some c\<rparr>)"]
  by (auto simp: Start_def start_window_def Let_def)

end
