(* ===== verification/Cygwin.thy ===== *)
theory Cygwin
  imports Component
begin

text \<open>
  The Cygwin interface (src/internal/interfaces/cygwin/cygwin\_windows.go): a loopback listener
  whose port and nonce are published in a Cygwin socket file, with an owner marker beside it that
  says which process wrote it.

  Files are the world of \<open>Os_Model\<close>.  \<open>cyg_env\<close> holds what lies outside the package: path
  functions, \<^verbatim>\<open>json.Unmarshal\<close>, the process table, the listener's port and the random source.
  \<^verbatim>\<open>json.Marshal\<close> of the marker is written out; its two strings are the application's name and a
  hexadecimal number, which need no escaping.
\<close>

section \<open>Types\<close>

definition application :: string where "application = ''OmniSSHAgent''"

record ownerMarker =
  om_Version :: int
  om_Application :: string
  om_PID :: int
  om_Nonce :: string

record cyg_env =
  ce_os :: os_env
  ce_fp :: filepath_ops
  ce_Unmarshal :: "bytes \<Rightarrow> ownerMarker option"
  ce_UTF16PtrFromString :: "string \<Rightarrow> goerr option"
  ce_Getpid :: int
  ce_OpenProcess :: "u32 \<Rightarrow> goerr option"
  ce_Listen :: "int result"
  ce_rand :: "goerr option"
  ce_random :: "nat \<Rightarrow> byte"

record CygwinComponent =
  cyg_path :: string
  cyg_handshakeTimeout :: int
  cyg_logger :: bool

definition owner_path :: "CygwinComponent \<Rightarrow> string" where
  "owner_path c = cyg_path c @ ''.owner''"

definition quote :: string where "quote = [CHR 0x22]"

definition json_Marshal :: "ownerMarker \<Rightarrow> bytes" where
  "json_Marshal m = bytes_of
     (CHR 0x7B # quote @ ''version'' @ quote @ '':'' @ Itoa (om_Version m) @ '','' @
      quote @ ''application'' @ quote @ '':'' @ quote @ om_Application m @ quote @ '','' @
      quote @ ''pid'' @ quote @ '':'' @ Itoa (om_PID m) @ '','' @
      quote @ ''nonce'' @ quote @ '':'' @ quote @ om_Nonce m @ quote @ [CHR 0x7D])"

section \<open>The socket description\<close>

text \<open>The nonce is a slice of 16 bytes wherever \<^verbatim>\<open>nonceText\<close> is called.\<close>

definition nonceText :: "bytes \<Rightarrow> string" where
  "nonceText nonce =
     strJoin (map (\<lambda>i. hex_EncodeToString [nonce ! (i + 3), nonce ! (i + 2), nonce ! (i + 1), nonce ! i])
       [0, 4, 8, 12]) ''-''"

definition socket_text :: "int \<Rightarrow> bytes \<Rightarrow> string" where
  "socket_text port nonce = ''!<socket >'' @ Itoa port @ '' s '' @ nonceText nonce"

fun parse_words :: "string list \<Rightarrow> bytes \<Rightarrow> bytes option" where
  "parse_words [] out = Some out"
| "parse_words (word # words) out =
     (case hex_DecodeString word of
        Some [b0, b1, b2, b3] \<Rightarrow> parse_words words (out @ [b3, b2, b1, b0])
      | _ \<Rightarrow> None)"

definition parseSocketNonce :: "string \<Rightarrow> bytes option" where
  "parseSocketNonce value =
     (case Fields value of
        [f0, f1, f2, f3] \<Rightarrow>
          if f0 \<noteq> ''!<socket'' \<or> f2 \<noteq> ''s'' then None
          else if Atoi (TrimPrefix f1 ''>'') = None then None
          else
            (let words = strSplit f3 (CHR ''-'') in
             if length words \<noteq> 4 then None else parse_words words [])
      | _ \<Rightarrow> None)"

section \<open>Files\<close>

definition cyg_pattern :: "filepath_ops \<Rightarrow> string \<Rightarrow> string" where
  "cyg_pattern fp path = ''.'' @ fp_Base fp path @ ''.*.tmp''"

text \<open>\<^verbatim>\<open>atomicWrite\<close> from the temporary file on; the deferred \<^verbatim>\<open>os.Remove\<close> is in \<open>atomicWrite\<close>.\<close>

definition atomicWrite_tmp ::
  "os_env \<Rightarrow> string \<Rightarrow> string \<Rightarrow> bytes \<Rightarrow> world \<Rightarrow> goerr option \<times> world" where
  "atomicWrite_tmp env name path data w0 =
     (let close = (\<lambda>w. snd (os_plain env (CallClose name) w)) in
      try_os (os_plain env (CallChmod name) w0) (\<lambda>e w. (Some e, close w)) (\<lambda>w1.
      try_os (os_Write env name data w1) (\<lambda>e w. (Some e, close w)) (\<lambda>w2.
      try_os (os_plain env (CallClose name) w2) (\<lambda>e w. (Some e, w)) (\<lambda>w3.
      os_Rename env name path w3))))"

definition atomicWrite ::
  "filepath_ops \<Rightarrow> os_env \<Rightarrow> string \<Rightarrow> bytes \<Rightarrow> world \<Rightarrow> goerr option \<times> world" where
  "atomicWrite fp env path data w0 =
     (case os_CreateTemp env (fp_Dir fp path) (cyg_pattern fp path) w0 of
        (Inl e, w1) \<Rightarrow> (Some e, w1)
      | (Inr name, w1) \<Rightarrow>
     (case atomicWrite_tmp env name path data w1 of
        (r, w2) \<Rightarrow> (r, snd (os_Remove env name w2))))"

text \<open>The loop of \<^verbatim>\<open>removeFiles\<close> over the paths still to remove.\<close>

fun remove_each :: "cyg_env \<Rightarrow> string list \<Rightarrow> world \<Rightarrow> goerr option \<times> world" where
  "remove_each ce [] w = (None, w)"
| "remove_each ce (path # paths) w =
     (let w1 = (if ce_UTF16PtrFromString ce path = None
                then snd (SetFileAttributes (ce_os ce) path FILE_ATTRIBUTE_NORMAL w) else w) in
      case os_Remove (ce_os ce) path w1 of
        (Some e, w2) \<Rightarrow> if \<not> errors_Is e ErrNotExist then (Some e, w2) else remove_each ce paths w2
      | (None, w2) \<Rightarrow> remove_each ce paths w2)"

definition removeFiles :: "cyg_env \<Rightarrow> CygwinComponent \<Rightarrow> world \<Rightarrow> goerr option \<times> world" where
  "removeFiles ce c w = remove_each ce [cyg_path c, owner_path c] w"

definition own_marker :: "cyg_env \<Rightarrow> bytes \<Rightarrow> ownerMarker" where
  "own_marker ce nonce =
     \<lparr>om_Version = 1, om_Application = application, om_PID = ce_Getpid ce, om_Nonce = hex_EncodeToString nonce\<rparr>"

definition writeFiles ::
  "cyg_env \<Rightarrow> CygwinComponent \<Rightarrow> int \<Rightarrow> bytes \<Rightarrow> world \<Rightarrow> goerr option \<times> world" where
  "writeFiles ce c port nonce w0 =
     (let env = ce_os ce; socket = bytes_of (socket_text port nonce);
          marker = json_Marshal (own_marker ce nonce) in
      try_os (atomicWrite (ce_fp ce) env (cyg_path c) socket w0)
        (\<lambda>e w. (Some (ErrWrap ''write socket description'' e), w)) (\<lambda>w1.
      try_os (atomicWrite (ce_fp ce) env (owner_path c) marker w1)
        (\<lambda>e w. (Some (ErrWrap ''write owner marker'' e), snd (os_Remove env (cyg_path c) w))) (\<lambda>w2.
      (case ce_UTF16PtrFromString ce (cyg_path c) of
         Some e \<Rightarrow> (Some (ErrWrap ''encode socket path'' e), snd (removeFiles ce c w2))
       | None \<Rightarrow>
           try_os (SetFileAttributes env (cyg_path c) (FILE_ATTRIBUTE_SYSTEM + FILE_ATTRIBUTE_READONLY) w2)
             (\<lambda>e w. (Some (ErrWrap ''mark Cygwin socket description'' e), snd (removeFiles ce c w)))
             (\<lambda>w3. (None, w3))))))"

text \<open>\<^verbatim>\<open>windows.ERROR_INVALID_PARAMETER\<close> is 87.\<close>

definition processAlive :: "cyg_env \<Rightarrow> int \<Rightarrow> bool" where
  "processAlive ce pid =
     (if pid \<le> 0 then False
      else
        (case ce_OpenProcess ce (word_of_int pid) of
           Some err \<Rightarrow> \<not> errors_Is err (ErrErrno 87)
         | None \<Rightarrow> True))"

text \<open>The checks of \<^verbatim>\<open>prepareExisting\<close> once both files have been read.\<close>

definition judge_existing :: "cyg_env \<Rightarrow> bytes \<Rightarrow> bytes \<Rightarrow> goerr option" where
  "judge_existing ce socketData markerData =
     (case ce_Unmarshal ce markerData of
        None \<Rightarrow> Some (ErrNew ''Cygwin socket conflict: untrusted owner marker'')
      | Some marker \<Rightarrow>
          if om_Version marker \<noteq> 1 \<or> om_Application marker \<noteq> application then
            Some (ErrNew ''Cygwin socket conflict: untrusted owner marker'')
          else
            (case parseSocketNonce (string_of socketData) of
               None \<Rightarrow> Some (ErrNew ''Cygwin socket conflict: nonce mismatch'')
             | Some nonce \<Rightarrow>
                 if om_Nonce marker \<noteq> hex_EncodeToString nonce then
                   Some (ErrNew ''Cygwin socket conflict: nonce mismatch'')
                 else if processAlive ce (om_PID marker) then
                   Some (ErrNew (''Cygwin socket conflict: owner process '' @ Itoa (om_PID marker) @ '' is running''))
                 else None))"

definition prepareExisting :: "cyg_env \<Rightarrow> CygwinComponent \<Rightarrow> world \<Rightarrow> goerr option \<times> world" where
  "prepareExisting ce c w0 =
     (let env = ce_os ce; path = cyg_path c; owner = owner_path c;
          (socketSt, w1) = os_Stat env path w0;
          (ownerSt, w2) = os_Stat env owner w1 in
      if is_err (err_of socketSt) ErrNotExist \<and> is_err (err_of ownerSt) ErrNotExist then (None, w2)
      else if err_of socketSt \<noteq> None \<or> err_of ownerSt \<noteq> None then
        (Some (ErrNew ''Cygwin socket conflict: socket and owner marker must both exist''), w2)
      else
        (case os_Stat env path w2 of
           (Inl _, w3) \<Rightarrow> (Some (ErrNew ''Cygwin socket conflict: path is not a regular file''), w3)
         | (Inr socketInfo, w3) \<Rightarrow>
             if \<not> f_regular socketInfo then
               (Some (ErrNew ''Cygwin socket conflict: path is not a regular file''), w3)
             else
               (case os_ReadFile env path w3 of
                  (Inl e, w4) \<Rightarrow> (Some (ErrWrap ''read existing socket'' e), w4)
                | (Inr socketData, w4) \<Rightarrow>
                    (case os_ReadFile env owner w4 of
                       (Inl e, w5) \<Rightarrow> (Some (ErrWrap ''read owner marker'' e), w5)
                     | (Inr markerData, w5) \<Rightarrow>
                         (case judge_existing ce socketData markerData of
                            Some e \<Rightarrow> (Some e, w5)
                          | None \<Rightarrow> removeFiles ce c w5)))))"

definition cleanup :: "cyg_env \<Rightarrow> CygwinComponent \<Rightarrow> bytes \<Rightarrow> world \<Rightarrow> world" where
  "cleanup ce c nonce w =
     (case os_ReadFile (ce_os ce) (owner_path c) w of
        (Inl _, w1) \<Rightarrow> w1
      | (Inr data, w1) \<Rightarrow>
          (case ce_Unmarshal ce data of
             None \<Rightarrow> w1
           | Some marker \<Rightarrow>
               if om_Application marker \<noteq> application \<or> om_PID marker \<noteq> ce_Getpid ce \<or>
                  om_Nonce marker \<noteq> hex_EncodeToString nonce
               then w1 else snd (removeFiles ce c w1)))"

section \<open>One connection\<close>

text \<open>
  A connection as the handler sees it: the bytes the peer will send before it stops (a read that
  needs more fails, whether by the deadline or the end of the stream), which writes fail and how
  much of a failed write was sent, the bytes sent so far, whether a deadline is set and whether the
  connection is closed.
\<close>

record conn =
  cn_in :: bytes
  cn_wfault :: "nat \<Rightarrow> nat option"
  cn_writes :: nat
  cn_out :: bytes
  cn_deadline :: bool
  cn_closed :: bool

definition io_ReadFull :: "nat \<Rightarrow> conn \<Rightarrow> bytes option \<times> conn" where
  "io_ReadFull n cn =
     (if length (cn_in cn) < n then (None, cn\<lparr>cn_in := []\<rparr>)
      else (Some (take n (cn_in cn)), cn\<lparr>cn_in := drop n (cn_in cn)\<rparr>))"

definition conn_Write :: "bytes \<Rightarrow> conn \<Rightarrow> bool \<times> conn" where
  "conn_Write d cn =
     (case cn_wfault cn (cn_writes cn) of
        None \<Rightarrow> (True, cn\<lparr>cn_writes := Suc (cn_writes cn), cn_out := cn_out cn @ d\<rparr>)
      | Some k \<Rightarrow> (False, cn\<lparr>cn_writes := Suc (cn_writes cn), cn_out := cn_out cn @ take k d\<rparr>))"

text \<open>\<^verbatim>\<open>handle\<close> up to the handshake's end: whether it succeeded.\<close>

definition handshake :: "int \<Rightarrow> bytes \<Rightarrow> conn \<Rightarrow> bool \<times> conn" where
  "handshake pid nonce cn0 =
     (case io_ReadFull 16 (cn0\<lparr>cn_deadline := True\<rparr>) of
        (None, cn1) \<Rightarrow> (False, cn1)
      | (Some got, cn1) \<Rightarrow>
          if got \<noteq> nonce then (False, cn1)
          else
            (case conn_Write nonce cn1 of
               (False, cn2) \<Rightarrow> (False, cn2)
             | (True, cn2) \<Rightarrow>
                 (case io_ReadFull 12 cn2 of
                    (None, cn3) \<Rightarrow> (False, cn3)
                  | (Some pidData, cn3) \<Rightarrow>
                      (case conn_Write (le_put32 (word_of_int pid) @ drop 4 pidData) cn3 of
                         (False, cn4) \<Rightarrow> (False, cn4)
                       | (True, cn4) \<Rightarrow> (True, cn4\<lparr>cn_deadline := False\<rparr>)))))"

definition cygwin_handle ::
  "CygwinComponent \<Rightarrow> 's serve_agent \<Rightarrow> int \<Rightarrow> bytes \<Rightarrow> conn \<Rightarrow> 's \<Rightarrow> string list outcome \<times> conn \<times> 's"
where
  "cygwin_handle c serve pid nonce cn0 s =
     (case handshake pid nonce cn0 of
        (False, cn1) \<Rightarrow> (Returned [], cn1\<lparr>cn_closed := True\<rparr>, s)
      | (True, cn1) \<Rightarrow>
          (case serve s (cn_in cn1) of
             (ServePanic m, s1) \<Rightarrow> (Panicked m, cn1\<lparr>cn_closed := True\<rparr>, s1)
           | (Served err out, s1) \<Rightarrow>
               (Returned (if serve_failed err \<and> cyg_logger c then [''Cygwin client request failed''] else []),
                cn1\<lparr>cn_in := [], cn_out := cn_out cn1 @ out, cn_closed := True\<rparr>, s1)))"

section \<open>\<^verbatim>\<open>Start\<close>\<close>

record cyworld =
  cyw_os :: world
  cyw_listener :: bool
  cyw_clients :: nat

definition start_nonce :: "cyg_env \<Rightarrow> bytes" where
  "start_nonce ce = map (ce_random ce) [0..<16]"

text \<open>\<^verbatim>\<open>Start\<close> with the listener open, up to its deferred \<^verbatim>\<open>listener.Close()\<close>.\<close>

definition start_listening ::
  "cyg_env \<Rightarrow> CygwinComponent \<Rightarrow> int \<Rightarrow> accept list \<Rightarrow> readiness \<Rightarrow> cyworld \<Rightarrow>
   (goerr option \<times> readiness \<times> cyworld) option" where
  "start_listening ce c port accepts rd w =
     (case ce_rand ce of
        Some e \<Rightarrow> Some (Some (ErrWrap ''create nonce'' e), rd, w)
      | None \<Rightarrow>
          (let nonce = start_nonce ce in
           case writeFiles ce c port nonce (cyw_os w) of
             (Some e, o1) \<Rightarrow> Some (Some e, rd, w\<lparr>cyw_os := o1\<rparr>)
           | (None, o1) \<Rightarrow>
               map_option (\<lambda>(r, n). (r, reportReady None rd,
                   w\<lparr>cyw_os := cleanup ce c nonce o1, cyw_clients := n\<rparr>))
                 (accept_loop ''accept Cygwin client'' accepts (cyw_clients w))))"

definition cygwin_Start ::
  "cyg_env \<Rightarrow> CygwinComponent \<Rightarrow> accept list \<Rightarrow> readiness \<Rightarrow> cyworld \<Rightarrow>
   (goerr option \<times> readiness \<times> cyworld) option" where
  "cygwin_Start ce c accepts rd w =
     map_option (\<lambda>(r, rd1, w1). (r, report_result r rd1, w1))
       (case prepareExisting ce c (cyw_os w) of
          (Some e, o1) \<Rightarrow> Some (Some e, rd, w\<lparr>cyw_os := o1\<rparr>)
        | (None, o1) \<Rightarrow>
            (case os_plain (ce_os ce) (CallMkdirAll (fp_Dir (ce_fp ce) (cyg_path c))) o1 of
               (Some e, o2) \<Rightarrow> Some (Some (ErrWrap ''create socket directory'' e), rd, w\<lparr>cyw_os := o2\<rparr>)
             | (None, o2) \<Rightarrow>
                 (case ce_Listen ce of
                    Inl e \<Rightarrow> Some (Some (ErrWrap ''listen on loopback'' e), rd, w\<lparr>cyw_os := o2\<rparr>)
                  | Inr port \<Rightarrow>
                      map_option (\<lambda>(r, rd1, w1). (r, rd1, w1\<lparr>cyw_listener := False\<rparr>))
                        (start_listening ce c port accepts rd (w\<lparr>cyw_os := o2, cyw_listener := True\<rparr>)))))"

section \<open>The socket description, written and read back\<close>

lemma hex_no_dash: "CHR ''-'' \<notin> set (hex_EncodeToString bs)"
  using hex_Encode_code [of "CHR ''-''" bs] by (auto simp: char_code_def)

lemma hex_no_space: "c \<in> set (hex_EncodeToString bs) \<Longrightarrow> \<not> isSpace c"
  using hex_Encode_code [of c bs] by (auto simp: isSpace_def)

lemma nonce_16:
  assumes "length nonce = 16"
  obtains a0 a1 a2 a3 b0 b1 b2 b3 c0 c1 c2 c3 d0 d1 d2 d3
  where "nonce = [a0, a1, a2, a3, b0, b1, b2, b3, c0, c1, c2, c3, d0, d1, d2, d3]"
  using assms by (force simp: length_Suc_conv eval_nat_numeral)

definition nonce_words :: "bytes \<Rightarrow> string list" where
  "nonce_words nonce = map (\<lambda>i. hex_EncodeToString [nonce ! (i + 3), nonce ! (i + 2), nonce ! (i + 1), nonce ! i]) [0, 4, 8, 12]"

lemma parse_words_nonce: "length nonce = 16 \<Longrightarrow> parse_words (nonce_words nonce) [] = Some nonce"
proof (erule nonce_16)
  fix a0 a1 a2 a3 b0 b1 b2 b3 c0 c1 c2 c3 d0 d1 d2 d3
  assume "nonce = [a0, a1, a2, a3, b0, b1, b2, b3, c0, c1, c2, c3, d0, d1, d2, d3]"
  then show ?thesis by (simp add: nonce_words_def del: hex_EncodeToString.simps)
qed

lemma nonceText_split: "strSplit (nonceText nonce) (CHR ''-'') = nonce_words nonce"
  unfolding nonceText_def nonce_words_def
  by (rule strSplit_strJoin) (simp_all add: hex_no_dash del: hex_EncodeToString.simps)

lemma strJoin_chars: "c \<in> set (strJoin ps sep) \<Longrightarrow> c \<in> set sep \<or> (\<exists>p\<in>set ps. c \<in> set p)"
  by (induction ps sep rule: strJoin.induct) auto

lemma nonceText_no_space: "c \<in> set (nonceText nonce) \<Longrightarrow> \<not> isSpace c"
proof -
  assume "c \<in> set (nonceText nonce)"
  then have "c = CHR ''-'' \<or> (\<exists>bs. c \<in> set (hex_EncodeToString bs))"
    unfolding nonceText_def by (auto dest!: strJoin_chars simp del: hex_EncodeToString.simps)
  then show ?thesis using hex_no_space by (auto simp: isSpace_def char_code_def)
qed

lemma nonceText_ne: "nonceText nonce \<noteq> []"
  by (simp add: nonceText_def)

lemma Fields_socket_text:
  assumes "0 \<le> port"
  shows "Fields (socket_text port nonce) = [''!<socket'', CHR ''>'' # nat_digits (nat port), ''s'', nonceText nonce]"
proof -
  have st: "socket_text port nonce = ''!<socket'' @ CHR '' '' #
      ((CHR ''>'' # nat_digits (nat port)) @ CHR '' '' # (''s'' @ CHR '' '' # nonceText nonce))"
    using assms by (simp add: socket_text_def Itoa_nat)
  have sp: "isSpace (CHR '' '')" by (simp add: isSpace_def char_code_def)
  have w0: "\<forall>c\<in>set ''!<socket''. \<not> isSpace c" by (simp add: isSpace_def char_code_def)
  have w1: "\<forall>c\<in>set (CHR ''>'' # nat_digits (nat port)). \<not> isSpace c"
    using nat_digits_are_digits digit_not_space by (auto simp: isSpace_def char_code_def)
  have w2: "\<forall>c\<in>set ''s''. \<not> isSpace c" by (simp add: isSpace_def char_code_def)
  have w3: "\<forall>c\<in>set (nonceText nonce). \<not> isSpace c" using nonceText_no_space by blast
  show ?thesis unfolding st
    by (subst Fields_word_space [OF _ w0 sp], simp, subst Fields_word_space [OF _ w1 sp], simp,
        subst Fields_word_space [OF _ w2 sp], simp, subst Fields_word [OF nonceText_ne w3], simp)
qed

lemma parse_socket_text:
  assumes "length nonce = 16" "0 \<le> port" "port < 2 ^ 63"
  shows "parseSocketNonce (socket_text port nonce) = Some nonce"
proof -
  have "Atoi (nat_digits (nat port)) \<noteq> None" using assms by (simp add: Atoi_nat_digits)
  moreover have "TrimPrefix (CHR ''>'' # nat_digits (nat port)) ''>'' = nat_digits (nat port)"
    by (simp add: TrimPrefix_def HasPrefix_def)
  moreover have "length (nonce_words nonce) = 4" by (simp add: nonce_words_def)
  ultimately show ?thesis
    using assms by (simp add: parseSocketNonce_def Fields_socket_text nonceText_split parse_words_nonce Let_def)
qed

lemma parse_words_length:
  "parse_words ws out = Some bs \<Longrightarrow> length bs = length out + 4 * length ws"
  by (induction ws out rule: parse_words.induct) (auto split: option.splits list.splits)

lemma parseSocketNonce_length: "parseSocketNonce v = Some bs \<Longrightarrow> length bs = 16"
  using parse_words_length
  by (fastforce simp: parseSocketNonce_def Let_def split: list.splits if_splits)

section \<open>Replacing a file\<close>

definition cygwin_tmp :: "filepath_ops \<Rightarrow> os_env \<Rightarrow> string \<Rightarrow> world \<Rightarrow> string" where
  "cygwin_tmp fp env p w = oe_temp env (length (w_trace w)) (fp_Dir fp p) (cyg_pattern fp p)"

lemma atomicWrite_tmp_replaced:
  assumes eq: "atomicWrite_tmp env t p d w = (r, w')" and ne: "p \<noteq> t"
    and empty: "w_files w t = Some \<lparr>f_data = [], f_regular = True, f_attrs = 0\<rparr>"
  shows "replaced t p d w r w'"
proof -
  let ?w1 = "snd (os_plain env (CallChmod t) w)"
  let ?w2 = "snd (os_Write env t d ?w1)"
  let ?w3 = "snd (os_plain env (CallClose t) ?w2)"
  note plain = scratch_trans [OF _ scratch_plain]
  have s1: "scratch t w ?w1" by (rule scratch_plain)
  have s2: "scratch t w ?w2" using s1 scratch_Write by (rule scratch_trans)
  have s3: "scratch t w ?w3" using s2 by (rule plain)
  have full: "w_files ?w3 t = Some \<lparr>f_data = d, f_regular = True, f_attrs = 0\<rparr>"
    if "fst (os_Write env t d ?w1) = None"
    using that empty by (auto simp: os_Write_def Let_def split: option.splits)
  have renamed: "replaced t p d w (fst (os_Rename env t p ?w3)) (snd (os_Rename env t p ?w3))"
    if "fst (os_Write env t d ?w1) = None"
    using replaced_Rename [OF s3 full [OF that] _ _ ne, of d env] by simp
  show ?thesis
    using eq unfolding atomicWrite_tmp_def Let_def
    by (elim try_os_elim) (use renamed in \<open>auto intro: replaced_failed [OF sym] s1 s2 s3 plain\<close>)
qed

lemma atomicWrite_replaces:
  assumes "cygwin_tmp fp env p w \<noteq> p"
  shows "replaces env (cygwin_tmp fp env p w) p d w (atomicWrite fp env p d w)"
proof -
  let ?t = "cygwin_tmp fp env p w"
  let ?x = "os_CreateTemp env (fp_Dir fp p) (cyg_pattern fp p) w"
  have s: "scratch ?t w (snd ?x)" unfolding cygwin_tmp_def by (rule scratch_CreateTemp)
  show ?thesis
  proof (cases rule: CreateTemp_cases [of env "fp_Dir fp p" "cyg_pattern fp p" w])
    case err
    then show ?thesis using s by (simp add: atomicWrite_def replaces_def split_beta)
  next
    case ok
    note ok = ok [folded cygwin_tmp_def]
    obtain r w3 where wt: "atomicWrite_tmp env ?t p d (snd ?x) = (r, w3)" by fastforce
    have eq: "atomicWrite fp env p d w = (r, snd (os_Remove env ?t w3))"
      using ok(1) wt by (simp add: atomicWrite_def split_beta)
    have "replaced ?t p d (snd ?x) r w3" using atomicWrite_tmp_replaced [OF wt] assms ok(2) by simp
    then have "replaced ?t p d w r w3" by (rule replaced_trans [OF s])
    then show ?thesis using eq by (auto simp: replaces_def)
  qed
qed

lemma atomicWrite_frame: "frame {p, cygwin_tmp fp env p w} w (snd (atomicWrite fp env p d w))"
proof -
  have f: "frame {p, t} v (snd (atomicWrite_tmp env t p d v))" for t v
    by (auto simp: atomicWrite_tmp_def try_os_def frame_def os_Write_def os_Rename_def Let_def
        split: option.splits)
  have g: "frame {p, t} v (snd (os_Remove env t (snd (atomicWrite_tmp env t p d v))))" for t v
    using f [of t v] os_Remove_files [of env t "snd (atomicWrite_tmp env t p d v)"] by (auto simp: frame_def)
  show ?thesis
  proof (cases rule: CreateTemp_cases [of env "fp_Dir fp p" "cyg_pattern fp p" w])
    case err
    then show ?thesis by (simp add: atomicWrite_def split_beta frame_def)
  next
    case ok
    note ok = ok [folded cygwin_tmp_def]
    have "frame {cygwin_tmp fp env p w} w (snd (os_CreateTemp env (fp_Dir fp p) (cyg_pattern fp p) w))"
      using scratch_CreateTemp [of env w "fp_Dir fp p" "cyg_pattern fp p"]
      by (simp add: scratch_def cygwin_tmp_def)
    then have "frame {p, cygwin_tmp fp env p w} w (snd (os_CreateTemp env (fp_Dir fp p) (cyg_pattern fp p) w))"
      by (rule frame_mono) simp
    from frame_trans [OF this g] show ?thesis using ok(1) by (simp add: atomicWrite_def split_beta)
  qed
qed

interpretation cygwin_writer: atomic_writer "atomicWrite fp" "cygwin_tmp fp" for fp
  by (rule atomic_writerI) (rule atomicWrite_replaces atomicWrite_frame, assumption?)+

section \<open>The two files\<close>

lemma owner_ne_path [simp]: "owner_path c \<noteq> cyg_path c" "cyg_path c \<noteq> owner_path c"
  by (simp_all add: owner_path_def)

lemma remove_one:
  assumes "os_Remove env p w = (r, w')"
  shows "frame {p} w w'" "r = None \<or> is_err r ErrNotExist \<Longrightarrow> w_files w' p = None"
  using assms
  by (auto simp: os_Remove_def frame_def fault_of_def Let_def split: option.splits if_splits)

lemma attrs_frame: "frame {p} w (snd (SetFileAttributes env p a w))"
  by (simp add: frame_def SetFileAttributes_other)

lemma remove_each_frame: "frame (set ps) w (snd (remove_each ce ps w))"
proof (induction ps arbitrary: w)
  case Nil
  show ?case by simp
next
  case (Cons p ps)
  let ?w1 = "if ce_UTF16PtrFromString ce p = None
    then snd (SetFileAttributes (ce_os ce) p FILE_ATTRIBUTE_NORMAL w) else w"
  obtain r w2 where r: "os_Remove (ce_os ce) p ?w1 = (r, w2)" by fastforce
  have "frame {p} w ?w1" by (simp add: attrs_frame)
  then have "frame {p} w w2" using remove_one(1) [OF r] by (rule frame_trans)
  then have 1: "frame (set (p # ps)) w w2" by (rule frame_mono) simp
  have "frame (set (p # ps)) w2 (snd (remove_each ce ps w2))" using Cons by (rule frame_mono) auto
  with 1 show ?case using r by (auto simp: Let_def split: option.splits intro: frame_trans)
qed

lemma remove_each_gone:
  "remove_each ce ps w = (None, w') \<Longrightarrow> distinct ps \<Longrightarrow> p \<in> set ps \<Longrightarrow> w_files w' p = None"
proof (induction ps arbitrary: w)
  case Nil
  then show ?case by simp
next
  case (Cons q ps)
  let ?w1 = "if ce_UTF16PtrFromString ce q = None
    then snd (SetFileAttributes (ce_os ce) q FILE_ATTRIBUTE_NORMAL w) else w"
  obtain r w2 where r: "os_Remove (ce_os ce) q ?w1 = (r, w2)" by fastforce
  with Cons.prems have rest: "remove_each ce ps w2 = (None, w')" and gone: "w_files w2 q = None"
    using remove_one(2) [OF r] by (auto simp: Let_def split: option.splits if_splits)
  show ?case
  proof (cases "p = q")
    case True
    then show ?thesis using remove_each_frame [of ps w2 ce] rest gone Cons.prems by (simp add: frame_def)
  next
    case False
    then show ?thesis using Cons rest by simp
  qed
qed

lemma removeFiles_frame: "frame {cyg_path c, owner_path c} w (snd (removeFiles ce c w))"
  using remove_each_frame [of "[cyg_path c, owner_path c]" w ce] by (simp add: removeFiles_def)

lemma removeFiles_gone:
  "removeFiles ce c w = (None, w') \<Longrightarrow> w_files w' (cyg_path c) = None \<and> w_files w' (owner_path c) = None"
  using remove_each_gone [of ce "[cyg_path c, owner_path c]" w w'] by (simp add: removeFiles_def)

lemma removeFiles_quiet:
  assumes "\<And>k call. oe_fault (ce_os ce) k call = None"
  shows "fst (removeFiles ce c w) = None"
  using assms
  by (auto simp: removeFiles_def os_Remove_def fault_of_def Let_def split: option.splits if_splits)

lemma Stat_facts:
  assumes "os_Stat env p w = (r, w')"
  shows "w_files w' = w_files w" "r = Inr n \<Longrightarrow> w_files w p = Some n"
    "is_err (err_of r) ErrNotExist \<Longrightarrow> w_files w p = None"
  using assms by (auto simp: os_Stat_def fault_of_def Let_def split: option.splits)

lemma ReadFile_facts:
  assumes "os_ReadFile env p w = (r, w')"
  shows "w_files w' = w_files w" "r = Inr d \<Longrightarrow> \<exists>n. w_files w p = Some n \<and> f_data n = d"
  using assms by (auto simp: os_ReadFile_def fault_of_def Let_def split: option.splits)

text \<open>What makes an existing pair of files stale: ours, consistent, and the owner gone.\<close>

definition stale :: "cyg_env \<Rightarrow> bytes \<Rightarrow> bytes \<Rightarrow> bool" where
  "stale ce socketData markerData \<longleftrightarrow>
     (\<exists>marker nonce. ce_Unmarshal ce markerData = Some marker \<and> om_Version marker = 1 \<and>
        om_Application marker = application \<and> parseSocketNonce (string_of socketData) = Some nonce \<and>
        om_Nonce marker = hex_EncodeToString nonce \<and> \<not> processAlive ce (om_PID marker))"

lemma judge_existing_None: "judge_existing ce s m = None \<longleftrightarrow> stale ce s m"
  by (auto simp: judge_existing_def stale_def split: option.splits)

lemma prepareExisting_cases:
  obtains (keeps) r w' where "prepareExisting ce c w = (r, w')" "w_files w' = w_files w"
      "r = None \<Longrightarrow> w_files w (cyg_path c) = None \<and> w_files w (owner_path c) = None"
  | (removes) s m w' where "w_files w (cyg_path c) = Some s" "w_files w (owner_path c) = Some m"
      "stale ce (f_data s) (f_data m)" "w_files w' = w_files w"
      "prepareExisting ce c w = removeFiles ce c w'"
proof -
  let ?p = "cyg_path c" and ?o = "owner_path c" and ?env = "ce_os ce"
  obtain s1 w1 where 1: "os_Stat ?env ?p w = (s1, w1)" by fastforce
  obtain s2 w2 where 2: "os_Stat ?env ?o w1 = (s2, w2)" by fastforce
  obtain s3 w3 where 3: "os_Stat ?env ?p w2 = (s3, w3)" by fastforce
  obtain s4 w4 where 4: "os_ReadFile ?env ?p w3 = (s4, w4)" by fastforce
  obtain s5 w5 where 5: "os_ReadFile ?env ?o w4 = (s5, w5)" by fastforce
  note S = Stat_facts [OF 1] Stat_facts [OF 2] Stat_facts [OF 3] ReadFile_facts [OF 4] ReadFile_facts [OF 5]
  have files: "w_files w1 = w_files w" "w_files w2 = w_files w" "w_files w3 = w_files w"
      "w_files w4 = w_files w" "w_files w5 = w_files w"
    using S by simp_all
  have eq: "prepareExisting ce c w =
     (if is_err (err_of s1) ErrNotExist \<and> is_err (err_of s2) ErrNotExist then (None, w2)
      else if err_of s1 \<noteq> None \<or> err_of s2 \<noteq> None then
        (Some (ErrNew ''Cygwin socket conflict: socket and owner marker must both exist''), w2)
      else
        (case s3 of
           Inl _ \<Rightarrow> (Some (ErrNew ''Cygwin socket conflict: path is not a regular file''), w3)
         | Inr info \<Rightarrow>
             if \<not> f_regular info then (Some (ErrNew ''Cygwin socket conflict: path is not a regular file''), w3)
             else
               (case s4 of
                  Inl e \<Rightarrow> (Some (ErrWrap ''read existing socket'' e), w4)
                | Inr d \<Rightarrow>
                    (case s5 of
                       Inl e \<Rightarrow> (Some (ErrWrap ''read owner marker'' e), w5)
                     | Inr m \<Rightarrow> (case judge_existing ce d m of Some e \<Rightarrow> (Some e, w5) | None \<Rightarrow> removeFiles ce c w5)))))"
    unfolding prepareExisting_def Let_def by (simp add: 1 2 3 4 5 split: sum.splits)
  show thesis
  proof (cases "\<exists>n d m. err_of s1 = None \<and> err_of s2 = None \<and> s3 = Inr n \<and> f_regular n \<and> s4 = Inr d \<and> s5 = Inr m \<and> stale ce d m")
    case True
    then obtain n d m where T: "err_of s1 = None" "err_of s2 = None" "s3 = Inr n" "f_regular n"
      "s4 = Inr d" "s5 = Inr m" "stale ce d m" by blast
    from T(5,6) S files obtain s o1 where "w_files w ?p = Some s" "f_data s = d" "w_files w ?o = Some o1" "f_data o1 = m"
      by auto
    moreover have "judge_existing ce d m = None" using T(7) by (simp add: judge_existing_None)
    ultimately show ?thesis using T files(5) eq by (intro removes [of s o1 w5]) simp_all
  next
    case False
    then have "\<exists>r w'. prepareExisting ce c w = (r, w') \<and> w_files w' = w_files w \<and>
        (r = None \<longrightarrow> is_err (err_of s1) ErrNotExist \<and> is_err (err_of s2) ErrNotExist)"
      unfolding eq using files by (auto split: sum.splits option.splits simp: judge_existing_None)
    then show ?thesis using S files by (metis keeps)
  qed
qed

text \<open>The names \<^verbatim>\<open>os.CreateTemp\<close> picks are never those of the two files.\<close>

definition fresh_temps :: "cyg_env \<Rightarrow> CygwinComponent \<Rightarrow> bool" where
  "fresh_temps ce c \<longleftrightarrow>
     (\<forall>k dir pat. oe_temp (ce_os ce) k dir pat \<noteq> cyg_path c \<and> oe_temp (ce_os ce) k dir pat \<noteq> owner_path c)"

lemma fresh_cygwin_tmp:
  "fresh_temps ce c \<Longrightarrow> cygwin_tmp fp (ce_os ce) p w \<noteq> cyg_path c \<and> cygwin_tmp fp (ce_os ce) p w \<noteq> owner_path c"
  by (simp add: fresh_temps_def cygwin_tmp_def)

text \<open>The pair of files a component publishes: the socket description and the marker that matches it.\<close>

definition published :: "cyg_env \<Rightarrow> CygwinComponent \<Rightarrow> int \<Rightarrow> bytes \<Rightarrow> files \<Rightarrow> bool" where
  "published ce c port nonce fs \<longleftrightarrow>
     (\<exists>s m. fs (cyg_path c) = Some s \<and> f_data s = bytes_of (socket_text port nonce) \<and> f_regular s \<and>
        f_attrs s = FILE_ATTRIBUTE_SYSTEM + FILE_ATTRIBUTE_READONLY \<and>
        fs (owner_path c) = Some m \<and> f_data m = json_Marshal (own_marker ce nonce))"

lemma writeFiles_publishes:
  assumes fresh: "fresh_temps ce c" and w: "writeFiles ce c port nonce w = (None, w')"
  shows "published ce c port nonce (w_files w')"
proof -
  let ?env = "ce_os ce" and ?fp = "ce_fp ce" and ?p = "cyg_path c" and ?o = "owner_path c"
  obtain r1 w1 where 1: "atomicWrite ?fp ?env ?p (bytes_of (socket_text port nonce)) w = (r1, w1)" by fastforce
  obtain r2 w2 where 2: "atomicWrite ?fp ?env ?o (json_Marshal (own_marker ce nonce)) w1 = (r2, w2)" by fastforce
  have ok: "r1 = None" "r2 = None" and a: "SetFileAttributes ?env ?p (FILE_ATTRIBUTE_SYSTEM + FILE_ATTRIBUTE_READONLY) w2 = (None, w')"
    using w 1 2 by (auto simp: writeFiles_def Let_def try_os_def prod_eq_iff split: option.splits)
  obtain s where s: "w_files w1 ?p = Some s" "f_data s = bytes_of (socket_text port nonce)" "f_regular s"
    using cygwin_writer.wr_success fresh_cygwin_tmp [OF fresh] 1 ok(1) by blast
  obtain m where m: "w_files w2 ?o = Some m" "f_data m = json_Marshal (own_marker ce nonce)"
    using cygwin_writer.wr_success fresh_cygwin_tmp [OF fresh] 2 ok(2) by blast
  have "w_files w2 ?p = w_files w1 ?p"
    using cygwin_writer.wr_frame [of ?o ?fp ?env w1 "json_Marshal (own_marker ce nonce)"] 2 fresh_cygwin_tmp [OF fresh]
    by (simp add: frame_def) (metis owner_ne_path(2))
  then show ?thesis using a s m
    by (auto simp: published_def SetFileAttributes_def Let_def split: option.splits)
qed

lemma published_stale:
  assumes "published ce c port nonce fs" "length nonce = 16" "0 \<le> port" "port < 2 ^ 63"
    and "ce_Unmarshal ce' (json_Marshal (own_marker ce nonce)) = Some (own_marker ce nonce)"
  shows "\<exists>s m. fs (cyg_path c) = Some s \<and> fs (owner_path c) = Some m \<and> f_regular s \<and>
    (stale ce' (f_data s) (f_data m) \<longleftrightarrow> \<not> processAlive ce' (ce_Getpid ce))"
  using assms parse_socket_text [OF assms(2-4)]
  by (auto simp: published_def stale_def own_marker_def)

definition quiet_os :: "cyg_env \<Rightarrow> bool" where
  "quiet_os ce \<longleftrightarrow> (\<forall>k call. oe_fault (ce_os ce) k call = None)"

lemma quiet_os_fault [simp]: "quiet_os ce \<Longrightarrow> fault_of (ce_os ce) call w = None"
  by (simp add: quiet_os_def fault_of_def)

lemma prepareExisting_quiet:
  assumes "quiet_os ce" "w_files w (cyg_path c) = Some s" "w_files w (owner_path c) = Some m" "f_regular s"
  shows "\<exists>w'. w_files w' = w_files w \<and> prepareExisting ce c w =
    (case judge_existing ce (f_data s) (f_data m) of Some e \<Rightarrow> (Some e, w') | None \<Rightarrow> removeFiles ce c w')"
  using assms by (simp add: prepareExisting_def os_Stat_def os_ReadFile_def Let_def)
    (rule exI, rule conjI [rotated], rule refl, simp)

lemma cleanup_frame: "frame {cyg_path c, owner_path c} w (cleanup ce c nonce w)"
proof -
  obtain r w1 where r: "os_ReadFile (ce_os ce) (owner_path c) w = (r, w1)" by fastforce
  have "frame {cyg_path c, owner_path c} w w1" using ReadFile_facts(1) [OF r] by (simp add: frame_def)
  then show ?thesis using r removeFiles_frame frame_trans
    by (auto simp: cleanup_def split: sum.splits option.splits)
qed

lemma cleanup_published:
  assumes "published ce c port nonce (w_files w)" "quiet_os ce"
    and "ce_Unmarshal ce (json_Marshal (own_marker ce nonce)) = Some (own_marker ce nonce)"
  shows "w_files (cleanup ce c nonce w) (cyg_path c) = None \<and> w_files (cleanup ce c nonce w) (owner_path c) = None"
proof -
  obtain m where m: "w_files w (owner_path c) = Some m" "f_data m = json_Marshal (own_marker ce nonce)"
    using assms(1) by (auto simp: published_def)
  obtain w1 where "os_ReadFile (ce_os ce) (owner_path c) w = (Inr (f_data m), w1)"
    using m assms(2) by (simp add: os_ReadFile_def Let_def)
  then have c: "cleanup ce c nonce w = snd (removeFiles ce c w1)"
    using m assms(3) by (simp add: cleanup_def own_marker_def)
  have "fst (removeFiles ce c w1) = None" using assms(2) by (intro removeFiles_quiet) (simp add: quiet_os_def)
  then show ?thesis using c removeFiles_gone [of ce c w1 "snd (removeFiles ce c w1)"] by (simp add: prod_eq_iff)
qed

section \<open>Start as a ready component\<close>

definition cygwin_run ::
  "cyg_env \<times> CygwinComponent \<times> accept list \<times> cyworld \<Rightarrow> readiness \<Rightarrow> (goerr option \<times> readiness) option"
where
  "cygwin_run = (\<lambda>(ce, c, accepts, w) rd. map_option (\<lambda>(r, rd1, w1). (r, rd1)) (cygwin_Start ce c accepts rd w))"

lemma start_listening_cases:
  assumes "start_listening ce c port accepts rd w = Some (r, rd1, w1)"
  obtains (early) e where "r = Some e" "rd1 = rd" "cyw_listener w1 = cyw_listener w"
  | (ran) o1 n where "rd1 = reportReady None rd" "writeFiles ce c port (start_nonce ce) (cyw_os w) = (None, o1)"
      "w1 = w\<lparr>cyw_os := cleanup ce c (start_nonce ce) o1, cyw_clients := n\<rparr>"
proof -
  obtain f o1 where f: "writeFiles ce c port (start_nonce ce) (cyw_os w) = (f, o1)" by fastforce
  show thesis
  proof (cases "ce_rand ce = None \<and> f = None")
    case False
    then have "\<exists>e. r = Some e \<and> rd1 = rd \<and> cyw_listener w1 = cyw_listener w"
      using assms f by (cases "ce_rand ce"; cases f) (auto simp: start_listening_def)
    then show ?thesis using early by blast
  next
    case True
    then obtain n where "rd1 = reportReady None rd"
        "w1 = w\<lparr>cyw_os := cleanup ce c (start_nonce ce) o1, cyw_clients := n\<rparr>"
      using assms f by (auto simp: start_listening_def)
    then show ?thesis using f True by (intro ran) simp_all
  qed
qed

lemma cygwin_Start_cases:
  assumes "cygwin_Start ce c accepts rd w = Some (r, rd', w')"
  obtains (early) e where "r = Some e" "rd' = reportReady (Some e) rd" "cyw_listener w' = cyw_listener w \<or> \<not> cyw_listener w'"
  | (ran) port o1 o2 where "rd' = report_result r (reportReady None rd)" "ce_Listen ce = Inr port"
      "writeFiles ce c port (start_nonce ce) o1 = (None, o2)"
      "cyw_os w' = cleanup ce c (start_nonce ce) o2" "\<not> cyw_listener w'"
proof -
  obtain p o1 where 1: "prepareExisting ce c (cyw_os w) = (p, o1)" by fastforce
  obtain q o2 where 2: "os_plain (ce_os ce) (CallMkdirAll (fp_Dir (ce_fp ce) (cyg_path c))) o1 = (q, o2)" by fastforce
  note S = assms [unfolded cygwin_Start_def 1]
  show thesis
  proof (cases "p = None \<and> q = None \<and> (\<exists>port. ce_Listen ce = Inr port)")
    case False
    then consider x where "p = Some x" | x where "p = None" "q = Some x"
      | x where "p = None" "q = None" "ce_Listen ce = Inl x"
      by (cases p; cases q; cases "ce_Listen ce") auto
    then have "\<exists>e. Some e = r \<and> reportReady (Some e) rd = rd' \<and> (\<exists>o3. w\<lparr>cyw_os := o3\<rparr> = w')"
    proof cases
      case 1
      then show ?thesis using S by (simp, blast)
    next
      case 2
      then show ?thesis using S \<open>os_plain _ _ _ = _\<close> by (simp, blast)
    next
      case 3
      then show ?thesis using S \<open>os_plain _ _ _ = _\<close> by (simp, blast)
    qed
    then show ?thesis using early by (metis cyworld.select_convs(2) cyworld.surjective cyworld.update_convs(1))
  next
    case True
    then obtain port where T: "p = None" "q = None" "ce_Listen ce = Inr port" by blast
    let ?w = "w\<lparr>cyw_os := o2, cyw_listener := True\<rparr>"
    obtain rd1 w1 where sl: "start_listening ce c port accepts rd ?w = Some (r, rd1, w1)"
        and e: "rd' = report_result r rd1" "w' = w1\<lparr>cyw_listener := False\<rparr>"
      using S 2 T by auto
    from sl show ?thesis
    proof (cases rule: start_listening_cases)
      case (early x)
      then show ?thesis using e by (intro that(1) [of x]) simp_all
    next
      case (ran o3 n)
      then show ?thesis using e T(3) by (intro that(2) [of port o2 o3]) simp_all
    qed
  qed
qed

interpretation cygwin_ready: ready_component cygwin_run
proof (rule ready_componentI)
  fix x r rd assume "cygwin_run x fresh_ready = Some (r, rd)"
  then obtain ce c accepts w w' where "cygwin_Start ce c accepts fresh_ready w = Some (r, rd, w')"
    by (cases x) (auto simp: cygwin_run_def)
  then show "(\<exists>e. r = Some e \<and> rd = reportReady (Some e) fresh_ready) \<or>
      rd = report_result r (reportReady None fresh_ready)"
    by (cases rule: cygwin_Start_cases) auto
qed

section \<open>Properties\<close>

text \<open>C17 (socket_nonce_roundtrip). The socket description \<^verbatim>\<open>writeFiles\<close> publishes reads back: for every
  16-byte nonce and every port, \<^verbatim>\<open>parseSocketNonce\<close> of the text is that nonce, byte order included;
  and whatever text it accepts, it returns 16 bytes.\<close>

theorem socket_nonce_roundtrip:
  assumes "length nonce = 16" and "0 \<le> port" and "port < 65536"
  shows "parseSocketNonce (socket_text port nonce) = Some nonce \<and>
    (\<forall>v bs. parseSocketNonce v = Some bs \<longrightarrow> length bs = 16)"
  using assms parse_socket_text [of nonce port] parseSocketNonce_length by simp

definition sample_nonce :: bytes where
  "sample_nonce = [1, 2, 3, 4, 5, 6, 7, 8, 9, 10, 11, 12, 13, 14, 15, 255]"

theorem socket_nonce_roundtrip_witness:
  "parseSocketNonce (socket_text 50000 sample_nonce) = Some sample_nonce"
  using socket_nonce_roundtrip [of sample_nonce 50000] by (simp add: sample_nonce_def)


definition sample_cyg :: CygwinComponent where
  "sample_cyg = \<lparr>cyg_path = ''C:'' @ [bslash] @ ''s.sock'', cyg_handshakeTimeout = 5, cyg_logger = True\<rparr>"

definition sample_cyg_env :: cyg_env where
  "sample_cyg_env =
     \<lparr>ce_os = quiet_env, ce_fp = sample_fp,
      ce_Unmarshal = (\<lambda>d. let m = \<lparr>om_Version = 1, om_Application = application, om_PID = 42,
          om_Nonce = hex_EncodeToString sample_nonce\<rparr> in if d = json_Marshal m then Some m else None),
      ce_UTF16PtrFromString = (\<lambda>_. None), ce_Getpid = 42,
      ce_OpenProcess = (\<lambda>_. Some (ErrErrno 87)), ce_Listen = Inr 50000, ce_rand = None,
      ce_random = (\<lambda>i. sample_nonce ! i)\<rparr>"

lemma sample_fresh: "fresh_temps sample_cyg_env sample_cyg"
  by (auto simp: fresh_temps_def sample_cyg_env_def sample_cyg_def quiet_env_def owner_path_def dest: arg_cong [of _ _ rev])

lemma sample_quiet: "quiet_os sample_cyg_env"
  by (simp add: quiet_os_def sample_cyg_env_def quiet_env_def)

lemma quiet_atomicWrite: "fst (atomicWrite fp quiet_env p d w) = None"
  by (simp add: atomicWrite_def atomicWrite_tmp_def try_os_def os_CreateTemp_def os_Write_def
      os_Rename_def os_plain_def Let_def)

lemma sample_writeFiles: "fst (writeFiles sample_cyg_env sample_cyg port nonce w) = None"
proof -
  have fresh: "cygwin_tmp fp quiet_env p v \<noteq> cyg_path sample_cyg" "cygwin_tmp fp quiet_env p v \<noteq> owner_path sample_cyg" for fp p v
    using fresh_cygwin_tmp [OF sample_fresh] by (simp_all add: sample_cyg_env_def)
  let ?a = "\<lambda>p d v. atomicWrite sample_fp quiet_env p d v"
  have "\<exists>n. w_files (snd (?a (cyg_path sample_cyg) d w)) (cyg_path sample_cyg) = Some n" for d
    using cygwin_writer.wr_success [OF fresh(1)] quiet_atomicWrite by (metis prod.collapse)
  moreover have "w_files (snd (?a (owner_path sample_cyg) d v)) (cyg_path sample_cyg) = w_files v (cyg_path sample_cyg)" for d v
    using cygwin_writer.wr_frame [of "owner_path sample_cyg" sample_fp quiet_env v d] fresh
    by (simp add: frame_def) (metis owner_ne_path(2))
  ultimately show ?thesis
    using quiet_atomicWrite
    by (auto simp: writeFiles_def sample_cyg_env_def try_os_def Let_def SetFileAttributes_def split: option.splits)
qed


text \<open>C12 (cygwin_takeover). A socket left behind by a component that was killed is taken over exactly
  when its process is gone: on the files a successful \<^verbatim>\<open>writeFiles\<close> of one process left,
  \<^verbatim>\<open>prepareExisting\<close> of another process (no call failing) removes both files and returns nil if the
  first process is no longer running, and otherwise refuses and changes no file.\<close>

theorem cygwin_takeover:
  assumes "fresh_temps ce c" and "writeFiles ce c port nonce w = (None, w')"
    and "length nonce = 16" and "0 \<le> port" and "port < 65536" and "quiet_os ce'"
    and "ce_Unmarshal ce' (json_Marshal (own_marker ce nonce)) = Some (own_marker ce nonce)"
  shows "case prepareExisting ce' c w' of (r, w'') \<Rightarrow>
    if processAlive ce' (ce_Getpid ce) then r \<noteq> None \<and> w_files w'' = w_files w'
    else r = None \<and> w_files w'' (cyg_path c) = None \<and> w_files w'' (owner_path c) = None"
proof -
  have "port < 2 ^ 63" using assms(5) by simp
  from published_stale [OF writeFiles_publishes [OF assms(1,2)] assms(3,4) this assms(7)]
  obtain s m where sm: "w_files w' (cyg_path c) = Some s" "w_files w' (owner_path c) = Some m" "f_regular s"
    "stale ce' (f_data s) (f_data m) \<longleftrightarrow> \<not> processAlive ce' (ce_Getpid ce)" by blast
  obtain w1 where w1: "w_files w1 = w_files w'" "prepareExisting ce' c w' =
      (case judge_existing ce' (f_data s) (f_data m) of Some e \<Rightarrow> (Some e, w1) | None \<Rightarrow> removeFiles ce' c w1)"
    using prepareExisting_quiet [OF assms(6) sm(1-3)] by blast
  show ?thesis
  proof (cases "processAlive ce' (ce_Getpid ce)")
    case True
    then obtain e where "judge_existing ce' (f_data s) (f_data m) = Some e" using sm(4) judge_existing_None by blast
    then show ?thesis using w1 True by simp
  next
    case False
    then have j: "judge_existing ce' (f_data s) (f_data m) = None" using sm(4) by (simp add: judge_existing_None)
    have "fst (removeFiles ce' c w1) = None" using assms(6) by (intro removeFiles_quiet) (simp add: quiet_os_def)
    then show ?thesis using w1 j False removeFiles_gone [of ce' c w1] by (cases "removeFiles ce' c w1") simp
  qed
qed

theorem cygwin_takeover_witness:
  "\<exists>w' w''. writeFiles sample_cyg_env sample_cyg 50000 sample_nonce empty_world = (None, w') \<and>
    prepareExisting sample_cyg_env sample_cyg w' = (None, w'') \<and>
    w_files w'' (cyg_path sample_cyg) = None \<and> w_files w'' (owner_path sample_cyg) = None"
proof -
  obtain w' where w': "writeFiles sample_cyg_env sample_cyg 50000 sample_nonce empty_world = (None, w')"
    using sample_writeFiles by (metis prod.collapse)
  have n: "length sample_nonce = 16" by (simp add: sample_nonce_def)
  have u: "ce_Unmarshal sample_cyg_env (json_Marshal (own_marker sample_cyg_env sample_nonce)) =
      Some (own_marker sample_cyg_env sample_nonce)"
    by (simp add: sample_cyg_env_def own_marker_def Let_def)
  have dead: "\<not> processAlive sample_cyg_env (ce_Getpid sample_cyg_env)"
    by (simp add: processAlive_def sample_cyg_env_def)
  from cygwin_takeover [OF sample_fresh w' n _ _ sample_quiet u] w' dead show ?thesis
    by (cases "prepareExisting sample_cyg_env sample_cyg w'") simp
qed

text \<open>(cygwin_conservative). \<^verbatim>\<open>prepareExisting\<close> touches no file but the socket and its marker,
  and those only when they are stale: a marker of this application and version whose nonce is the
  one in the socket description and whose process is not running.  When it returns nil neither
  file exists.  \<^verbatim>\<open>cleanup\<close> likewise touches only the two files, and only if the marker read back
  names this process and this nonce.\<close>

theorem cygwin_conservative:
  assumes "prepareExisting ce c w = (r, w')"
  shows "frame {cyg_path c, owner_path c} w w' \<and>
    (r = None \<longrightarrow> w_files w' (cyg_path c) = None \<and> w_files w' (owner_path c) = None) \<and>
    (w_files w' \<noteq> w_files w \<longrightarrow> (\<exists>s m. w_files w (cyg_path c) = Some s \<and> w_files w (owner_path c) = Some m \<and>
       stale ce (f_data s) (f_data m))) \<and>
    frame {cyg_path c, owner_path c} w (cleanup ce c nonce w) \<and>
    (w_files (cleanup ce c nonce w) \<noteq> w_files w \<longrightarrow> (\<exists>m marker. w_files w (owner_path c) = Some m \<and>
       ce_Unmarshal ce (f_data m) = Some marker \<and> om_PID marker = ce_Getpid ce \<and> om_Nonce marker = hex_EncodeToString nonce))"
proof -
  have prep: "frame {cyg_path c, owner_path c} w w' \<and>
      (r = None \<longrightarrow> w_files w' (cyg_path c) = None \<and> w_files w' (owner_path c) = None) \<and>
      (w_files w' \<noteq> w_files w \<longrightarrow> (\<exists>s m. w_files w (cyg_path c) = Some s \<and> w_files w (owner_path c) = Some m \<and>
         stale ce (f_data s) (f_data m)))"
  proof (cases rule: prepareExisting_cases [of ce c w])
    case (keeps r1 w1)
    then show ?thesis using assms by (simp add: frame_def)
  next
    case (removes s m w1)
    have rw: "removeFiles ce c w1 = (r, w')" using assms removes(5) by simp
    then show ?thesis using removes removeFiles_frame [of c w1 ce] removeFiles_gone [of ce c w1 w']
      by (auto simp: frame_def)
  qed
  obtain d w1 where d: "os_ReadFile (ce_os ce) (owner_path c) w = (d, w1)" by fastforce
  have "w_files (cleanup ce c nonce w) \<noteq> w_files w \<longrightarrow> (\<exists>m marker. w_files w (owner_path c) = Some m \<and>
      ce_Unmarshal ce (f_data m) = Some marker \<and> om_PID marker = ce_Getpid ce \<and> om_Nonce marker = hex_EncodeToString nonce)"
    using d ReadFile_facts [OF d] by (auto simp: cleanup_def split: sum.splits option.splits if_splits)
  with prep cleanup_frame show ?thesis by blast
qed

theorem cygwin_conservative_witness:
  "\<exists>r w'. prepareExisting sample_cyg_env sample_cyg empty_world = (r, w') \<and>
    frame {cyg_path sample_cyg, owner_path sample_cyg} empty_world w'"
proof -
  obtain r w' where p: "prepareExisting sample_cyg_env sample_cyg empty_world = (r, w')" by fastforce
  from cygwin_conservative [OF p] p show ?thesis by blast
qed

text \<open>(cygwin_lifecycle). Once \<^verbatim>\<open>Start\<close> has returned, the listener is closed and readiness was
  reported exactly once: the error returned, or success.  If it had become ready and no file
  operation fails, the socket and its marker are gone, whether the accept loop ended by the context
  or by an error.\<close>

theorem cygwin_lifecycle:
  assumes "cygwin_Start ce c accepts fresh_ready w = Some (r, rd, w')" and "\<not> cyw_listener w"
  shows "\<not> cyw_listener w' \<and> (rd_ready rd = [None] \<or> r \<noteq> None \<and> rd_ready rd = [r]) \<and>
    (r = None \<longrightarrow> rd_ready rd = [None]) \<and>
    (rd_ready rd = [None] \<and> quiet_os ce \<and> fresh_temps ce c \<and>
       ce_Unmarshal ce (json_Marshal (own_marker ce (start_nonce ce))) = Some (own_marker ce (start_nonce ce)) \<longrightarrow>
     w_files (cyw_os w') (cyg_path c) = None \<and> w_files (cyw_os w') (owner_path c) = None)"
proof -
  have run: "cygwin_run (ce, c, accepts, w) fresh_ready = Some (r, rd)" using assms(1) by (simp add: cygwin_run_def)
  note report = cygwin_ready.report_of_run [OF run]
  have ok: "r = None \<longrightarrow> rd_ready rd = [None]" using cygwin_ready.reports_success run by blast
  from assms(1) show ?thesis
  proof (cases rule: cygwin_Start_cases)
    case (early e)
    then show ?thesis using report ok assms(2) by auto
  next
    case (ran port o1 o2)
    then show ?thesis using report ok cleanup_published writeFiles_publishes [OF _ ran(3)] by metis
  qed
qed

theorem cygwin_lifecycle_witness:
  "\<exists>rd w'. cygwin_Start sample_cyg_env sample_cyg [Accepted, AcceptFailed EOF True] fresh_ready
      \<lparr>cyw_os = empty_world, cyw_listener = False, cyw_clients = 0\<rparr> = Some (None, rd, w') \<and>
    w_files (cyw_os w') (cyg_path sample_cyg) = None"
proof -
  let ?w = "\<lparr>cyw_os = empty_world, cyw_listener = False, cyw_clients = 0\<rparr>"
  have p: "fst (prepareExisting sample_cyg_env sample_cyg empty_world) = None"
    by (simp add: prepareExisting_def os_Stat_def Let_def sample_quiet empty_world_def)
  have m: "fst (os_plain (ce_os sample_cyg_env) call v) = None" for call v
    by (simp add: os_plain_def sample_quiet)
  have n: "start_nonce sample_cyg_env = sample_nonce"
    by (simp add: start_nonce_def sample_cyg_env_def sample_nonce_def upt_rec)
  have u: "ce_Unmarshal sample_cyg_env (json_Marshal (own_marker sample_cyg_env sample_nonce)) =
      Some (own_marker sample_cyg_env sample_nonce)"
    by (simp add: sample_cyg_env_def own_marker_def Let_def)
  have l: "ce_Listen sample_cyg_env = Inr 50000" "ce_rand sample_cyg_env = None" by (simp_all add: sample_cyg_env_def)
  obtain rd w' where s: "cygwin_Start sample_cyg_env sample_cyg [Accepted, AcceptFailed EOF True] fresh_ready ?w
      = Some (None, rd, w')" and r: "rd_ready rd = [None]"
    using p m sample_writeFiles
    by (simp add: cygwin_Start_def start_listening_def l split_beta Let_def)
  have "w_files (cyw_os w') (cyg_path sample_cyg) = None"
    using cygwin_lifecycle [OF s] r sample_quiet sample_fresh u n by simp
  with s show ?thesis by blast
qed

text \<open>C23 (cygwin_handshake). The agent behind the Cygwin interface is reached only by a client that
  first sends the 16 bytes of the nonce: without them nothing at all is sent back and the agent is
  untouched; with them, and if every write succeeds and the client sends its 12 bytes of process data,
  it gets the nonce, this process's id in place of the first four of those bytes and the rest of
  them unchanged, and the agent serves exactly the bytes that follow, with the handshake deadline
  cleared.  The connection is closed on every path.\<close>

theorem cygwin_handshake:
  assumes "cygwin_handle c serve pid nonce cn s = (r, cn', s')" and "cn_out cn = []" and "length nonce = 16"
  shows "cn_closed cn' \<and>
    (take 16 (cn_in cn) \<noteq> nonce \<longrightarrow> cn_out cn' = [] \<and> s' = s \<and> r = Returned []) \<and>
    (take 16 (cn_in cn) = nonce \<and> 28 \<le> length (cn_in cn) \<and> (\<forall>k. cn_wfault cn k = None) \<longrightarrow>
      (case serve s (drop 28 (cn_in cn)) of
         (ServePanic m, s1) \<Rightarrow> r = Panicked m \<and> s' = s1
       | (Served err out, s1) \<Rightarrow> s' = s1 \<and> \<not> cn_deadline cn' \<and>
           cn_out cn' = nonce @ le_put32 (word_of_int pid) @ take 8 (drop 20 (cn_in cn)) @ out))"
proof -
  have closed: "cn_closed cn'"
    using assms(1) by (auto simp: cygwin_handle_def split: prod.splits bool.splits served.splits)
  have "handshake pid nonce cn = (False, cn\<lparr>cn_deadline := True, cn_in := drop 16 (cn_in cn)\<rparr>)"
    if "take 16 (cn_in cn) \<noteq> nonce"
    using that by (cases "length (cn_in cn) < 16") (simp_all add: handshake_def io_ReadFull_def)
  then have no: "cn_out cn' = [] \<and> s' = s \<and> r = Returned []" if "take 16 (cn_in cn) \<noteq> nonce"
    using assms that by (auto simp: cygwin_handle_def)
  have yes: "handshake pid nonce cn = (True, cn\<lparr>cn_in := drop 28 (cn_in cn), cn_writes := cn_writes cn + 2,
      cn_deadline := False, cn_out := nonce @ le_put32 (word_of_int pid) @ take 8 (drop 20 (cn_in cn))\<rparr>)"
    if "take 16 (cn_in cn) = nonce" "28 \<le> length (cn_in cn)" "\<forall>k. cn_wfault cn k = None"
    using that assms(2) by (simp add: handshake_def io_ReadFull_def conn_Write_def drop_take)
  show ?thesis using closed no yes assms(1)
    by (auto simp: cygwin_handle_def split: prod.splits served.splits)
qed

theorem cygwin_handshake_witness:
  "\<exists>cn'. cygwin_handle sample_cyg (\<lambda>n req. (Served (Some EOF) req, Suc n)) 42 sample_nonce
      \<lparr>cn_in = sample_nonce @ replicate 12 0 @ [9], cn_wfault = (\<lambda>_. None), cn_writes = 0, cn_out = [],
       cn_deadline = False, cn_closed = False\<rparr> (0::nat) = (Returned [], cn', 1) \<and>
    cn_closed cn' \<and> cn_out cn' = sample_nonce @ [42, 0, 0, 0] @ replicate 8 0 @ [9]"
proof -
  let ?cn = "\<lparr>cn_in = sample_nonce @ replicate 12 0 @ [9], cn_wfault = (\<lambda>_. None), cn_writes = 0,
    cn_out = [], cn_deadline = False, cn_closed = False\<rparr>"
  let ?h = "cygwin_handle sample_cyg (\<lambda>n req. (Served (Some EOF) req, Suc n)) 42 sample_nonce ?cn (0::nat)"
  have n: "length sample_nonce = 16" by (simp add: sample_nonce_def)
  obtain r cn' s' where h: "?h = (r, cn', s')" by (metis prod_cases3)
  have r: "r = Returned []" using h
    by (auto simp: cygwin_handle_def handshake_def io_ReadFull_def conn_Write_def n serve_failed_def)
  have "le_put32 42 = [42, 0, 0, 0]" by (simp add: le_put32_def)
  then show ?thesis using cygwin_handshake [OF h _ n] h r by (auto simp: n)
qed

end
