(* ===== verification/Openssh_Pipe.thy ===== *)
theory Openssh_Pipe
  imports Component
begin

text \<open>
  The OpenSSH named-pipe interface (src/internal/interfaces/opensshpipe/component\_windows.go):
  a pipe listener restricted to the current user and the system, one goroutine per client, and a
  \<^verbatim>\<open>Start\<close> that waits for its clients before it returns.

  The process token, \<^verbatim>\<open>winio.ListenPipe\<close>, the results of \<^verbatim>\<open>Accept\<close> and whether a client's handler
  returns once its connection is closed are parameters.
\<close>

section \<open>Definitions\<close>

definition StandardPipePath :: string where
  "StandardPipePath = pipePrefix @ ''openssh-ssh-agent''"

record PipeComponent =
  op_pipePath :: string
  op_logger :: bool

definition newWithPipePath :: "string \<Rightarrow> bool \<Rightarrow> PipeComponent" where
  "newWithPipePath pipePath logger = \<lparr>op_pipePath = pipePath, op_logger = logger\<rparr>"

definition pipe_New :: "bool \<Rightarrow> PipeComponent" where
  "pipe_New logger = newWithPipePath StandardPipePath logger"

text \<open>\<open>pv_TokenUser\<close> is the error of \<^verbatim>\<open>GetTokenUser\<close>, or the text of the user's SID if there is one.\<close>

record pipe_env =
  pv_TokenUser :: "string option result"
  pv_ListenPipe :: "string \<Rightarrow> string \<Rightarrow> goerr option"
  pv_accepts :: "accept list"
  pv_client_returns :: "nat \<Rightarrow> bool"

definition pipeSecurityDescriptor :: "pipe_env \<Rightarrow> string result" where
  "pipeSecurityDescriptor pv =
     (case pv_TokenUser pv of
        Inl e \<Rightarrow> Inl (ErrWrap ''get current user SID'' e)
      | Inr None \<Rightarrow> Inl (ErrNew ''get current user SID: token has no user SID'')
      | Inr (Some sid) \<Rightarrow> Inr (''D:P(A;;GA;;;SY)(A;;GA;;;'' @ sid @ '')''))"

datatype pipe_event = PipeListen string string | PipeClose | PipeCancel | PipeClientDone nat

text \<open>
  The deferred function of \<^verbatim>\<open>Start\<close>: cancel, close the listener, wait for the clients.  Waiting ends
  only if every handler returns.
\<close>

definition pipe_shutdown :: "pipe_env \<Rightarrow> nat \<Rightarrow> pipe_event list \<Rightarrow> pipe_event list option" where
  "pipe_shutdown pv clients evs =
     (if list_all (pv_client_returns pv) [0..<clients]
      then Some (evs @ [PipeCancel, PipeClose] @ map PipeClientDone [0..<clients]) else None)"

definition pipe_Start ::
  "pipe_env \<Rightarrow> PipeComponent \<Rightarrow> readiness \<Rightarrow> (goerr option \<times> readiness \<times> pipe_event list) option" where
  "pipe_Start pv c rd =
     map_option (\<lambda>(r, rd1, evs). (r, report_result r rd1, evs))
       (case pipeSecurityDescriptor pv of
          Inl e \<Rightarrow> Some (Some e, rd, [])
        | Inr sd \<Rightarrow>
            (case pv_ListenPipe pv (op_pipePath c) sd of
               Some e \<Rightarrow> Some (Some (ErrWrap (''listen on OpenSSH Named Pipe '' @ op_pipePath c) e), rd, [])
             | None \<Rightarrow>
                 (case accept_loop ''accept OpenSSH Named Pipe client'' (pv_accepts pv) 0 of
                    None \<Rightarrow> None
                  | Some (r, n) \<Rightarrow>
                      map_option (\<lambda>evs. (r, reportReady None rd, evs))
                        (pipe_shutdown pv n [PipeListen (op_pipePath c) sd]))))"

text \<open>
  \<^verbatim>\<open>handle\<close>: \<open>ctx_done\<close> is whether the context was done by the time serving ended.  The result is
  what is logged and the agent's state; the connection is closed on every path.
\<close>

definition pipe_handle ::
  "PipeComponent \<Rightarrow> 's serve_agent \<Rightarrow> bool \<Rightarrow> bytes \<Rightarrow> 's \<Rightarrow> (string list \<times> bytes) outcome \<times> 's" where
  "pipe_handle c serve ctx_done input s =
     (case serve s input of
        (ServePanic m, s1) \<Rightarrow> (Panicked m, s1)
      | (Served err out, s1) \<Rightarrow>
          (Returned (if serve_failed err \<and> \<not> ctx_done \<and> op_logger c
             then [''OpenSSH Named Pipe client request failed''] else [], out), s1))"

section \<open>Lemmas\<close>

text \<open>Reading a descriptor of the form \<^verbatim>\<open>D:P(A;;GA;;;x)(A;;GA;;;y)...\<close>: the accounts granted full access.\<close>

definition ace_account :: "string \<Rightarrow> string option" where
  "ace_account ace =
     (case strSplit ace (CHR '';'') of
        [kind, flags, rights, obj, inherit, account] \<Rightarrow>
          if kind = ''A'' \<and> flags = '''' \<and> rights = ''GA'' \<and> obj = '''' \<and> inherit = '''' \<and> HasSuffix account '')''
          then Some (butlast account) else None
      | _ \<Rightarrow> None)"

definition granted :: "string \<Rightarrow> string option list" where
  "granted sd = map ace_account (tl (strSplit sd (CHR ''('')))"

definition protected_dacl :: "string \<Rightarrow> bool" where
  "protected_dacl sd \<longleftrightarrow> hd (strSplit sd (CHR ''('')) = ''D:P''"

definition sid_text :: "string \<Rightarrow> bool" where
  "sid_text sid \<longleftrightarrow> set sid \<inter> set ''();'' = {}"

lemma granted_descriptor:
  assumes "pipeSecurityDescriptor pv = Inr sd" "pv_TokenUser pv = Inr (Some sid)" "sid_text sid"
  shows "protected_dacl sd \<and> granted sd = [Some ''SY'', Some sid]"
proof -
  have sd: "sd = ''D:P'' @ CHR ''('' # (''A;;GA;;;SY)'' @ CHR ''('' # (''A;;GA;;;'' @ sid @ '')''))"
    using assms(1,2) by (simp add: pipeSecurityDescriptor_def)
  have split: "strSplit sd (CHR ''('') = [''D:P'', ''A;;GA;;;SY)'', ''A;;GA;;;'' @ sid @ '')'']"
    unfolding sd using assms(3)
    by (subst strSplit_append, simp, subst strSplit_append, simp, subst strSplit_no_sep) (auto simp: sid_text_def)
  have "strSplit (''A;;GA;;;'' @ sid @ '')'') (CHR '';'') = [''A'', '''', ''GA'', '''', '''', sid @ '')'']"
    using assms(3) strSplit_no_sep [of "CHR '';''" "sid @ '')''"] by (simp add: sid_text_def)
  moreover have "strSplit ''A;;GA;;;SY)'' (CHR '';'') = [''A'', '''', ''GA'', '''', '''', ''SY)'']" by simp
  ultimately show ?thesis
    by (simp add: protected_dacl_def granted_def split ace_account_def HasSuffix_def HasPrefix_def)
qed

definition pipe_run :: "pipe_env \<times> PipeComponent \<Rightarrow> readiness \<Rightarrow> (goerr option \<times> readiness) option" where
  "pipe_run = (\<lambda>(pv, c) rd. map_option (\<lambda>(r, rd1, evs). (r, rd1)) (pipe_Start pv c rd))"

lemma pipe_Start_cases:
  assumes "pipe_Start pv c rd = Some (r, rd', evs)"
  obtains (early) e where "r = Some e" "rd' = reportReady (Some e) rd" "evs = []"
  | (ran) sd n where "rd' = report_result r (reportReady None rd)" "pipeSecurityDescriptor pv = Inr sd"
      "evs = PipeListen (op_pipePath c) sd # [PipeCancel, PipeClose] @ map PipeClientDone [0..<n]"
      "accept_loop ''accept OpenSSH Named Pipe client'' (pv_accepts pv) 0 = Some (r, n)"
  using assms unfolding pipe_Start_def pipe_shutdown_def
  by (auto split: sum.splits option.splits if_splits)

interpretation pipe_ready: ready_component pipe_run
proof (rule ready_componentI)
  fix x r rd assume "pipe_run x fresh_ready = Some (r, rd)"
  then obtain pv c evs where "pipe_Start pv c fresh_ready = Some (r, rd, evs)"
    by (cases x) (auto simp: pipe_run_def)
  then show "(\<exists>e. r = Some e \<and> rd = reportReady (Some e) fresh_ready) \<or>
      rd = report_result r (reportReady None fresh_ready)"
    by (cases rule: pipe_Start_cases) auto
qed

fun clients_before_end :: "accept list \<Rightarrow> nat" where
  "clients_before_end (Accepted # xs) = Suc (clients_before_end xs)"
| "clients_before_end _ = 0"

lemma accept_loop_clients: "accept_loop what xs k = Some (r, n) \<Longrightarrow> n = k + clients_before_end xs"
  by (induction what xs k rule: accept_loop.induct) auto

section \<open>Properties\<close>

text \<open>(pipe_lifecycle). A run of the OpenSSH pipe's \<^verbatim>\<open>Start\<close> that returned reported readiness
  exactly once, the error it returned or success.  If it became ready, it had opened the pipe once,
  with a protected access list that grants access to the system account and the current user and
  to nobody else, and before returning it cancelled its clients, closed the listener and waited for
  the handler of every client it had accepted.\<close>

theorem pipe_lifecycle:
  assumes "pipe_Start pv c fresh_ready = Some (r, rd, evs)" and "pv_TokenUser pv = Inr (Some sid)" and "sid_text sid"
  shows "(rd_ready rd = [None] \<or> r \<noteq> None \<and> rd_ready rd = [r]) \<and> (r = None \<longrightarrow> rd_ready rd = [None]) \<and>
    (rd_ready rd = [None] \<longrightarrow> (\<exists>sd. protected_dacl sd \<and> granted sd = [Some ''SY'', Some sid] \<and>
       evs = PipeListen (op_pipePath c) sd # [PipeCancel, PipeClose] @
         map PipeClientDone [0..<clients_before_end (pv_accepts pv)]))"
proof -
  have run: "pipe_run (pv, c) fresh_ready = Some (r, rd)" using assms(1) by (simp add: pipe_run_def)
  note report = pipe_ready.report_of_run [OF run]
  have ok: "r = None \<longrightarrow> rd_ready rd = [None]" using pipe_ready.reports_success run by blast
  from assms(1) show ?thesis
  proof (cases rule: pipe_Start_cases)
    case (early e)
    then show ?thesis using report ok by simp
  next
    case (ran sd n)
    then show ?thesis using report ok granted_descriptor [OF ran(2) assms(2,3)] accept_loop_clients [OF ran(4)]
      by auto
  qed
qed

definition sample_pipe_env :: pipe_env where
  "sample_pipe_env =
     \<lparr>pv_TokenUser = Inr (Some ''S-1-5-21''), pv_ListenPipe = (\<lambda>_ _. None),
      pv_accepts = [Accepted, AcceptFailed EOF True], pv_client_returns = (\<lambda>_. True)\<rparr>"

theorem pipe_lifecycle_witness:
  "\<exists>rd sd. pipe_Start sample_pipe_env (pipe_New True) fresh_ready =
      Some (None, rd, [PipeListen StandardPipePath sd, PipeCancel, PipeClose, PipeClientDone 0]) \<and>
    granted sd = [Some ''SY'', Some ''S-1-5-21'']"
proof -
  have "\<exists>rd evs. pipe_Start sample_pipe_env (pipe_New True) fresh_ready = Some (None, rd, evs)"
    by (simp add: pipe_Start_def pipeSecurityDescriptor_def sample_pipe_env_def pipe_shutdown_def)
  then obtain rd evs where s: "pipe_Start sample_pipe_env (pipe_New True) fresh_ready = Some (None, rd, evs)" by blast
  from pipe_lifecycle [OF s, of "''S-1-5-21''"] show ?thesis
    using s by (auto simp: sample_pipe_env_def sid_text_def pipe_New_def newWithPipePath_def)
qed


end
