(* ===== verification/Main_Run.thy ===== *)
theory Main_Run
  imports App Runtime Pageant Cygwin Openssh_Pipe
begin

text \<open>
  The program (src/cmd/omnisshagent/main\_windows.go): the order in which \<^verbatim>\<open>run\<close> takes the mutex,
  creates the shutdown event, loads the configuration, builds the backend and the components,
  starts the application and stops it; the deferred calls on every way out.

  The tray and the components run in goroutines of their own.  Here they appear through what \<^verbatim>\<open>run\<close>
  waits for: what the tray sends on \<^verbatim>\<open>trayDone\<close> (once, or never), which of two ready channels a
  \<^verbatim>\<open>select\<close> takes, and what \<^verbatim>\<open>Shutdown\<close> returns (theory \<open>App\<close>).  The calls \<^verbatim>\<open>run\<close> makes are
  recorded in order.
\<close>

section \<open>main\_windows.go\<close>

datatype 's main_backend = BkOpenSSH Client | BkEmbedded "'s ExtendedAgent"

text \<open>\<^verbatim>\<open>newBackend\<close>: \<open>keyring\<close> is what \<^verbatim>\<open>embedded.New\<close> finds, see \<open>embedded_New\<close>.\<close>

definition newBackend :: "'s ExtendedAgent option \<Rightarrow> RuntimeConfig \<Rightarrow> 's main_backend result" where
  "newBackend keyring rc =
     (if rc_BackendType rc = BackendWindowsOpenSSH then
        Inr (BkOpenSSH (openssh_New (rc_BackendPipePath rc) (rc_ConnectTimeout rc)))
      else if rc_BackendType rc = BackendEmbedded then
        (case embedded_New keyring of Inl e \<Rightarrow> Inl e | Inr b \<Rightarrow> Inr (BkEmbedded b))
      else Inl (ErrNew (''unsupported runtime backend type '' @ rc_BackendType rc)))"

text \<open>The components with the fields their constructors set; each implements \<^verbatim>\<open>ReadyComponent\<close>.\<close>

datatype component = CompOpenSSH PipeComponent | CompPageant PageantComponent | CompCygwin CygwinComponent

fun component_app :: "component \<Rightarrow> AppComponent" where
  "component_app (CompOpenSSH c) = \<lparr>ac_Name = ''openssh'', ac_Ready = True\<rparr>"
| "component_app (CompPageant c) = \<lparr>ac_Name = ''pageant'', ac_Ready = True\<rparr>"
| "component_app (CompCygwin c) = \<lparr>ac_Name = ''cygwin'', ac_Ready = True\<rparr>"

definition newComponents :: "RuntimeConfig \<Rightarrow> bool \<Rightarrow> component list" where
  "newComponents rc logger =
     (let components = [];
          components = (if rc_BackendType rc = BackendEmbedded then components @ [CompOpenSSH (pipe_New logger)] else components);
          components = (if rc_PageantEnabled rc then components @ [CompPageant \<lparr>pg_logger = logger\<rparr>] else components);
          components = (if rc_CygwinEnabled rc then
              components @ [CompCygwin \<lparr>cyg_path = rc_CygwinPath rc, cyg_handshakeTimeout = rc_ConnectTimeout rc, cyg_logger = logger\<rparr>]
            else components) in
      components)"

datatype main_event =
    EventCreated | EventClosed
  | LoggerOpened string int | LoggerClosed
  | Logged int string
  | TrayStarted string string
  | TraySetState State
  | TraySetBackend
  | AppRun "component list"
  | AppShutdown
  | CtxCancelled
  | Stderr goerr

record main_world =
  mw_os :: world
  mw_kernel :: kernel
  mw_events :: events
  mw_trace :: "main_event list"

text \<open>
  \<open>me_tray\<close> is what \<^verbatim>\<open>t.Run(ctx)\<close> returns, if it does within the time \<^verbatim>\<open>run\<close> waits for it;
  \<open>me_ctx_first\<close> that the first \<^verbatim>\<open>select\<close> takes \<^verbatim>\<open>ctx.Done()\<close>.
\<close>

record 's main_env =
  me_cli :: cli_env
  me_mutex :: mutex_env
  me_event :: event_env
  me_keyring :: "'s ExtendedAgent option"
  me_tray :: "goerr option option"
  me_ctx_first :: bool
  me_shutdown :: "goerr option"

definition say :: "main_event \<Rightarrow> main_world \<Rightarrow> main_world" where
  "say e w = w\<lparr>mw_trace := mw_trace w @ [e]\<rparr>"

definition mutexName :: string where "mutexName = ''Local'' @ [bslash] @ ''OmniSSHAgent''"

text \<open>\<^verbatim>\<open>CreateDefault\<close>, then \<^verbatim>\<open>LoadRuntime\<close> whatever the first returned; the error of the first wins.\<close>

definition configure :: "cli_env \<Rightarrow> string \<Rightarrow> world \<Rightarrow> RuntimeConfig result \<times> world" where
  "configure ce path w =
     (case CreateDefault (cl_fp ce) (cl_os ce) (cl_toml ce) path w of (created, w1) \<Rightarrow>
      (case LoadRuntime (cl_fp ce) (cl_durations ce) (cl_os ce) (cl_toml ce) (cl_getenv ce) path w1 of (loaded, w2) \<Rightarrow>
        ((case created of Inl e \<Rightarrow> Inl e | Inr _ \<Rightarrow> loaded), w2)))"

text \<open>Lines 78 to 99: whether an application was started.\<close>

definition start_application :: "'s main_env \<Rightarrow> string \<Rightarrow> main_world \<Rightarrow> bool \<times> main_world" where
  "start_application me configPath w =
     (case configure (me_cli me) configPath (mw_os w) of (cfg, o1) \<Rightarrow>
      (let w1 = w\<lparr>mw_os := o1\<rparr> in
       case cfg of
         Inl e \<Rightarrow> (False, say (TraySetState StateConfigurationError) (say (Logged LevelError ''configuration error'') w1))
       | Inr rc \<Rightarrow>
           (let w2 = say (LoggerOpened (rc_LogDirectory rc) (rc_LogLevel rc)) (say LoggerClosed w1) in
            case newBackend (me_keyring me) rc of
              Inl e \<Rightarrow> (False, say (TraySetState StateDegraded) (say (Logged LevelError ''backend initialization error'') w2))
            | Inr b \<Rightarrow> (True, say (AppRun (newComponents rc True)) (say TraySetBackend w2)))))"

datatype wake = WokeTray "goerr option" | WokeContext

definition first_select :: "'s main_env \<Rightarrow> wake option" where
  "first_select me = (if me_ctx_first me then Some WokeContext else map_option WokeTray (me_tray me))"

text \<open>\<^verbatim>\<open>trayDone\<close> carries one value: what is left of it for the second \<^verbatim>\<open>select\<close>.\<close>

definition tray_left :: "'s main_env \<Rightarrow> wake \<Rightarrow> goerr option option" where
  "tray_left me wk = (case wk of WokeTray _ \<Rightarrow> None | WokeContext \<Rightarrow> me_tray me)"

text \<open>Lines 101 to 123, after the first \<^verbatim>\<open>select\<close>.\<close>

definition stop_application :: "'s main_env \<Rightarrow> bool \<Rightarrow> wake \<Rightarrow> main_world \<Rightarrow> int \<times> main_world" where
  "stop_application me started wk w =
     (case wk of
        WokeTray (Some e) \<Rightarrow> (ExitWindows, say (Logged LevelError ''tray stopped unexpectedly'') w)
      | _ \<Rightarrow>
          (let w1 = say CtxCancelled w;
               w2 = (if \<not> started then w1
                     else if me_shutdown me \<noteq> None then say (Logged LevelError ''shutdown timeout'') (say AppShutdown w1)
                     else say AppShutdown w1);
               w3 = (case tray_left me wk of Some _ \<Rightarrow> w2 | None \<Rightarrow> say (Logged LevelError ''tray shutdown timeout'') w2) in
           (ExitOK, say (Logged LevelInfo ''application stopped'') w3)))"

text \<open>Lines 63 to 123 with the deferred calls of lines 64 and 68; \<open>None\<close> while the first \<^verbatim>\<open>select\<close> waits.\<close>

definition run_tray :: "'s main_env \<Rightarrow> string \<Rightarrow> string \<Rightarrow> main_world \<Rightarrow> (int \<times> main_world) option" where
  "run_tray me configPath logDir w =
     (let w1 = say (Logged LevelInfo ''application starting'') (say (LoggerOpened logDir LevelInfo) w) in
      case start_application me configPath (say (TrayStarted configPath logDir) w1) of (started, w2) \<Rightarrow>
        (case first_select me of
           None \<Rightarrow> None
         | Some wk \<Rightarrow>
             (case stop_application me started wk w2 of (code, w3) \<Rightarrow>
                Some (code, say LoggerClosed (say CtxCancelled w3)))))"

text \<open>Lines 46 to 123, holding the mutex, with the deferred \<^verbatim>\<open>shutdownEvent.Close\<close>.\<close>

definition run_locked :: "'s main_env \<Rightarrow> main_world \<Rightarrow> (int \<times> main_world) option" where
  "run_locked me w =
     (case NewShutdownEvent (me_event me) ShutdownEventName (mw_events w) of
        (Some e, es) \<Rightarrow> Some (ExitWindows, say (Stderr e) (w\<lparr>mw_events := es\<rparr>))
      | (None, es) \<Rightarrow>
          (let w1 = say EventCreated (w\<lparr>mw_events := es\<rparr>) in
           map_option (apsnd (say EventClosed))
             (case DefaultConfigPath (cl_fp (me_cli me)) (cl_getenv (me_cli me)) of
                Inl e \<Rightarrow> Some (ExitInternal, say (Stderr e) w1)
              | Inr configPath \<Rightarrow>
                  (case DefaultLogDirectory (cl_fp (me_cli me)) (cl_getenv (me_cli me)) of
                     Inl e \<Rightarrow> Some (ExitInternal, say (Stderr e) w1)
                   | Inr logDir \<Rightarrow> run_tray me configPath logDir w1))))"

definition run :: "'s main_env \<Rightarrow> string list \<Rightarrow> main_world \<Rightarrow> (int \<times> main_world) option" where
  "run me args w =
     (case cli_Run (me_cli me) args (mw_os w) of (result, out, err, o1) \<Rightarrow>
      (let w1 = w\<lparr>mw_os := o1\<rparr> in
       if \<not> rs_StartApplication result then Some (rs_Code result, w1)
       else
         (case Acquire (me_mutex me) mutexName (mw_kernel w1) of
            (Inl e, k) \<Rightarrow>
              (let w2 = w1\<lparr>mw_kernel := k\<rparr> in
               if errors_Is e ErrAlreadyRunning then Some (ExitAlreadyRunning, w2)
               else Some (ExitWindows, say (Stderr e) w2))
          | (Inr h, k) \<Rightarrow>
              map_option (apsnd (\<lambda>w. w\<lparr>mw_kernel := Mutex_Close (Some h) (mw_kernel w)\<rparr>))
                (run_locked me (w1\<lparr>mw_kernel := k\<rparr>)))))"

section \<open>What a run leaves\<close>

lemma say_simps [simp]:
  "mw_trace (say e w) = mw_trace w @ [e]" "mw_os (say e w) = mw_os w"
  "mw_kernel (say e w) = mw_kernel w" "mw_events (say e w) = mw_events w"
  by (simp_all add: say_def)

lemma start_application_kernel [simp]: "mw_kernel (snd (start_application me p w)) = mw_kernel w"
  by (simp add: start_application_def Let_def split: prod.splits sum.splits)

lemma stop_application_kernel [simp]: "mw_kernel (snd (stop_application me s wk w)) = mw_kernel w"
  by (auto simp: stop_application_def Let_def split: wake.splits option.splits)

lemma run_tray_kernel: "run_tray me p ld w = Some (code, w') \<Longrightarrow> mw_kernel w' = mw_kernel w"
  using start_application_kernel [of me p] stop_application_kernel [of me]
  by (auto simp: run_tray_def Let_def split: prod.splits option.splits; metis snd_conv say_simps(3))

lemma run_locked_kernel: "run_locked me w = Some (code, w') \<Longrightarrow> mw_kernel w' = mw_kernel w"
  by (auto simp: run_locked_def Let_def split: prod.splits option.splits sum.splits dest!: run_tray_kernel)

text \<open>Log files and events open after a trace.\<close>

fun logger_delta :: "main_event \<Rightarrow> int" where
  "logger_delta (LoggerOpened _ _) = 1"
| "logger_delta LoggerClosed = - 1"
| "logger_delta _ = 0"

fun event_delta :: "main_event \<Rightarrow> int" where
  "event_delta EventCreated = 1"
| "event_delta EventClosed = - 1"
| "event_delta _ = 0"

definition open_after :: "main_event list \<Rightarrow> int \<times> int" where
  "open_after t = (sum_list (map logger_delta t), sum_list (map event_delta t))"


lemma start_application_open: "start_application me p w = (s, w') \<Longrightarrow> open_after (mw_trace w') = open_after (mw_trace w)"
  by (auto simp: start_application_def open_after_def Let_def split: prod.splits sum.splits)

lemma stop_application_open: "stop_application me s wk w = (c, w') \<Longrightarrow> open_after (mw_trace w') = open_after (mw_trace w)"
  by (auto simp: stop_application_def open_after_def Let_def split: wake.splits option.splits if_splits)

lemma run_tray_open: "run_tray me p ld w = Some (code, w') \<Longrightarrow> open_after (mw_trace w') = open_after (mw_trace w)"
  by (auto simp: run_tray_def Let_def open_after_def split: prod.splits option.splits
      dest!: start_application_open stop_application_open)

lemma run_locked_open: "run_locked me w = Some (code, w') \<Longrightarrow> open_after (mw_trace w') = open_after (mw_trace w)"
  by (auto simp: run_locked_def Let_def open_after_def split: prod.splits option.splits sum.splits dest!: run_tray_open)

text \<open>The ways through \<^verbatim>\<open>run\<close> without a command line.\<close>

lemma run_cases:
  assumes "kernel_ok (mw_kernel w)" and "run me [] w = Some (code, w')"
  obtains (refused) e where "fst (Acquire (me_mutex me) mutexName (mw_kernel w)) = Inl e"
      "code = (if errors_Is e ErrAlreadyRunning then ExitAlreadyRunning else ExitWindows)"
      "kn_handles (mw_kernel w') = kn_handles (mw_kernel w)" "mw_os w' = mw_os w" "mw_events w' = mw_events w"
      "mw_trace w' = mw_trace w @ (if errors_Is e ErrAlreadyRunning then [] else [Stderr e])"
  | (locked) w1 w2 where "run_locked me w1 = Some (code, w2)" "mw_trace w1 = mw_trace w" "mw_os w1 = mw_os w"
      "mw_events w1 = mw_events w" "kn_handles (mw_kernel w') = kn_handles (mw_kernel w)"
      "mw_trace w' = mw_trace w2" "mw_os w' = mw_os w2" "\<exists>h. fst (Acquire (me_mutex me) mutexName (mw_kernel w)) = Inr h"
  using assms(1)
proof (cases rule: Acquire_cases [where mx = "me_mutex me" and name = mutexName])
  case (failed e)
  obtain k where a: "Acquire (me_mutex me) mutexName (mw_kernel w) = (Inl e, k)" using failed(1) by (metis prod.collapse)
  show ?thesis using refused [of e] assms(2) failed a
    by (auto simp: run_def cli_Run_def Let_def split: if_splits)
next
  case got
  let ?k = "kn_next (mw_kernel w)"
  let ?w = "w\<lparr>mw_kernel := (mw_kernel w)\<lparr>kn_handles := (?k, mutexName) # kn_handles (mw_kernel w), kn_next := Suc ?k\<rparr>\<rparr>"
  obtain w2 where r: "run_locked me ?w = Some (code, w2)"
    and w': "w' = w2\<lparr>mw_kernel := Mutex_Close (Some ?k) (mw_kernel w2)\<rparr>"
    using assms(2) got by (auto simp: run_def cli_Run_def Let_def)
  have "filter (\<lambda>x. fst x \<noteq> ?k) (kn_handles (mw_kernel w)) = kn_handles (mw_kernel w)" and "0 < ?k"
    using assms(1) by (auto simp: kernel_ok_def list_all_iff filter_id_conv)
  then have "kn_handles (mw_kernel w') = kn_handles (mw_kernel w)"
    using w' run_locked_kernel [OF r] by (simp add: Mutex_Close_def CloseHandle_def)
  then show ?thesis using locked [OF r] w' got(1) by simp
qed

section \<open>Properties\<close>


text \<open>What a trace says of the application: the component lists run, and the states \<^verbatim>\<open>run\<close> itself set.\<close>

definition apps :: "main_event list \<Rightarrow> component list list" where
  "apps t = List.map_filter (\<lambda>e. case e of AppRun cs \<Rightarrow> Some cs | _ \<Rightarrow> None) t"

definition states_set :: "main_event list \<Rightarrow> State list" where
  "states_set t = List.map_filter (\<lambda>e. case e of TraySetState s \<Rightarrow> Some s | _ \<Rightarrow> None) t"

lemma apps_simps [simp]:
  "apps [] = []" "apps (a @ b) = apps a @ apps b" "apps (e # t) = (case e of AppRun cs \<Rightarrow> [cs] | _ \<Rightarrow> []) @ apps t"
  by (simp_all add: apps_def List.map_filter_def split: main_event.splits)

lemma states_set_simps [simp]:
  "states_set [] = []" "states_set (a @ b) = states_set a @ states_set b"
  "states_set (e # t) = (case e of TraySetState s \<Rightarrow> [s] | _ \<Rightarrow> []) @ states_set t"
  by (simp_all add: states_set_def List.map_filter_def split: main_event.splits)

definition interface_names :: "RuntimeConfig \<Rightarrow> string list" where
  "interface_names rc =
     filter (\<lambda>n. n = ''openssh'' \<and> rc_BackendType rc = BackendEmbedded \<or> n = ''pageant'' \<and> rc_PageantEnabled rc \<or>
                 n = ''cygwin'' \<and> rc_CygwinEnabled rc) [''openssh'', ''pageant'', ''cygwin'']"

lemma newComponents_names: "map (ac_Name \<circ> component_app) (newComponents rc l) = interface_names rc"
  by (simp add: newComponents_def interface_names_def Let_def)

lemma LoadRuntime_ok: "LoadRuntime fp pd env tm getenv p w = (Inr rc, w') \<Longrightarrow> runtime_ok rc"
  by (auto simp: LoadRuntime_def split: sum.splits prod.splits dest: Validate_runtime_ok)

lemma configure_ok: "configure ce p w = (Inr rc, w') \<Longrightarrow> runtime_ok rc"
  by (auto simp: configure_def split: sum.splits prod.splits dest: LoadRuntime_ok)

lemma newBackend_total: "runtime_ok rc \<Longrightarrow> keyring \<noteq> None \<Longrightarrow> \<exists>b. newBackend keyring rc = Inr b"
  by (auto simp: newBackend_def runtime_ok_def embedded_New_def split: option.splits)

lemma stop_application_trace:
  assumes "stop_application me s wk w = (c, w')"
  shows "\<exists>t. mw_trace w' = mw_trace w @ t \<and> apps t = [] \<and> states_set t = [] \<and> \<not> (\<exists>x y. TrayStarted x y \<in> set t)"
  using assms by (auto simp: stop_application_def Let_def split: wake.splits option.splits if_splits)

text \<open>What a run that got as far as starting the tray did.\<close>

lemma run_locked_started:
  assumes "run_locked me w = Some (code, w')" and "mw_trace w = []" and "TrayStarted path ld \<in> set (mw_trace w')"
  obtains w0 w1 w2 s wk where "start_application me path w0 = (s, w1)" "mw_os w0 = mw_os w" "apps (mw_trace w0) = []"
    "states_set (mw_trace w0) = []" "Logged LevelError ''tray shutdown timeout'' \<notin> set (mw_trace w0)"
    "first_select me = Some wk" "stop_application me s wk w1 = (code, w2)"
    "mw_trace w' = mw_trace w2 @ [CtxCancelled, LoggerClosed, EventClosed]"
proof -
  obtain es where ev: "NewShutdownEvent (me_event me) ShutdownEventName (mw_events w) = (None, es)"
    using assms by (cases "NewShutdownEvent (me_event me) ShutdownEventName (mw_events w)")
      (auto simp: run_locked_def split: option.splits)
  let ?w = "say EventCreated (w\<lparr>mw_events := es\<rparr>)"
  obtain cp where cp: "DefaultConfigPath (cl_fp (me_cli me)) (cl_getenv (me_cli me)) = Inr cp"
    using assms ev by (cases "DefaultConfigPath (cl_fp (me_cli me)) (cl_getenv (me_cli me))") (auto simp: run_locked_def Let_def)
  obtain lg where lg: "DefaultLogDirectory (cl_fp (me_cli me)) (cl_getenv (me_cli me)) = Inr lg"
    using assms ev cp by (cases "DefaultLogDirectory (cl_fp (me_cli me)) (cl_getenv (me_cli me))") (auto simp: run_locked_def Let_def)
  let ?w0 = "say (TrayStarted cp lg) (say (Logged LevelInfo ''application starting'') (say (LoggerOpened lg LevelInfo) ?w))"
  obtain s w1 where st: "start_application me cp ?w0 = (s, w1)" by fastforce
  obtain wk where wk: "first_select me = Some wk"
    using assms(1) ev cp lg st by (cases "first_select me") (auto simp: run_locked_def run_tray_def Let_def)
  obtain c w2 where sp: "stop_application me s wk w1 = (c, w2)" by fastforce
  have w': "w' = say EventClosed (say LoggerClosed (say CtxCancelled w2))" "c = code"
    using assms(1) ev cp lg st wk sp by (auto simp: run_locked_def run_tray_def Let_def)
  obtain t where t: "mw_trace w2 = mw_trace w1 @ t" "\<not> (\<exists>x y. TrayStarted x y \<in> set t)"
    using stop_application_trace [OF sp] by blast
  have "TrayStarted path ld \<in> set (mw_trace w1)" using assms(3) w' t by auto
  then have "path = cp" using st assms(2)
    by (auto simp: start_application_def Let_def split: prod.splits sum.splits)
  then show thesis using that [of ?w0 s w1 wk w2] st wk sp w' assms(2) by auto
qed

text \<open>Such a run passes through \<^verbatim>\<open>configure\<close>, which decides what it starts.\<close>

lemma run_config_gate:
  assumes "kernel_ok (mw_kernel w)" and "mw_trace w = []" and "run me [] w = Some (code, w')"
    and "TrayStarted path ld \<in> set (mw_trace w')"
  shows "case fst (configure (me_cli me) path (mw_os w)) of
      Inl e \<Rightarrow> apps (mw_trace w') = [] \<and> states_set (mw_trace w') = [StateConfigurationError]
    | Inr rc \<Rightarrow> runtime_ok rc \<and>
        (case newBackend (me_keyring me) rc of
           Inl e \<Rightarrow> rc_BackendType rc = BackendEmbedded \<and> me_keyring me = None \<and>
             apps (mw_trace w') = [] \<and> states_set (mw_trace w') = [StateDegraded]
         | Inr b \<Rightarrow> states_set (mw_trace w') = [] \<and>
             map (map (ac_Name \<circ> component_app)) (apps (mw_trace w')) = [interface_names rc])"
  using assms(1,3)
proof (cases rule: run_cases)
  case (refused e)
  then show ?thesis using assms(2,4) by (auto split: if_splits)
next
  case (locked w1 w2)
  have tr: "mw_trace w1 = []" "TrayStarted path ld \<in> set (mw_trace w2)" using locked assms(2,4) by auto
  from locked(1) tr obtain v0 v1 v2 s wk where st: "start_application me path v0 = (s, v1)" "mw_os v0 = mw_os w1"
      "apps (mw_trace v0) = []" "states_set (mw_trace v0) = []"
    and sp: "stop_application me s wk v1 = (code, v2)" "mw_trace w2 = mw_trace v2 @ [CtxCancelled, LoggerClosed, EventClosed]"
    by (rule run_locked_started)
  obtain t where "mw_trace v2 = mw_trace v1 @ t" "apps t = []" "states_set t = []"
    using stop_application_trace [OF sp(1)] by blast
  then have same: "apps (mw_trace w') = apps (mw_trace v1)" "states_set (mw_trace w') = states_set (mw_trace v1)"
    using sp(2) locked by simp_all
  obtain cfg o1 where c: "configure (me_cli me) path (mw_os w) = (cfg, o1)" by fastforce
  show ?thesis
  proof (cases cfg)
    case (Inl e)
    then show ?thesis using st c locked unfolding same by (auto simp: start_application_def Let_def)
  next
    case (Inr rc)
    then have ok: "runtime_ok rc" using c configure_ok by simp
    then have "newBackend (me_keyring me) rc = Inl e \<Longrightarrow> rc_BackendType rc = BackendEmbedded \<and> me_keyring me = None" for e
      by (auto simp: newBackend_def runtime_ok_def embedded_New_def split: option.splits)
    then show ?thesis using st c locked ok Inr newComponents_names [of rc True] unfolding same
      by (auto simp: start_application_def Let_def split: sum.splits)
  qed
qed

text \<open>C5 (main_config_gate). A run that reaches the tray starts components only from a configuration that
  loads and validates, and then exactly once: the OpenSSH pipe when the backend is the embedded
  one, Pageant and Cygwin when enabled, in this order.  With a configuration error nothing is
  started and the tray shows it; a backend that cannot be built, which only the embedded one can
  cause, shows as degraded.\<close>

theorem main_config_gate:
  assumes "kernel_ok (mw_kernel w)" and "mw_trace w = []" and "run me [] w = Some (code, w')"
    and "TrayStarted path ld \<in> set (mw_trace w')"
  shows "case fst (configure (me_cli me) path (mw_os w)) of
      Inl e \<Rightarrow> apps (mw_trace w') = [] \<and> states_set (mw_trace w') = [StateConfigurationError]
    | Inr rc \<Rightarrow> runtime_ok rc \<and>
        (case newBackend (me_keyring me) rc of
           Inl e \<Rightarrow> rc_BackendType rc = BackendEmbedded \<and> me_keyring me = None \<and>
             apps (mw_trace w') = [] \<and> states_set (mw_trace w') = [StateDegraded]
         | Inr b \<Rightarrow> states_set (mw_trace w') = [] \<and>
             map (map (ac_Name \<circ> component_app)) (apps (mw_trace w')) = [interface_names rc])"
  using run_config_gate [OF assms] .

text \<open>(main_tray_wait). How a run that reached the tray ends: with the code for a Windows failure exactly when the first
  wait received an error from the tray, else with success; and it then reports a tray
  that did not stop exactly when the first wait did not take the cancelled context or the tray indeed did not
  return.  So a tray that ended by itself, without an error, is waited for a second time in vain.\<close>

theorem main_tray_wait:
  assumes "kernel_ok (mw_kernel w)" and "mw_trace w = []" and "run me [] w = Some (code, w')"
    and "TrayStarted path ld \<in> set (mw_trace w')"
  shows "code = (if \<not> me_ctx_first me \<and> (\<exists>e. me_tray me = Some (Some e)) then ExitWindows else ExitOK) \<and>
    (Logged LevelError ''tray shutdown timeout'' \<in> set (mw_trace w') \<longleftrightarrow>
       code = ExitOK \<and> (\<not> me_ctx_first me \<or> me_tray me = None))"
  using assms(1,3)
proof (cases rule: run_cases)
  case (refused e)
  then show ?thesis using assms(2,4) by (auto split: if_splits)
next
  case (locked w1 w2)
  have tr: "mw_trace w1 = []" "TrayStarted path ld \<in> set (mw_trace w2)" using locked assms(2,4) by auto
  from locked(1) tr obtain v0 v1 v2 s wk where st: "start_application me path v0 = (s, v1)"
      "Logged LevelError ''tray shutdown timeout'' \<notin> set (mw_trace v0)"
    and fs: "first_select me = Some wk"
    and sp: "stop_application me s wk v1 = (code, v2)" "mw_trace w2 = mw_trace v2 @ [CtxCancelled, LoggerClosed, EventClosed]"
    by (rule run_locked_started)
  have n: "Logged LevelError ''tray shutdown timeout'' \<notin> set (mw_trace v1)"
    using st by (auto simp: start_application_def Let_def split: prod.splits sum.splits)
  have c: "ExitWindows \<noteq> ExitOK" "LevelInfo \<noteq> LevelError"
    by (simp_all add: ExitWindows_def ExitOK_def LevelInfo_def LevelError_def)
  show ?thesis using fs sp n c locked
    by (auto simp: first_select_def stop_application_def tray_left_def Let_def split: wake.splits option.splits if_splits)
qed

text \<open>A run on the sample machine whose user closes the tray.\<close>

definition sample_main :: "nat main_env" where
  "sample_main =
     \<lparr>me_cli = sample_cli, me_mutex = \<lparr>mx_utf16 = None, mx_fault = None, mx_last_exists = False\<rparr>,
      me_event = \<lparr>ev_utf16 = None, ev_open = None, ev_set = None\<rparr>, me_keyring = Some counting_agent,
      me_tray = Some None, me_ctx_first = False, me_shutdown = None\<rparr>"

definition fresh_main :: main_world where
  "fresh_main = \<lparr>mw_os = sample_world, mw_kernel = boot, mw_events = Map.empty, mw_trace = []\<rparr>"

lemma boot_ok: "kernel_ok (mw_kernel fresh_main)"
  using kernel_ok_run [of "[]"] by (simp add: fresh_main_def)

lemma sample_run:
  obtains code w' path ld where "run sample_main [] fresh_main = Some (code, w')" "TrayStarted path ld \<in> set (mw_trace w')"
proof -
  let ?cp = "fp_Join sample_fp [''C:'', ApplicationName, ''config.toml'']"
  let ?ld = "fp_Join sample_fp [''C:'', ApplicationName, ''logs'']"
  have cp: "DefaultConfigPath (cl_fp sample_cli) (cl_getenv sample_cli) = Inr ?cp"
    "DefaultLogDirectory (cl_fp sample_cli) (cl_getenv sample_cli) = Inr ?ld"
    by (simp_all add: DefaultConfigPath_def UserConfigDir_def DefaultLogDirectory_def sample_cli_def)
  have "\<exists>code w'. run sample_main [] fresh_main = Some (code, w') \<and> TrayStarted ?cp ?ld \<in> set (mw_trace w')"
    by (simp add: run_def cli_Run_def Acquire_def CreateMutex_def run_locked_def NewShutdownEvent_def sample_main_def
        fresh_main_def boot_def cp run_tray_def first_select_def start_application_def stop_application_def tray_left_def
        Let_def split: prod.splits sum.splits)
  then show thesis using that by blast
qed


theorem main_config_gate_witness:
  "\<exists>code w' path ld. run sample_main [] fresh_main = Some (code, w') \<and> TrayStarted path ld \<in> set (mw_trace w') \<and>
     (case fst (configure sample_cli path sample_world) of Inl e \<Rightarrow> apps (mw_trace w') = []
      | Inr rc \<Rightarrow> map (map (ac_Name \<circ> component_app)) (apps (mw_trace w')) = [interface_names rc])"
proof -
  obtain code w' path ld where r: "run sample_main [] fresh_main = Some (code, w')" "TrayStarted path ld \<in> set (mw_trace w')"
    by (rule sample_run)
  have "mw_trace fresh_main = []" by (simp add: fresh_main_def)
  from main_config_gate [OF boot_ok this r]
  have "case fst (configure sample_cli path sample_world) of Inl e \<Rightarrow> apps (mw_trace w') = []
      | Inr rc \<Rightarrow> map (map (ac_Name \<circ> component_app)) (apps (mw_trace w')) = [interface_names rc]"
    by (simp add: sample_main_def fresh_main_def newBackend_def embedded_New_def split: sum.splits if_splits)
  with r show ?thesis by blast
qed

theorem main_tray_wait_witness:
  "\<exists>w'. run sample_main [] fresh_main = Some (ExitOK, w') \<and> Logged LevelError ''tray shutdown timeout'' \<in> set (mw_trace w')"
proof -
  obtain code w' path ld where r: "run sample_main [] fresh_main = Some (code, w')" "TrayStarted path ld \<in> set (mw_trace w')"
    by (rule sample_run)
  have "mw_trace fresh_main = []" by (simp add: fresh_main_def)
  from main_tray_wait [OF boot_ok this r] r show ?thesis by (auto simp: sample_main_def)
qed

end
