(* ===== verification/Supervised.thy ===== *)
theory Supervised
  imports Main_Run
begin

text \<open>
  The supervisor (theory \<open>App\<close>) run on the program's own components.  There the steps of the environment report any
  readiness and any result; here they are those of the \<^verbatim>\<open>Start\<close> of the OpenSSH pipe, of Pageant and of Cygwin, whose contract
  \<open>ready_component\<close> they satisfy.  The composed system simulates the supervisor, so that everything proved of the supervisor holds of it,
  and it says more: which components may be shown as running, and that the whole comes to its end.
\<close>

section \<open>Runs of components\<close>

text \<open>A component of the list with the environment its \<^verbatim>\<open>Start\<close> meets.\<close>

datatype 's component_run =
    RunOpenSSH pipe_env PipeComponent
  | RunPageant PageantComponent "'s pageant_env" start_env "'s pworld"
  | RunCygwin cyg_env CygwinComponent "accept list" cyworld

fun run_component :: "'s component_run \<Rightarrow> component" where
  "run_component (RunOpenSSH pv c) = CompOpenSSH c"
| "run_component (RunPageant c env se w) = CompPageant c"
| "run_component (RunCygwin ce c accepts w) = CompCygwin c"

text \<open>\<^verbatim>\<open>component.Start(ctx)\<close>, dispatched on the component.\<close>

fun component_start :: "'s component_run \<Rightarrow> readiness \<Rightarrow> (goerr option \<times> readiness) option" where
  "component_start (RunOpenSSH pv c) rd = pipe_run (pv, c) rd"
| "component_start (RunPageant c env se w) rd = start_run (c, env, se, w) rd"
| "component_start (RunCygwin ce c accepts w) rd = cygwin_run (ce, c, accepts, w) rd"

text \<open>
  What a run puts on the component's \<^verbatim>\<open>Ready\<close> channel, and what its \<^verbatim>\<open>Start\<close> returns, if it does.  A run that has not returned is in
  a loop each of the three enters after reporting success.
\<close>

definition reported :: "'s component_run \<Rightarrow> goerr option \<Rightarrow> bool" where
  "reported r err =
     (case component_start r fresh_ready of None \<Rightarrow> err = None | Some (_, rd) \<Rightarrow> rd_ready rd = [err])"

definition returned :: "'s component_run \<Rightarrow> goerr option option" where
  "returned r = map_option fst (component_start r fresh_ready)"

definition app_components :: "'s component_run list \<Rightarrow> AppComponent list" where
  "app_components rs = map (component_app \<circ> run_component) rs"

section \<open>The composed system\<close>

text \<open>
  Each component's goroutine: it reports, then returns; and the context may be cancelled.  The components of the list share nothing the
  supervisor sees.
\<close>

inductive live_env :: "'s component_run list \<Rightarrow> Application \<Rightarrow> Application \<Rightarrow> bool" for rs where
  live_report: "i < length rs \<Longrightarrow> ap_ready a ! i = None \<Longrightarrow> reported (rs ! i) err \<Longrightarrow>
    live_env rs a (a\<lparr>ap_ready := (ap_ready a)[i := Some err]\<rparr>)"
| live_return: "i < length rs \<Longrightarrow> ap_ready a ! i \<noteq> None \<Longrightarrow> ap_stopped a ! i = None \<Longrightarrow> returned (rs ! i) = Some r \<Longrightarrow>
    live_env rs a (a\<lparr>ap_stopped := (ap_stopped a)[i := Some r]\<rparr>)"
| live_cancel: "ap_ctx a = None \<Longrightarrow> live_env rs a (a\<lparr>ap_ctx := Some err\<rparr>)"

definition live_step :: "'s component_run list \<Rightarrow> Application \<Rightarrow> Application \<Rightarrow> bool" where
  "live_step rs a b \<longleftrightarrow> live_env rs a b \<or> run_step (app_components rs) a b"

inductive live_reach :: "'s component_run list \<Rightarrow> Application \<Rightarrow> bool" for rs where
  live_init: "live_reach rs (app_New (app_components rs) sink logger)"
| live_next: "live_reach rs a \<Longrightarrow> live_step rs a b \<Longrightarrow> live_reach rs b"

section \<open>The contract of the three components\<close>

text \<open>One interpretation for the dispatching \<^verbatim>\<open>Start\<close>, from those of the three.\<close>

interpretation program_component: ready_component component_start
proof
  fix e :: "'s component_run" and r rd
  assume s: "component_start e fresh_ready = Some (r, rd)"
  show "\<exists>x. rd_ready rd = [x]"
    using s pipe_ready.reports_once pageant_ready.reports_once cygwin_ready.reports_once
    by (cases e) (simp; blast)+
next
  fix e :: "'s component_run" and r rd x
  assume s: "component_start e fresh_ready = Some (r, rd)" "rd_ready rd = [Some x]"
  show "r = Some x"
    using s pipe_ready.reports_failure pageant_ready.reports_failure cygwin_ready.reports_failure
    by (cases e) (simp; blast)+
next
  fix e :: "'s component_run" and rd
  assume s: "component_start e fresh_ready = Some (None, rd)"
  show "rd_ready rd = [None]"
    using s pipe_ready.reports_success pageant_ready.reports_success cygwin_ready.reports_success
    by (cases e) (simp; blast)+
qed

lemma reported_ex: "\<exists>err. reported r err"
proof (cases "component_start r fresh_ready")
  case (Some x)
  then show ?thesis using program_component.reports_once [of r "fst x" "snd x"] by (auto simp: reported_def split_beta)
qed (simp add: reported_def)

lemma reported_unique: "reported r x \<Longrightarrow> reported r y \<Longrightarrow> x = y"
  by (auto simp: reported_def split: option.splits)

lemma reported_failure: "reported r (Some e) \<Longrightarrow> returned r = Some (Some e)"
  by (auto simp: reported_def returned_def split: option.splits dest: program_component.reports_failure)

lemma returned_success: "returned r = Some None \<Longrightarrow> reported r None"
  by (auto simp: reported_def returned_def split: option.splits dest: program_component.reports_success)

lemma component_app_ready [simp]: "ac_Ready (component_app c)"
  by (cases c) simp_all

lemma app_components_simps [simp]:
  "length (app_components rs) = length rs"
  "i < length rs \<Longrightarrow> app_components rs ! i = component_app (run_component (rs ! i))"
  by (simp_all add: app_components_def)

lemma app_components_ready: "i < length rs \<Longrightarrow> ac_Ready (app_components rs ! i)"
  by simp

lemma map_names: "map ac_Name (app_components rs) = map (ac_Name \<circ> component_app) (map run_component rs)"
  by (simp add: app_components_def)


section \<open>Phases\<close>

text \<open>The phases of a component's goroutine, in the order in which it goes through them.\<close>

instantiation phase :: linorder
begin

definition less_eq_phase :: "phase \<Rightarrow> phase \<Rightarrow> bool" where
  "less_eq_phase p q \<longleftrightarrow> phase_work q \<le> phase_work p"

definition less_phase :: "phase \<Rightarrow> phase \<Rightarrow> bool" where
  "less_phase p q \<longleftrightarrow> phase_work q < phase_work p"

instance
proof
  fix p q :: phase
  assume "p \<le> q" "q \<le> p"
  then show "p = q" by (cases p; cases q) (simp_all add: less_eq_phase_def)
qed (auto simp: less_eq_phase_def less_phase_def)

end

lemma phase_order [simp]: "Selecting \<le> p" "p \<le> Finished"
  by (cases p; simp add: less_eq_phase_def)+

section \<open>The composed system is the supervisor's\<close>

lemma live_env_step:
  assumes "live_env rs a b"
  shows "env_step (app_components rs) a b"
  using assms
proof (induction rule: live_env.induct)
  case (live_report i a err)
  then show ?case using env_ready [of i "app_components rs" a err] by (simp add: app_components_ready)
next
  case (live_return i a r)
  then show ?case using env_stop [of i "app_components rs" a r] by simp
next
  case (live_cancel a err)
  then show ?case by (rule env_cancel)
qed

lemma live_app_step: "live_step rs a b \<Longrightarrow> app_step (app_components rs) a b"
  by (auto simp: live_step_def app_step_def live_env_step)

lemma live_app_reach: "live_reach rs a \<Longrightarrow> app_reach (app_components rs) a"
  by (induction rule: live_reach.induct) (blast intro: reach_init reach_step live_app_step)+

lemma live_app_inv: "live_reach rs a \<Longrightarrow> app_inv (app_components rs) a"
  by (rule app_reach_inv) (rule live_app_reach)

lemma live_app_shape: "live_reach rs a \<Longrightarrow> app_shape (app_components rs) a"
  using live_app_inv by (auto simp: app_inv_def)

section \<open>What the channels and the statuses hold\<close>

definition chans_ok :: "'s component_run list \<Rightarrow> Application \<Rightarrow> bool" where
  "chans_ok rs a \<longleftrightarrow>
     (\<forall>i < length rs. (\<forall>err. ap_ready a ! i = Some err \<longrightarrow> reported (rs ! i) err) \<and>
        (\<forall>r. ap_stopped a ! i = Some r \<longrightarrow> returned (rs ! i) = Some r \<and> ap_ready a ! i \<noteq> None))"

text \<open>What a status stands for: a report of success, the result of \<^verbatim>\<open>Start\<close>, or the cancelled context.\<close>

definition told_by :: "'s component_run \<Rightarrow> goerr option \<Rightarrow> ComponentStatus \<Rightarrow> bool" where
  "told_by r ctx s \<longleftrightarrow>
     (if cs_Running s then cs_Error s = None \<and> reported r None
      else returned r = Some (cs_Error s) \<or> ctx \<noteq> None \<and> cs_Error s = ctx)"

definition live_told :: "'s component_run list \<Rightarrow> Application \<Rightarrow> bool" where
  "live_told rs a \<longleftrightarrow> (\<forall>(i, s) \<in> set (all_statuses a). i < length rs \<and> told_by (rs ! i) (ap_ctx a) s)"

definition live_inv :: "'s component_run list \<Rightarrow> Application \<Rightarrow> bool" where
  "live_inv rs a \<longleftrightarrow> chans_ok rs a \<and> live_told rs a"

lemma told_by_ready: "reported r err \<Longrightarrow> told_by r ctx (status_ready c err)"
  by (cases err) (simp_all add: told_by_def status_ready_def reported_failure)

lemma told_by_stopped: "returned r = Some err \<Longrightarrow> told_by r ctx (status_failed c err)"
  by (simp add: told_by_def status_failed_def)

lemma told_by_ctx: "told_by r (Some e) (status_failed c (Some e))"
  by (simp add: told_by_def status_failed_def)

lemma told_by_later: "told_by r ctx s \<Longrightarrow> ctx = None \<or> ctx = ctx' \<Longrightarrow> told_by r ctx' s"
  by (auto simp: told_by_def split: if_splits)

lemma send_result_ctx [simp]: "ap_ctx (send_result i s ph a) = ap_ctx a"
  by (simp add: send_result_def)

lemma live_inv_send:
  assumes "live_inv rs a" "i < length rs" "told_by (rs ! i) (ap_ctx a) s"
  shows "live_inv rs (send_result i s ph a)"
  using assms by (auto simp: live_inv_def chans_ok_def live_told_def all_statuses_def)

lemma receive_status_simps [simp]:
  "ap_ready (receive_status a) = ap_ready a" "ap_stopped (receive_status a) = ap_stopped a"
  "ap_ctx (receive_status a) = ap_ctx a" "all_statuses (receive_status a) = all_statuses a"
  by (simp_all add: receive_status_def all_statuses_def split: list.split)

lemma publish_simps [simp]:
  "ap_ready (publish a) = ap_ready a" "ap_stopped (publish a) = ap_stopped a"
  "ap_ctx (publish a) = ap_ctx a" "all_statuses (publish a) = all_statuses a"
  by (simp_all add: publish_def setState_def all_statuses_def)


lemma live_inv_init: "live_inv rs (app_New (app_components rs) sink logger)"
  by (simp add: live_inv_def chans_ok_def live_told_def all_statuses_def app_New_def)

lemma live_inv_env:
  assumes "live_env rs a b" and "length (ap_ready a) = length rs" "length (ap_stopped a) = length rs" and "live_inv rs a"
  shows "live_inv rs b"
  using assms
proof (induction rule: live_env.induct)
  case (live_cancel a err)
  then have "told_by r (Some err) s" if "told_by r (ap_ctx a) s" for r s using that told_by_later by metis
  moreover have "live_told rs a" "chans_ok rs a" using live_cancel(4) by (simp_all add: live_inv_def)
  ultimately have "live_told rs (a\<lparr>ap_ctx := Some err\<rparr>)" by (fastforce simp: live_told_def all_statuses_def)
  then show ?case using \<open>chans_ok rs a\<close> by (simp add: live_inv_def chans_ok_def)
next
  case (live_report i a err)
  let ?b = "a\<lparr>ap_ready := (ap_ready a)[i := Some err]\<rparr>"
  have "chans_ok rs ?b" unfolding chans_ok_def
  proof (intro allI impI)
    fix j assume j: "j < length rs"
    show "(\<forall>e. ap_ready ?b ! j = Some e \<longrightarrow> reported (rs ! j) e) \<and>
        (\<forall>r. ap_stopped ?b ! j = Some r \<longrightarrow> returned (rs ! j) = Some r \<and> ap_ready ?b ! j \<noteq> None)"
      using live_report j by (cases "j = i") (simp_all add: live_inv_def chans_ok_def)
  qed
  then show ?case using live_report(6) by (simp add: live_inv_def live_told_def all_statuses_def)
next
  case (live_return i a r)
  let ?b = "a\<lparr>ap_stopped := (ap_stopped a)[i := Some r]\<rparr>"
  have "chans_ok rs ?b" unfolding chans_ok_def
  proof (intro allI impI)
    fix j assume j: "j < length rs"
    show "(\<forall>e. ap_ready ?b ! j = Some e \<longrightarrow> reported (rs ! j) e) \<and>
        (\<forall>x. ap_stopped ?b ! j = Some x \<longrightarrow> returned (rs ! j) = Some x \<and> ap_ready ?b ! j \<noteq> None)"
      using live_return j by (cases "j = i") (simp_all add: live_inv_def chans_ok_def)
  qed
  then show ?case using live_return(7) by (simp add: live_inv_def live_told_def all_statuses_def)
qed

lemma live_inv_run:
  assumes "run_step (app_components rs) a b" and "live_inv rs a"
  shows "live_inv rs b"
  using assms
proof (induction rule: run_step.induct)
  case (select_ready i a err)
  then show ?case by (intro live_inv_send told_by_ready) (auto simp: live_inv_def chans_ok_def)
next
  case (select_stopped i a err)
  then show ?case by (intro live_inv_send told_by_stopped) (auto simp: live_inv_def chans_ok_def)
next
  case (select_ctx i a err)
  then show ?case by (intro live_inv_send) (simp_all add: told_by_ctx)
next
  case (not_ready i a)
  then show ?case by (simp add: app_components_ready)
next
  case (collect a)
  then show ?case by (simp add: live_inv_def chans_ok_def live_told_def)
next
  case (set_state a)
  then show ?case by (simp add: live_inv_def chans_ok_def live_told_def)
qed (simp_all add: live_inv_def chans_ok_def live_told_def all_statuses_def)

lemma live_reach_inv: "live_reach rs a \<Longrightarrow> live_inv rs a"
proof (induction rule: live_reach.induct)
  case (live_next a b)
  have "length (ap_ready a) = length rs" "length (ap_stopped a) = length rs"
    using live_app_shape [OF live_next(1)] by (simp_all add: app_shape_def)
  then show ?case using live_next live_inv_env live_inv_run by (auto simp: live_step_def)
qed (rule live_inv_init)

section \<open>Nothing is taken back\<close>

text \<open>Later in time: phases have gone on, what a channel got stays, and a published state is final.\<close>

definition later :: "Application \<Rightarrow> Application \<Rightarrow> bool" where
  "later a b \<longleftrightarrow>
     list_all2 (\<le>) (ap_phase a) (ap_phase b) \<and>
     list_all2 (\<lambda>x y. x = None \<or> y = x) (ap_ready a) (ap_ready b) \<and>
     list_all2 (\<lambda>x y. x = None \<or> y = x) (ap_stopped a) (ap_stopped b) \<and>
     (ap_set a \<longrightarrow> ap_set b \<and> ap_state b = ap_state a \<and> ap_statuses b = ap_statuses a)"

lemma list_all2_update:
  assumes "\<And>x. R x x" and "i < length xs \<Longrightarrow> R (xs ! i) y"
  shows "list_all2 R xs (xs[i := y])"
proof -
  have "R (xs ! j) (xs[i := y] ! j)" if "j < length xs" for j
    using assms that by (cases "j = i") simp_all
  then show ?thesis by (simp add: list_all2_conv_all_nth)
qed

lemma list_all2_same: "(\<And>x. R x x) \<Longrightarrow> list_all2 R xs xs"
  by (simp add: list_all2_conv_all_nth)

lemma later_refl: "later a a"
  by (simp add: later_def list_all2_same)

lemma later_trans: "later a b \<Longrightarrow> later b c \<Longrightarrow> later a c"
  unfolding later_def
  by (intro conjI; elim conjE; (erule (1) list_all2_trans [rotated] | simp); fastforce)

lemma live_env_later: "live_env rs a b \<Longrightarrow> later a b"
  by (induction rule: live_env.induct) (simp_all add: later_def list_all2_same list_all2_update)

lemma run_step_later:
  assumes "run_step cs a b" and "app_shape cs a" and "ap_set a \<longrightarrow> length (ap_statuses a) = length cs"
  shows "later a b"
  using assms
proof (induction rule: run_step.induct)
  case (collect a)
  then show ?case by (cases "ap_results a") (auto simp: later_def receive_status_def list_all2_same)
qed (auto simp: later_def list_all2_same publish_def setState_def intro!: list_all2_update)

lemma live_step_later:
  assumes "live_reach rs a" and "live_step rs a b"
  shows "later a b"
proof -
  have "ap_set a \<longrightarrow> length (ap_statuses a) = length (app_components rs)"
    using live_app_inv [OF assms(1)] by (auto simp only: app_inv_def app_ends_def)
  then show ?thesis
    using assms(2) live_env_later run_step_later live_app_shape [OF assms(1)] by (auto simp: live_step_def)
qed

lemma live_reach_steps: "(live_step rs)\<^sup>*\<^sup>* a b \<Longrightarrow> live_reach rs a \<Longrightarrow> live_reach rs b"
  by (induction rule: rtranclp_induct) (auto intro: live_next)

lemma live_steps_later: "(live_step rs)\<^sup>*\<^sup>* a b \<Longrightarrow> live_reach rs a \<Longrightarrow> later a b"
proof (induction rule: rtranclp_induct)
  case (step b c)
  then show ?case using live_reach_steps live_step_later later_trans by blast
qed (rule later_refl)


section \<open>Progress\<close>

definition none_count :: "'a option list \<Rightarrow> nat" where
  "none_count xs = length (filter (\<lambda>x. x = None) xs)"

lemma none_count_update: "i < length xs \<Longrightarrow> xs ! i = None \<Longrightarrow> none_count (xs[i := Some y]) < none_count xs"
proof (induction xs arbitrary: i)
  case (Cons x xs)
  then show ?case by (cases i) (fastforce simp: none_count_def)+
qed simp

text \<open>What is left to do: the supervisor's own work, and the reports, results and the cancellation still to come.\<close>

definition live_work :: "Application \<Rightarrow> nat" where
  "live_work a = work a + none_count (ap_ready a) + none_count (ap_stopped a) + (if ap_ctx a = None then 1 else 0)"

lemma run_step_channels:
  "run_step cs a b \<Longrightarrow> ap_ready b = ap_ready a \<and> ap_stopped b = ap_stopped a \<and> ap_ctx b = ap_ctx a"
  by (induction rule: run_step.induct) simp_all

lemma live_step_work: "live_reach rs a \<Longrightarrow> live_step rs a b \<Longrightarrow> live_work b < live_work a"
proof (cases "run_step (app_components rs) a b")
  case True
  assume "live_reach rs a"
  then have "work b < work a" by (rule run_step_work [OF True live_app_shape])
  then show ?thesis using run_step_channels [OF True] by (simp add: live_work_def)
next
  case False
  assume reach: "live_reach rs a" and "live_step rs a b"
  then have "live_env rs a b" using False by (simp add: live_step_def)
  moreover have "length (ap_ready a) = length rs" "length (ap_stopped a) = length rs"
    using live_app_shape [OF reach] by (simp_all add: app_shape_def)
  ultimately show ?thesis
    by (induction rule: live_env.induct) (simp_all add: live_work_def work_def none_count_update)
qed

lemma live_progress:
  assumes reach: "live_reach rs a" and all: "\<forall>r \<in> set rs. returned r \<noteq> None" and "\<not> ap_done a"
  shows "\<exists>b. live_step rs a b \<and> ap_ctx b = ap_ctx a"
proof (cases "all_stopped a")
  case True
  then obtain b where "run_step (app_components rs) a b"
    using quiescent_done [OF live_app_inv [OF reach]] assms(3) by blast
  then show ?thesis using run_step_channels by (auto simp: live_step_def)
next
  case False
  have "length (ap_stopped a) = length rs" using live_app_shape [OF reach] by (simp add: app_shape_def)
  then obtain i where i: "i < length rs" "ap_stopped a ! i = None"
    using False by (auto simp: all_stopped_def list_all_length)
  obtain r where r: "returned (rs ! i) = Some r" using all i(1) nth_mem by blast
  show ?thesis
  proof (cases "ap_ready a ! i")
    case None
    obtain err where "reported (rs ! i) err" using reported_ex by blast
    then show ?thesis using live_env.live_report [OF i(1) None] by (force simp: live_step_def)
  next
    case (Some x)
    then show ?thesis using live_env.live_return [OF i(1) _ i(2) r] by (force simp: live_step_def)
  qed
qed

lemma live_to_done:
  assumes "live_reach rs a" and "\<forall>r \<in> set rs. returned r \<noteq> None"
  shows "\<exists>b. (live_step rs)\<^sup>*\<^sup>* a b \<and> ap_done b"
  using assms
proof (induction "live_work a" arbitrary: a rule: less_induct)
  case less
  show ?case
  proof (cases "ap_done a")
    case False
    then obtain b where b: "live_step rs a b" using live_progress less.prems by blast
    then show ?thesis
      using less.hyps [of b] live_step_work less.prems live_next by (meson converse_rtranclp_into_rtranclp)
  qed blast
qed


section \<open>Properties\<close>

text \<open>The published statuses are those of the components, each told by its run.\<close>

lemma published_told:
  assumes "live_reach rs a" and "ap_set a"
  shows "mset (map (cs_Name \<circ> snd) (ap_statuses a)) = mset (map ac_Name (app_components rs))"
    and "list_all (\<lambda>(i, s). told_by (rs ! i) (ap_ctx a) s) (ap_statuses a)"
    and "ap_state a = (if list_all (\<lambda>(i, s). cs_Running s) (ap_statuses a) then StateRunning else StateDegraded)"
    and "fst ` set (ap_statuses a) = {..<length rs}"
proof -
  let ?cs = "app_components rs"
  note st = published_statuses [OF live_app_reach [OF assms(1)] assms(2)]
  have "map (cs_Name \<circ> snd) (ap_statuses a) = map (\<lambda>i. ac_Name (?cs ! i)) (map fst (ap_statuses a))"
    using st(3) by (auto simp: list_all_iff status_ok_def)
  then have "mset (map (cs_Name \<circ> snd) (ap_statuses a)) = mset (map (\<lambda>i. ac_Name (?cs ! i)) (map fst (ap_statuses a)))"
    by (rule arg_cong)
  also have "\<dots> = image_mset (\<lambda>i. ac_Name (?cs ! i)) (mset (map fst (ap_statuses a)))" by (rule mset_map)
  also have "\<dots> = image_mset (\<lambda>i. ac_Name (?cs ! i)) (mset [0..<length ?cs])" by (rule arg_cong [OF st(2)])
  also have "\<dots> = mset (map (\<lambda>i. ac_Name (?cs ! i)) [0..<length ?cs])" by (rule mset_map [symmetric])
  also have "map (\<lambda>i. ac_Name (?cs ! i)) [0..<length ?cs] = map ac_Name ?cs" by (rule nth_equalityI) simp_all
  finally show "mset (map (cs_Name \<circ> snd) (ap_statuses a)) = mset (map ac_Name ?cs)" .
  show "list_all (\<lambda>(i, s). told_by (rs ! i) (ap_ctx a) s) (ap_statuses a)"
    using live_reach_inv [OF assms(1)] by (auto simp: live_inv_def live_told_def all_statuses_def list_all_iff)
  show "ap_state a = (if list_all (\<lambda>(i, s). cs_Running s) (ap_statuses a) then StateRunning else StateDegraded)"
    by (rule st(4))
  have "set (map fst (ap_statuses a)) = set [0..<length ?cs]" using st(2) by (metis set_mset_mset)
  then show "fst ` set (ap_statuses a) = {..<length rs}" by (auto simp: lessThan_atLeast0)
qed


text \<open>C3 (supervised_state). The program's own components under the supervisor, in every interleaving, once the state is
  published: there is one status for each interface the configuration enables; a status says running only if that component's \<^verbatim>\<open>Start\<close>
  reported success, and otherwise carries the error that \<^verbatim>\<open>Start\<close> returned or that of the cancelled context.  So one interface that fails
  to start makes the state degraded, and with no failure and no cancellation it is running.\<close>

theorem supervised_state:
  assumes "live_reach rs a" and "ap_set a" and "map run_component rs = newComponents rc True"
  shows "mset (map (cs_Name \<circ> snd) (ap_statuses a)) = mset (interface_names rc) \<and>
    list_all (\<lambda>(i, s). told_by (rs ! i) (ap_ctx a) s) (ap_statuses a) \<and>
    ((\<exists>r \<in> set rs. \<not> reported r None) \<longrightarrow> ap_state a = StateDegraded) \<and>
    (ap_ctx a = None \<and> (\<forall>r \<in> set rs. returned r = None) \<longrightarrow> ap_state a = StateRunning)"
proof (intro conjI impI)
  note p = published_told [OF assms(1,2)]
  show "mset (map (cs_Name \<circ> snd) (ap_statuses a)) = mset (interface_names rc)"
    using p(1) by (simp only: map_names assms(3) newComponents_names)
  show "list_all (\<lambda>(i, s). told_by (rs ! i) (ap_ctx a) s) (ap_statuses a)" by (rule p(2))
  have told: "told_by (rs ! i) (ap_ctx a) s" if "(i, s) \<in> set (ap_statuses a)" for i s
    using p(2) that by (auto simp: list_all_iff)
  show "ap_state a = StateDegraded" if "\<exists>r \<in> set rs. \<not> reported r None"
  proof -
    from that obtain i where i: "i < length rs" "\<not> reported (rs ! i) None" by (auto simp: in_set_conv_nth)
    then have "i \<in> fst ` set (ap_statuses a)" using p(4) by simp
    then obtain s where s: "(i, s) \<in> set (ap_statuses a)" by auto
    then have "\<not> cs_Running s" using told [OF s] i(2) by (auto simp: told_by_def)
    then show ?thesis using s p(3) by (force simp: list_all_iff)
  qed
  show "ap_state a = StateRunning" if "ap_ctx a = None \<and> (\<forall>r \<in> set rs. returned r = None)"
  proof -
    have "cs_Running s" if s: "(i, s) \<in> set (ap_statuses a)" for i s
    proof -
      have "i \<in> fst ` set (ap_statuses a)" using s by force
      then have "i < length rs" using p(4) by simp
      then show ?thesis using told [OF s] \<open>ap_ctx a = None \<and> _\<close> nth_mem by (fastforce simp: told_by_def split: if_splits)
    qed
    then show ?thesis using p(3) by (auto simp: list_all_iff)
  qed
qed

text \<open>The OpenSSH pipe starts; Pageant finds another one's window.\<close>

definition sample_runs :: "nat component_run list" where
  "sample_runs =
     [RunOpenSSH sample_pipe_env (pipe_New True),
      RunPageant \<lparr>pg_logger = True\<rparr> sample_pageant_env (sample_start_env\<lparr>se_FindWindow := 7\<rparr>) sample_pworld]"

definition sample_rc :: RuntimeConfig where
  "sample_rc =
     \<lparr>rc_ConfigPath = sample_path, rc_LogDirectory = '''', rc_BackendType = BackendEmbedded, rc_BackendPipePath = '''',
      rc_ConnectTimeout = 5, rc_CygwinPath = '''', rc_PageantEnabled = True, rc_CygwinEnabled = False,
      rc_ShowSignNotifications = False, rc_LogLevel = 0\<rparr>"

definition conflict :: goerr where
  "conflict = ErrNew ''Pageant window conflict: another Pageant-compatible application is running''"

lemma sample_run_0: "component_start (sample_runs ! 0) fresh_ready = Some (None, reportReady None fresh_ready)"
  by (simp add: sample_runs_def pipe_run_def pipe_Start_def pipeSecurityDescriptor_def sample_pipe_env_def pipe_shutdown_def)

lemma sample_run_1: "component_start (sample_runs ! 1) fresh_ready = Some (Some conflict, reportReady (Some conflict) fresh_ready)"
  by (simp add: sample_runs_def start_run_def Start_def start_window_def sample_start_env_def sample_pworld_def conflict_def)

lemmas sample_outcomes = reported_def returned_def sample_run_0 sample_run_1 [unfolded One_nat_def]

definition sample_live :: Application where
  "sample_live =
     (let a = (app_New (app_components sample_runs) True True)\<lparr>ap_ready := [Some None, Some (Some conflict)]\<rparr>;
          a = send_result 0 (status_ready (app_components sample_runs ! 0) None) Stopping a;
          a = send_result 1 (status_ready (app_components sample_runs ! 1) (Some conflict)) Stopping a in
      publish (receive_status (receive_status a)))"


lemma sample_live_reach: "live_reach sample_runs sample_live"
proof -
  let ?cs = "app_components sample_runs"
  let ?a0 = "app_New ?cs True True"
  let ?a1 = "?a0\<lparr>ap_ready := [Some None, None]\<rparr>" and ?a2 = "?a0\<lparr>ap_ready := [Some None, Some (Some conflict)]\<rparr>"
  let ?a3 = "send_result 0 (status_ready (?cs ! 0) None) Stopping ?a2"
  let ?a4 = "send_result 1 (status_ready (?cs ! 1) (Some conflict)) Stopping ?a3"
  have n: "length sample_runs = 2" by (simp add: sample_runs_def)
  note new = app_New_def n numeral_2_eq_2
  have e: "live_env sample_runs ?a0 ?a1"
    using live_env.live_report [of 0 sample_runs ?a0 None] by (simp add: new sample_outcomes)
  have r1: "live_reach sample_runs ?a1" by (rule live_next [OF live_init [of _ True True]]) (simp only: live_step_def e simp_thms)
  have e: "live_env sample_runs ?a1 ?a2"
    using live_env.live_report [of 1 sample_runs ?a1 "Some conflict"] by (simp add: new sample_outcomes)
  have r2: "live_reach sample_runs ?a2" by (rule live_next [OF r1]) (simp only: live_step_def e simp_thms)
  have e: "run_step ?cs ?a2 ?a3" by (rule select_ready) (simp_all add: new)
  have r3: "live_reach sample_runs ?a3" by (rule live_next [OF r2]) (simp only: live_step_def e simp_thms)
  have e: "run_step ?cs ?a3 ?a4" by (rule select_ready) (simp_all add: new)
  have r4: "live_reach sample_runs ?a4" by (rule live_next [OF r3]) (simp only: live_step_def e simp_thms)
  have e: "run_step ?cs ?a4 (receive_status ?a4)" by (rule collect) (simp_all add: new)
  have r5: "live_reach sample_runs (receive_status ?a4)" by (rule live_next [OF r4]) (simp only: live_step_def e simp_thms)
  have e: "run_step ?cs (receive_status ?a4) (receive_status (receive_status ?a4))"
    by (rule collect) (simp_all add: new receive_status_def)
  have r6: "live_reach sample_runs (receive_status (receive_status ?a4))"
    by (rule live_next [OF r5]) (simp only: live_step_def e simp_thms)
  have e: "run_step ?cs (receive_status (receive_status ?a4)) (publish (receive_status (receive_status ?a4)))"
    by (rule set_state) (simp_all add: new receive_status_def)
  show ?thesis unfolding sample_live_def Let_def
    by (rule live_next [OF r6]) (simp only: live_step_def e simp_thms)
qed

theorem supervised_state_witness:
  "ap_state sample_live = StateDegraded \<and>
    mset (map (cs_Name \<circ> snd) (ap_statuses sample_live)) = mset [''openssh'', ''pageant'']"
proof -
  have s: "ap_set sample_live" by (simp add: sample_live_def publish_def Let_def)
  have n: "map run_component sample_runs = newComponents sample_rc True"
    by (simp add: sample_runs_def newComponents_def sample_rc_def BackendEmbedded_def)
  have i: "interface_names sample_rc = [''openssh'', ''pageant'']" by (simp add: interface_names_def sample_rc_def)
  have "\<not> reported (sample_runs ! 1) None" by (simp add: sample_outcomes)
  moreover have "sample_runs ! 1 \<in> set sample_runs" by (rule nth_mem) (simp add: sample_runs_def)
  ultimately show ?thesis using supervised_state [OF sample_live_reach s n] i by metis
qed

text \<open>C10 (supervised_shutdown). If the \<^verbatim>\<open>Start\<close> of every component returns, the program's components and the supervisor together
  come to their end from every state they can reach: each step lowers a measure, a system that is not done can take one without being
  cancelled again, and so every run that goes on ends with the \<^verbatim>\<open>done\<close> channel closed, when \<^verbatim>\<open>Shutdown\<close> can return nil.\<close>

theorem supervised_shutdown:
  assumes "live_reach rs a" and "\<forall>r \<in> set rs. returned r \<noteq> None"
  shows "(\<exists>b. (live_step rs)\<^sup>*\<^sup>* a b \<and> ap_done b \<and> None \<in> set (Shutdown_result expired b)) \<and>
    (\<forall>b. (live_step rs)\<^sup>*\<^sup>* a b \<longrightarrow> ap_done b \<or> (\<exists>c. live_step rs b c \<and> ap_ctx c = ap_ctx b)) \<and>
    (\<forall>b c. (live_step rs)\<^sup>*\<^sup>* a b \<and> live_step rs b c \<longrightarrow> live_work c < live_work b)"
proof -
  have reach: "live_reach rs b" if "(live_step rs)\<^sup>*\<^sup>* a b" for b using live_reach_steps [OF that assms(1)] .
  have "ap_done b \<Longrightarrow> None \<in> set (Shutdown_result expired b)" for b by (simp add: Shutdown_result_def)
  then show ?thesis using live_to_done [OF assms] live_progress [OF reach assms(2)] live_step_work [OF reach] by blast
qed

theorem supervised_shutdown_witness:
  "\<exists>b. (live_step sample_runs)\<^sup>*\<^sup>* sample_live b \<and> None \<in> set (Shutdown_result None b)"
proof -
  have "sample_runs = [sample_runs ! 0, sample_runs ! 1]" by (simp add: sample_runs_def)
  then have "set sample_runs = {sample_runs ! 0, sample_runs ! 1}" by (metis list.set(1,2))
  then have "\<forall>r \<in> set sample_runs. returned r \<noteq> None" by (simp add: sample_outcomes)
  then show ?thesis using supervised_shutdown [OF sample_live_reach, of None] by blast
qed

text \<open>(published_final). What has happened is not taken back, whatever the components do afterwards: the goroutines' phases go
  forward, a report or result stays, and the published state and statuses are final.  So the error of an interface that fails after
  the state was published shows nowhere.\<close>

theorem published_final:
  assumes "live_reach rs a" and "(live_step rs)\<^sup>*\<^sup>* a b"
  shows "later a b"
  by (rule live_steps_later [OF assms(2,1)])

theorem published_final_witness:
  "\<exists>b. (live_step sample_runs)\<^sup>*\<^sup>* sample_live b \<and> ap_stopped b \<noteq> ap_stopped sample_live \<and> later sample_live b"
proof -
  let ?b = "sample_live\<lparr>ap_stopped := (ap_stopped sample_live)[0 := Some None]\<rparr>"
  have c: "ap_ready sample_live = [Some None, Some (Some conflict)]" "ap_stopped sample_live = [None, None]"
    by (simp_all add: sample_live_def app_New_def sample_runs_def Let_def app_components_def)
  have "live_env sample_runs sample_live ?b"
    by (rule live_env.live_return) (simp_all add: c sample_outcomes, simp add: sample_runs_def)
  then have "(live_step sample_runs)\<^sup>*\<^sup>* sample_live ?b" by (simp add: live_step_def r_into_rtranclp)
  with published_final [OF sample_live_reach this] show ?thesis by (intro exI [of _ ?b]) (simp add: c)
qed

end
