(* ===== verification/Icon.thy ===== *)
theory Icon
  imports Runtime
begin

text \<open>
  Pure helpers of the tray (src/internal/tray/tray\_windows.go): choosing an image from the embedded ICO
  file, little-endian integers, the directory of a path, fixed-size UTF-16 buffers and API
  results.

  A slice or index out of range panics in Go; here it is \<open>None\<close>, so that a theorem can say that it
  does not happen.
\<close>

section \<open>Slices\<close>

definition slice :: "'a list \<Rightarrow> nat \<Rightarrow> nat \<Rightarrow> 'a list option" where
  "slice xs a b = (if a \<le> b \<and> b \<le> length xs then Some (take (b - a) (drop a xs)) else None)"

definition index :: "'a list \<Rightarrow> nat \<Rightarrow> 'a option" where
  "index xs i = (if i < length xs then Some (xs ! i) else None)"

section \<open>ICO files\<close>

fun binaryLE16 :: "bytes \<Rightarrow> u16 option" where
  "binaryLE16 (a # b # _) = Some (ucast a OR push_bit 8 (ucast b))"
| "binaryLE16 _ = None"

definition binaryLE32 :: "bytes \<Rightarrow> u32 option" where
  "binaryLE32 b =
     Option.bind (binaryLE16 b) (\<lambda>lo.
     Option.bind (slice b 2 (length b)) (\<lambda>rest.
     Option.bind (binaryLE16 rest) (\<lambda>hi. Some (ucast lo OR push_bit 16 (ucast hi)))))"

definition abs64 :: "int \<Rightarrow> int" where
  "abs64 v = (if v < 0 then - v else v)"

text \<open>
  The score of a directory entry: \<^verbatim>\<open>w-width\<close> is 32-bit arithmetic, widened to 64 bits before the
  absolute value, where the sum cannot overflow.
\<close>

definition entry_score :: "byte \<Rightarrow> byte \<Rightarrow> 32 word \<Rightarrow> 32 word \<Rightarrow> int" where
  "entry_score bw bh width height =
     (let w = (if bw = 0 then 256 else ucast bw :: 32 word);
          h = (if bh = 0 then 256 else ucast bh :: 32 word) in
      abs64 (sint (w - width)) + abs64 (sint (h - height)))"

record best =
  bs_Offset :: u32
  bs_Size :: u32
  bs_Score :: int

fun icon_loop :: "bytes \<Rightarrow> 32 word \<Rightarrow> 32 word \<Rightarrow> nat list \<Rightarrow> best \<Rightarrow> best option" where
  "icon_loop ico width height [] b = Some b"
| "icon_loop ico width height (i # is) b =
     (let base = 6 + i * 16 in
      Option.bind (index ico base) (\<lambda>bw.
      Option.bind (index ico (base + 1)) (\<lambda>bh.
        (let score = entry_score bw bh width height in
         if score < bs_Score b then
           Option.bind (Option.bind (slice ico (base + 8) (base + 12)) binaryLE32) (\<lambda>sz.
           Option.bind (Option.bind (slice ico (base + 12) (base + 16)) binaryLE32) (\<lambda>off.
             icon_loop ico width height is \<lparr>bs_Offset = off, bs_Size = sz, bs_Score = score\<rparr>))
         else icon_loop ico width height is b))))"

text \<open>
  \<open>api\<close> is \<^verbatim>\<open>CreateIconFromResourceEx\<close>: the icon for an image, zero on failure, and the error.
\<close>

definition winErr :: "goerr option \<Rightarrow> goerr" where
  "winErr err =
     (case err of
        None \<Rightarrow> ErrNew ''Windows API call failed''
      | Some e \<Rightarrow> if e = ErrErrno 0 then ErrNew ''Windows API call failed without an extended error code'' else e)"

definition createIcon ::
  "(bytes \<Rightarrow> u64 \<times> goerr option) \<Rightarrow> bytes \<Rightarrow> 32 word \<Rightarrow> 32 word \<Rightarrow> u64 result option" where
  "createIcon api ico width height =
     (if length ico < 6 then Some (Inl (ErrNew ''invalid embedded ICO''))
      else
        Option.bind (Option.bind (slice ico 2 4) binaryLE16) (\<lambda>kind.
        if kind \<noteq> 1 then Some (Inl (ErrNew ''invalid embedded ICO''))
        else
          Option.bind (Option.bind (slice ico 4 6) binaryLE16) (\<lambda>n.
          (let count = unat n in
           if count = 0 \<or> 6 + count * 16 > length ico then Some (Inl (ErrNew ''truncated embedded ICO''))
           else
             Option.bind (icon_loop ico width height [0..<count] \<lparr>bs_Offset = 0, bs_Size = 0, bs_Score = 2 ^ 62\<rparr>) (\<lambda>b.
             (let end = unat (bs_Offset b) + unat (bs_Size b) in
              if bs_Size b = 0 \<or> end > length ico then Some (Inl (ErrNew ''ICO image is outside file''))
              else
                Option.bind (slice ico (unat (bs_Offset b)) end) (\<lambda>image.
                Option.bind (index image 0) (\<lambda>_.
                  (case api image of (result, callErr) \<Rightarrow>
                     Some (if result = 0 then Inl (ErrWrap ''CreateIconFromResourceEx'' (winErr callErr))
                       else Inr result))))))))))"

section \<open>Other helpers\<close>

text \<open>\<^verbatim>\<open>filepathDir\<close> scans from the end for a separator.\<close>

fun filepathDir_from :: "string \<Rightarrow> nat \<Rightarrow> string" where
  "filepathDir_from path 0 = ''.''"
| "filepathDir_from path (Suc i) =
     (if path ! i = bslash \<or> path ! i = CHR ''/'' then take i path else filepathDir_from path i)"

definition filepathDir :: "string \<Rightarrow> string" where
  "filepathDir path = filepathDir_from path (length path)"

definition int32Result :: "u64 \<Rightarrow> 32 word" where
  "int32Result result = (if sint (ucast result :: 32 word) \<le> 0 then 16 else ucast result)"

text \<open>
  \<^verbatim>\<open>UTF16FromString\<close> for text of one code unit per character: an error on a NUL, else the units and a
  terminator.  \<^verbatim>\<open>copy\<close> stops at the shorter of the two.
\<close>

definition UTF16FromString :: "string \<Rightarrow> u16 list option" where
  "UTF16FromString s =
     (if List.member s (CHR 0x00) then None else Some (map (\<lambda>c. of_nat (of_char c)) s @ [0]))"

definition go_copy :: "'a list \<Rightarrow> 'a list \<Rightarrow> 'a list" where
  "go_copy dst src = take (length dst) src @ drop (length src) dst"

definition copyUTF16 :: "u16 list \<Rightarrow> string \<Rightarrow> u16 list option" where
  "copyUTF16 dst value =
     (case UTF16FromString value of
        None \<Rightarrow> Some dst
      | Some encoded \<Rightarrow>
          (if dst = [] then None else Some ((go_copy dst encoded)[length dst - 1 := 0])))"

definition UTF16ToString :: "u16 list \<Rightarrow> string" where
  "UTF16ToString us = map (\<lambda>u. char_of (unat u)) (takeWhile (\<lambda>u. u \<noteq> 0) us)"

section \<open>Lemmas\<close>

lemma slice_Some: "a \<le> b \<Longrightarrow> b \<le> length xs \<Longrightarrow> slice xs a b = Some (take (b - a) (drop a xs))"
  by (simp add: slice_def)

lemma binaryLE16_ok: "2 \<le> length b \<Longrightarrow> \<exists>v. binaryLE16 b = Some v"
  by (cases b rule: binaryLE16.cases) auto

lemma binaryLE32_ok: "4 \<le> length b \<Longrightarrow> \<exists>v. binaryLE32 b = Some v"
proof -
  assume b: "4 \<le> length b"
  obtain lo where "binaryLE16 b = Some lo" using binaryLE16_ok [of b] b by auto
  moreover have "2 \<le> length (drop 2 b)" using b by simp
  then obtain hi where "binaryLE16 (drop 2 b) = Some hi" using binaryLE16_ok by blast
  ultimately show ?thesis using b by (simp add: binaryLE32_def slice_def)
qed

lemma entry_score_bounds: "0 \<le> entry_score bw bh w h \<and> entry_score bw bh w h < 2 ^ 62"
proof -
  have "abs64 (sint (x :: 32 word)) \<le> 2 ^ 31" "0 \<le> abs64 (sint x)" for x
    using sint_greater_eq [of x] sint_less [of x] by (auto simp: abs64_def)
  then have "0 \<le> abs64 (sint (x :: 32 word)) + abs64 (sint (y :: 32 word)) \<and>
      abs64 (sint x) + abs64 (sint y) \<le> 2 ^ 31 + 2 ^ 31" for x y
    by (meson add_mono add_nonneg_nonneg)
  then show ?thesis by (simp add: entry_score_def Let_def) (smt (verit))
qed

text \<open>The directory entries as a specification: position, score and image of each.\<close>

definition entry_of :: "bytes \<Rightarrow> 32 word \<Rightarrow> 32 word \<Rightarrow> nat \<Rightarrow> best" where
  "entry_of ico width height i =
     (let base = 6 + i * 16 in
      \<lparr>bs_Offset = the (binaryLE32 (take 4 (drop (base + 12) ico))),
       bs_Size = the (binaryLE32 (take 4 (drop (base + 8) ico))),
       bs_Score = entry_score (ico ! base) (ico ! (base + 1)) width height\<rparr>)"

fun best_of :: "best list \<Rightarrow> best \<Rightarrow> best" where
  "best_of [] b = b"
| "best_of (x # xs) b = best_of xs (if bs_Score x < bs_Score b then x else b)"

lemma icon_loop_best:
  "\<forall>i \<in> set is. 6 + i * 16 + 16 \<le> length ico \<Longrightarrow>
    icon_loop ico width height is b = Some (best_of (map (entry_of ico width height) is) b)"
proof (induction "is" arbitrary: b)
  case Nil
  show ?case by simp
next
  case (Cons i "is")
  let ?base = "6 + i * 16"
  have len: "?base + 16 \<le> length ico" using Cons.prems by simp
  have ix: "index ico ?base = Some (ico ! ?base)" "index ico (?base + 1) = Some (ico ! (?base + 1))"
    using len by (simp_all add: index_def)
  have sl: "slice ico (?base + 8) (?base + 12) = Some (take 4 (drop (?base + 8) ico))"
    "slice ico (?base + 12) (?base + 16) = Some (take 4 (drop (?base + 12) ico))"
    using len by (simp_all add: slice_def)
  obtain sz where sz: "binaryLE32 (take 4 (drop (?base + 8) ico)) = Some sz"
    using binaryLE32_ok [of "take 4 (drop (?base + 8) ico)"] len by auto
  obtain off where off: "binaryLE32 (take 4 (drop (?base + 12) ico)) = Some off"
    using binaryLE32_ok [of "take 4 (drop (?base + 12) ico)"] len by auto
  have e: "entry_of ico width height i =
      \<lparr>bs_Offset = off, bs_Size = sz, bs_Score = entry_score (ico ! ?base) (ico ! (?base + 1)) width height\<rparr>"
    by (simp only: entry_of_def Let_def sz off option.sel)
  show ?case
    using Cons by (simp only: icon_loop.simps Let_def ix sl sz off bind.bind_lunit list.map best_of.simps e
        best.select_convs if_True if_False split: if_split) simp
qed

lemma best_of_min:
  "bs_Score (best_of xs b) \<le> bs_Score b \<and> (\<forall>x\<in>set xs. bs_Score (best_of xs b) \<le> bs_Score x) \<and>
    (best_of xs b = b \<or> best_of xs b \<in> set xs)"
proof (induction xs arbitrary: b)
  case (Cons x xs)
  show ?case using Cons [of "if bs_Score x < bs_Score b then x else b"] by (auto split: if_splits)
qed simp

text \<open>The image the loop settles on, as a function of a well-formed directory.\<close>

definition chosen :: "bytes \<Rightarrow> nat \<Rightarrow> 32 word \<Rightarrow> 32 word \<Rightarrow> best" where
  "chosen ico count width height =
     best_of (map (entry_of ico width height) [0..<count]) \<lparr>bs_Offset = 0, bs_Size = 0, bs_Score = 2 ^ 62\<rparr>"

lemma chosen_entry:
  assumes "0 < count"
  shows "\<exists>i<count. chosen ico count width height = entry_of ico width height i \<and>
    (\<forall>j<count. bs_Score (entry_of ico width height i) \<le> bs_Score (entry_of ico width height j))"
proof -
  let ?xs = "map (entry_of ico width height) [0..<count]"
  let ?b = "\<lparr>bs_Offset = 0, bs_Size = 0, bs_Score = 2 ^ 62\<rparr> :: best"
  note m = best_of_min [of ?xs ?b]
  have "bs_Score (entry_of ico width height 0) < 2 ^ 62"
    using entry_score_bounds by (simp add: entry_of_def Let_def)
  moreover have "entry_of ico width height 0 \<in> set ?xs" using assms by simp
  ultimately have "best_of ?xs ?b \<noteq> ?b" using m by force
  then have "best_of ?xs ?b \<in> set ?xs" using m by blast
  then obtain i where i: "i < count" "chosen ico count width height = entry_of ico width height i"
    by (auto simp: chosen_def)
  moreover have "bs_Score (entry_of ico width height i) \<le> bs_Score (entry_of ico width height j)" if "j < count" for j
    using m that i(2) by (auto simp: chosen_def)
  ultimately show ?thesis by blast
qed


text \<open>Every path through \<^verbatim>\<open>createIcon\<close>.\<close>

lemma createIcon_cases:
  obtains (refused) e where "createIcon api ico width height = Some (Inl e)"
  | (made) count b image where "0 < count" "6 + count * 16 \<le> length ico" "b = chosen ico count width height"
      "bs_Size b \<noteq> 0" "unat (bs_Offset b) + unat (bs_Size b) \<le> length ico"
      "image = take (unat (bs_Size b)) (drop (unat (bs_Offset b)) ico)" "image \<noteq> []"
      "createIcon api ico width height = (case api image of (result, callErr) \<Rightarrow>
         Some (if result = 0 then Inl (ErrWrap ''CreateIconFromResourceEx'' (winErr callErr)) else Inr result))"
proof (cases "length ico < 6")
  case True
  then show ?thesis by (intro refused) (simp add: createIcon_def)
next
  case False
  have read: "\<exists>v. Option.bind (slice ico k (k + 2)) binaryLE16 = Some v" if "k \<le> 4" for k
  proof -
    have "slice ico k (k + 2) = Some (take 2 (drop k ico))" using False that by (simp add: slice_def)
    moreover have "2 \<le> length (take 2 (drop k ico))" using False that by simp
    then obtain v where "binaryLE16 (take 2 (drop k ico)) = Some v" using binaryLE16_ok by blast
    ultimately show ?thesis by simp
  qed
  obtain kind where kind: "Option.bind (slice ico 2 4) binaryLE16 = Some kind" using read [of 2] by auto
  obtain n where n: "Option.bind (slice ico 4 6) binaryLE16 = Some n" using read [of 4] by auto
  note start = createIcon_def False kind n Let_def
  show ?thesis
  proof (cases "kind \<noteq> 1 \<or> unat n = 0 \<or> 6 + unat n * 16 > length ico")
    case True
    then have "\<exists>e. createIcon api ico width height = Some (Inl e)" by (auto simp: start)
    then show ?thesis using refused by blast
  next
    case dir: False
    have loop: "icon_loop ico width height [0..<unat n] \<lparr>bs_Offset = 0, bs_Size = 0, bs_Score = 2 ^ 62\<rparr> =
        Some (chosen ico (unat n) width height)"
      unfolding chosen_def by (rule icon_loop_best) (use dir in auto)
    let ?b = "chosen ico (unat n) width height"
    show ?thesis
    proof (cases "bs_Size ?b = 0 \<or> unat (bs_Offset ?b) + unat (bs_Size ?b) > length ico")
      case True
      then have "\<exists>e. createIcon api ico width height = Some (Inl e)"
        using dir loop by (auto simp: start)
      then show ?thesis using refused by blast
    next
      case False
      let ?image = "take (unat (bs_Size ?b)) (drop (unat (bs_Offset ?b)) ico)"
      have "0 < unat (bs_Size ?b)" using False by (simp add: unat_gt_0)
      then have ne: "?image \<noteq> []" using False by auto
      have sl: "slice ico (unat (bs_Offset ?b)) (unat (bs_Offset ?b) + unat (bs_Size ?b)) = Some ?image"
        using False by (simp add: slice_def)
      have "createIcon api ico width height = (case api ?image of (result, callErr) \<Rightarrow>
          Some (if result = 0 then Inl (ErrWrap ''CreateIconFromResourceEx'' (winErr callErr)) else Inr result))"
        using dir loop False ne sl by (simp add: start index_def)
      then show ?thesis using dir False ne by (intro made [of "unat n" ?b ?image]) auto
    qed
  qed
qed

section \<open>Properties\<close>


lemma unit_of_char: "unat (of_nat (of_char c) :: u16) = of_char c"
proof -
  have "of_char c < (65536 :: nat)" using char_code_less [of c] unfolding char_code_def by linarith
  then show ?thesis by (simp add: unat_of_nat)
qed

lemma unit_nonzero: "c \<noteq> CHR 0x00 \<Longrightarrow> (of_nat (of_char c) :: u16) \<noteq> 0"
proof
  assume c: "c \<noteq> CHR 0x00" and "(of_nat (of_char c) :: u16) = 0"
  with unit_of_char [of c] have "of_char c = (0 :: nat)" by simp
  then have "char_code c = char_code (CHR 0x00)" by (simp add: char_code_def)
  with c show False by simp
qed

lemma UTF16FromString_None_iff: "UTF16FromString s = None \<longleftrightarrow> CHR 0x00 \<in> set s"
  by (simp add: UTF16FromString_def)

lemma UTF16FromString_Some_iff:
  "UTF16FromString s = Some us \<longleftrightarrow> CHR 0x00 \<notin> set s \<and> us = map (\<lambda>c. of_nat (of_char c)) s @ [0]"
  by (auto simp: UTF16FromString_def)

lemma units_takeWhile:
  assumes "CHR 0x00 \<notin> set s"
  shows "takeWhile (\<lambda>u. u \<noteq> 0) (map (\<lambda>c. of_nat (of_char c)) s @ 0 # rest) =
    (map (\<lambda>c. of_nat (of_char c)) s :: u16 list)"
proof -
  have "(of_nat (of_char c) :: u16) \<noteq> 0" if "c \<in> set s" for c
    using that assms by (intro unit_nonzero) auto
  then show ?thesis by (subst takeWhile_append2) auto
qed

lemma UTF16ToString_units:
  "CHR 0x00 \<notin> set s \<Longrightarrow> UTF16ToString (map (\<lambda>c. of_nat (of_char c)) s @ 0 # rest) = s"
  by (simp add: UTF16ToString_def units_takeWhile unit_of_char o_def)

lemma copyUTF16_terminated:
  assumes "dst \<noteq> []" and "last dst = 0"
  shows "\<exists>out. copyUTF16 dst value = Some out \<and> length out = length dst \<and> last out = 0 \<and>
    (length value < length dst \<and> CHR 0x00 \<notin> set value \<longrightarrow> UTF16ToString out = value)"
proof (cases "UTF16FromString value")
  case None
  then show ?thesis using assms by (auto simp: copyUTF16_def UTF16FromString_def split: if_splits)
next
  case (Some enc)
  then have enc: "CHR 0x00 \<notin> set value" "enc = map (\<lambda>c. of_nat (of_char c)) value @ [0]"
    by (auto simp: UTF16FromString_def split: if_splits)
  let ?out = "(go_copy dst enc)[length dst - 1 := 0]"
  have len: "length (go_copy dst enc) = length dst" by (simp add: go_copy_def)
  have last: "last ?out = 0" using assms(1) len by (subst last_conv_nth) auto
  have "UTF16ToString ?out = value" if fit: "length value < length dst"
  proof -
    have "go_copy dst enc = map (\<lambda>c. of_nat (of_char c)) value @ 0 # drop (length value + 1) dst"
      using fit by (simp add: go_copy_def enc)
    then have "\<exists>rest. ?out = map (\<lambda>c. of_nat (of_char c)) value @ 0 # rest"
      using fit by (cases "length dst - Suc (length value)") (auto simp: list_update_append nth_append)
    then show ?thesis using UTF16ToString_units [OF enc(1)] by auto
  qed
  then show ?thesis using Some assms(1) len last by (simp add: copyUTF16_def)
qed

text \<open>(tooltip_terminated). Whatever the text, \<^verbatim>\<open>copyUTF16\<close> into a non-empty buffer keeps its length and
  leaves it terminated (given it was), never writing outside it; and a text that fits reads back
  unchanged.\<close>

theorem tooltip_terminated:
  assumes "dst \<noteq> []" and "last dst = 0"
  shows "\<exists>out. copyUTF16 dst value = Some out \<and> length out = length dst \<and> last out = 0 \<and>
    (length value < length dst \<and> CHR 0x00 \<notin> set value \<longrightarrow> UTF16ToString out = value)"
  using assms by (rule copyUTF16_terminated)

theorem tooltip_terminated_witness:
  "\<exists>out. copyUTF16 (replicate 128 0) ''OmniSSHAgent - Running'' = Some out \<and> UTF16ToString out = ''OmniSSHAgent - Running''"
  using tooltip_terminated [of "replicate 128 0" "''OmniSSHAgent - Running''"] by auto

definition is_sep :: "char \<Rightarrow> bool" where
  "is_sep c \<longleftrightarrow> c = bslash \<or> c = CHR ''/''"

lemma filepathDir_from_spec:
  "n \<le> length path \<Longrightarrow>
    (filepathDir_from path n = ''.'' \<and> list_all (\<lambda>c. \<not> is_sep c) (take n path)) \<or>
    (\<exists>sep base. is_sep sep \<and> list_all (\<lambda>c. \<not> is_sep c) base \<and>
       take n path = filepathDir_from path n @ sep # base)"
proof (induction n)
  case 0
  show ?case by simp
next
  case (Suc n)
  have t: "take (Suc n) path = take n path @ [path ! n]" using Suc.prems by (simp add: take_Suc_conv_app_nth)
  show ?case
  proof (cases "is_sep (path ! n)")
    case True
    then show ?thesis using t by (auto simp: is_sep_def)
  next
    case False
    then have "filepathDir_from path (Suc n) = filepathDir_from path n" by (simp add: is_sep_def)
    then show ?thesis using Suc False t by fastforce
  qed
qed

text \<open>(filepathDir_splits). \<^verbatim>\<open>filepathDir\<close> cuts a path at its last separator of either kind: the path is
  the result, one separator and a name with none; a path without a separator gives the current
  directory.  In particular a file in the root of a drive gives the bare drive, without the
  separator that makes it the root.\<close>

theorem filepathDir_splits:
  "((filepathDir path = ''.'' \<and> list_all (\<lambda>c. \<not> is_sep c) path) \<or>
    (\<exists>sep base. is_sep sep \<and> list_all (\<lambda>c. \<not> is_sep c) base \<and> path = filepathDir path @ sep # base)) \<and>
   filepathDir (''C:'' @ [bslash] @ ''config.toml'') = ''C:''"
  using filepathDir_from_spec [of "length path" path]
  by (auto simp: filepathDir_def bslash_def eval_nat_numeral)

end
