(* ===== verification/Tray.thy ===== *)
theory Tray
  imports Icon App
begin

text \<open>
  The notification-area icon and its menu (src/internal/tray/tray\_windows.go): the state machine of
  the tray window.  The state is the \<^verbatim>\<open>Tray\<close> structure; what it does to Windows is a list of events,
  with whether the shell currently shows the icon and which menu items are checked kept beside it.
\<close>

section \<open>Constants and the menu\<close>

definition trWmDestroy :: u32 where "trWmDestroy = 0x2"
definition wmCommand :: u32 where "wmCommand = 0x111"
definition wmClose :: u32 where "wmClose = 0x10"
definition wmLButtonUp :: u32 where "wmLButtonUp = 0x202"
definition wmRButtonUp :: u32 where "wmRButtonUp = 0x205"
definition wmUser :: u32 where "wmUser = 0x400"
definition wmTray :: u32 where "wmTray = wmUser + 1"
definition wmApply :: u32 where "wmApply = wmUser + 2"

definition mfString :: u32 where "mfString = 0"
definition mfDisabled :: u32 where "mfDisabled = 2"
definition mfChecked :: u32 where "mfChecked = 8"
definition mfUnchecked :: u32 where "mfUnchecked = 0"
definition mfSeparator :: u32 where "mfSeparator = 0x800"

definition menuStatus :: u64 where "menuStatus = 1001"
definition menuOpenConfig :: u64 where "menuOpenConfig = 1002"
definition menuOpenConfigDir :: u64 where "menuOpenConfigDir = 1003"
definition menuOpenLogDir :: u64 where "menuOpenLogDir = 1004"
definition menuSettings :: u64 where "menuSettings = 1005"
definition menuPageant :: u64 where "menuPageant = 1006"
definition menuCygwin :: u64 where "menuCygwin = 1007"
definition menuAutoStart :: u64 where "menuAutoStart = 1008"
definition menuQuit :: u64 where "menuQuit = 1009"

lemmas menu_defs = menuStatus_def menuOpenConfig_def menuOpenConfigDir_def menuOpenLogDir_def
  menuSettings_def menuPageant_def menuCygwin_def menuAutoStart_def menuQuit_def

record menuEntry =
  me_flags :: u32
  me_id :: u64
  me_text :: string

definition requiredMenuEntries :: "menuEntry list" where
  "requiredMenuEntries =
     [\<lparr>me_flags = mfString OR mfDisabled, me_id = menuStatus, me_text = ''Status: Degraded''\<rparr>,
      \<lparr>me_flags = mfSeparator, me_id = 0, me_text = ''''\<rparr>,
      \<lparr>me_flags = mfString, me_id = menuOpenConfig, me_text = ''Open configuration''\<rparr>,
      \<lparr>me_flags = mfString, me_id = menuOpenConfigDir, me_text = ''Open configuration directory''\<rparr>,
      \<lparr>me_flags = mfString, me_id = menuOpenLogDir, me_text = ''Open log directory''\<rparr>,
      \<lparr>me_flags = mfSeparator, me_id = 0, me_text = ''''\<rparr>,
      \<lparr>me_flags = mfString, me_id = menuSettings, me_text = ''Settings''\<rparr>,
      \<lparr>me_flags = mfString OR mfUnchecked, me_id = menuPageant, me_text = ''Enable Pageant interface''\<rparr>,
      \<lparr>me_flags = mfString OR mfUnchecked, me_id = menuCygwin, me_text = ''Enable Cygwin/MSYS2 interface''\<rparr>,
      \<lparr>me_flags = mfString OR mfUnchecked, me_id = menuAutoStart, me_text = ''Start with Windows''\<rparr>,
      \<lparr>me_flags = mfSeparator, me_id = 0, me_text = ''''\<rparr>,
      \<lparr>me_flags = mfString, me_id = menuQuit, me_text = ''Quit''\<rparr>]"

section \<open>State\<close>

record Tray =
  tr_configPath :: string
  tr_logDirectory :: string
  tr_hasQuit :: bool
  tr_state :: State
  tr_window :: u64
  tr_icon :: u64
  tr_menu :: u64
  tr_tip :: "u16 list"
  tr_taskbarCreated :: u32
  tr_added :: bool
  tr_shuttingDown :: bool

datatype tray_event =
    TPost u64 u32
  | TNotifyAdd
  | TNotifyModify "u16 list"
  | TNotifyDelete
  | TModifyMenu string
  | TCheck u64 bool
  | TPopup
  | TOpenPath string
  | TOpenConfiguration string
  | TOpenSettings
  | TShowFatal string
  | TOnQuit
  | TDestroyMenu u64
  | TDestroyWindow u64
  | TDestroyIcon u64
  | TPostQuit

text \<open>What the tray acts on: files, the registry key, the shell's icon, and the events so far.\<close>

record tray_world =
  tw_os :: world
  tw_key :: run_key
  tw_iconShown :: bool
  tw_checked :: "u64 \<Rightarrow> bool"
  tw_events :: "tray_event list"

record tray_env =
  te_fp :: filepath_ops
  te_os :: os_env
  te_toml :: toml_ops
  te_registry :: registry_env
  te_addFails :: "nat \<Rightarrow> goerr option option"
  te_cursorOK :: bool
  te_DefWindowProc :: "u32 \<Rightarrow> u64"

definition tray_New :: "string \<Rightarrow> string \<Rightarrow> bool \<Rightarrow> Tray" where
  "tray_New configPath logDirectory hasQuit =
     \<lparr>tr_configPath = configPath, tr_logDirectory = logDirectory, tr_hasQuit = hasQuit,
      tr_state = StateDegraded, tr_window = 0, tr_icon = 0, tr_menu = 0, tr_tip = replicate 128 0,
      tr_taskbarCreated = 0, tr_added = False, tr_shuttingDown = False\<rparr>"

definition emit :: "tray_event \<Rightarrow> tray_world \<Rightarrow> tray_world" where
  "emit e w = w\<lparr>tw_events := tw_events w @ [e]\<rparr>"

section \<open>Operations\<close>

definition tray_SetState :: "State \<Rightarrow> Tray \<times> tray_world \<Rightarrow> Tray \<times> tray_world" where
  "tray_SetState state = (\<lambda>(t, w).
     if tr_shuttingDown t then (t, w)
     else (t\<lparr>tr_state := state\<rparr>, if tr_window t \<noteq> 0 then emit (TPost (tr_window t) wmApply) w else w))"

text \<open>\<open>te_addFails\<close> says whether \<^verbatim>\<open>Shell_NotifyIconW\<close> fails, by the number of events before it.\<close>

definition addIcon :: "tray_env \<Rightarrow> Tray \<times> tray_world \<Rightarrow> goerr option \<times> Tray \<times> tray_world" where
  "addIcon te = (\<lambda>(t, w).
     case te_addFails te (length (tw_events w)) of
       Some callErr \<Rightarrow> (Some (winErr callErr), t, w)
     | None \<Rightarrow> (None, t\<lparr>tr_added := True\<rparr>, (emit TNotifyAdd w)\<lparr>tw_iconShown := True\<rparr>))"

definition stateLabel :: "State \<Rightarrow> string" where
  "stateLabel state =
     (if state = StateRunning then ''Running''
      else if state = StateConfigurationError then ''Configuration error''
      else ''Degraded'')"

definition applyState :: "Tray \<times> tray_world \<Rightarrow> Tray \<times> tray_world" where
  "applyState = (\<lambda>(t, w).
     (let tip = (case copyUTF16 (tr_tip t) (Tooltip (tr_state t)) of Some x \<Rightarrow> x | None \<Rightarrow> tr_tip t);
          w1 = (if tr_added t then emit (TNotifyModify tip) w else w) in
      (t\<lparr>tr_tip := tip\<rparr>, emit (TModifyMenu (''Status: '' @ stateLabel (tr_state t))) w1)))"

definition setMenuCheck :: "u64 \<Rightarrow> bool \<Rightarrow> tray_world \<Rightarrow> tray_world" where
  "setMenuCheck item enabled w = (emit (TCheck item enabled) w)\<lparr>tw_checked := (tw_checked w)(item := enabled)\<rparr>"

definition applyMenuChecks :: "tray_env \<Rightarrow> Tray \<Rightarrow> tray_world \<Rightarrow> goerr option \<times> tray_world" where
  "applyMenuChecks te t w =
     (case LoadBooleanSettings (te_os te) (te_toml te) (tr_configPath t) (tw_os w) of
        (settings, o1) \<Rightarrow>
          (let w1 = w\<lparr>tw_os := o1\<rparr>;
               w2 = (case settings of
                       Inl _ \<Rightarrow> w1
                     | Inr s \<Rightarrow> setMenuCheck menuCygwin (bs_CygwinEnabled s)
                         (setMenuCheck menuPageant (bs_PageantEnabled s) w1)) in
           case Enabled (te_registry te) (tw_key w2) of
             Inl e \<Rightarrow> (Some e, w2)
           | Inr enabled \<Rightarrow> (None, setMenuCheck menuAutoStart enabled w2)))"

definition showMenu :: "tray_env \<Rightarrow> Tray \<Rightarrow> tray_world \<Rightarrow> tray_world" where
  "showMenu te t w =
     (let w1 = snd (applyMenuChecks te t w) in if te_cursorOK te then emit TPopup w1 else w1)"

definition toggleConfigSetting :: "tray_env \<Rightarrow> BooleanSetting \<Rightarrow> Tray \<Rightarrow> tray_world \<Rightarrow> tray_world" where
  "toggleConfigSetting te setting t w =
     (case CreateDefault (te_fp te) (te_os te) (te_toml te) (tr_configPath t) (tw_os w) of
        (Inl e, o1) \<Rightarrow> emit (TShowFatal ''Configuration update failed'') (w\<lparr>tw_os := o1\<rparr>)
      | (Inr _, o1) \<Rightarrow>
          (case ToggleBooleanSetting (te_fp te) (te_os te) (te_toml te) (tr_configPath t) setting o1 of
             (Inl e, o2) \<Rightarrow> emit (TShowFatal ''Configuration update failed'') (w\<lparr>tw_os := o2\<rparr>)
           | (Inr _, o2) \<Rightarrow> snd (applyMenuChecks te t (w\<lparr>tw_os := o2\<rparr>))))"

definition toggleAutoStart :: "tray_env \<Rightarrow> Tray \<Rightarrow> tray_world \<Rightarrow> tray_world" where
  "toggleAutoStart te t w =
     (case Enabled (te_registry te) (tw_key w) of
        Inl e \<Rightarrow> emit (TShowFatal ''Auto-start setting failed'') w
      | Inr enabled \<Rightarrow>
          (case SetEnabled (te_registry te) (\<not> enabled) (tw_key w) of
             (Some e, key) \<Rightarrow> emit (TShowFatal ''Auto-start setting failed'') (w\<lparr>tw_key := key\<rparr>)
           | (None, key) \<Rightarrow> snd (applyMenuChecks te t (w\<lparr>tw_key := key\<rparr>))))"

definition command :: "tray_env \<Rightarrow> u64 \<Rightarrow> Tray \<Rightarrow> tray_world \<Rightarrow> tray_world" where
  "command te item t w =
     (if tr_shuttingDown t then w
      else if item = menuOpenConfig then
        emit (TOpenConfiguration (tr_configPath t))
          (w\<lparr>tw_os := snd (CreateDefault (te_fp te) (te_os te) (te_toml te) (tr_configPath t) (tw_os w))\<rparr>)
      else if item = menuOpenConfigDir then emit (TOpenPath (filepathDir (tr_configPath t))) w
      else if item = menuOpenLogDir then emit (TOpenPath (tr_logDirectory t)) w
      else if item = menuSettings then emit TOpenSettings w
      else if item = menuPageant then toggleConfigSetting te PageantEnabled t w
      else if item = menuCygwin then toggleConfigSetting te CygwinEnabled t w
      else if item = menuAutoStart then toggleAutoStart te t w
      else if item = menuQuit then (if tr_hasQuit t then emit TOnQuit w else w)
      else w)"

definition quit :: "Tray \<times> tray_world \<Rightarrow> Tray \<times> tray_world" where
  "quit = (\<lambda>(t, w).
     if tr_shuttingDown t then (t, w)
     else (t\<lparr>tr_shuttingDown := True\<rparr>, if tr_window t \<noteq> 0 then emit (TPost (tr_window t) wmClose) w else w))"

definition remove_icon :: "Tray \<times> tray_world \<Rightarrow> Tray \<times> tray_world" where
  "remove_icon = (\<lambda>(t, w).
     if tr_added t then (t\<lparr>tr_added := False\<rparr>, (emit TNotifyDelete w)\<lparr>tw_iconShown := False\<rparr>) else (t, w))"

text \<open>Destroying the window delivers \<^verbatim>\<open>WM_DESTROY\<close> to \<^verbatim>\<open>windowProc\<close> at once: the icon is gone by then, so it only posts quit.\<close>

definition tray_close :: "Tray \<times> tray_world \<Rightarrow> Tray \<times> tray_world" where
  "tray_close x =
     (let (t1, w1) = remove_icon x;
          (t2, w2) = (if tr_menu t1 \<noteq> 0 then (t1\<lparr>tr_menu := 0\<rparr>, emit (TDestroyMenu (tr_menu t1)) w1) else (t1, w1));
          (t3, w3) = (if tr_window t2 \<noteq> 0 then (t2\<lparr>tr_window := 0\<rparr>, emit TPostQuit (emit (TDestroyWindow (tr_window t2)) w2)) else (t2, w2))
      in if tr_icon t3 \<noteq> 0 then (t3\<lparr>tr_icon := 0\<rparr>, emit (TDestroyIcon (tr_icon t3)) w3) else (t3, w3))"

record tmessage =
  tm_Message :: u32
  tm_WParam :: u64
  tm_LParam :: u64

text \<open>
  \<^verbatim>\<open>windowProc\<close> with this tray active.  The broadcast message of a restarted shell means that the
  shell no longer shows the icon, which the message itself brings with it.
\<close>

definition tray_windowProc :: "tray_env \<Rightarrow> tmessage \<Rightarrow> Tray \<times> tray_world \<Rightarrow> u64 \<times> Tray \<times> tray_world" where
  "tray_windowProc te m = (\<lambda>(t, w).
     if tm_Message m = tr_taskbarCreated t \<and> tm_Message m \<noteq> 0 then
       (0, snd (addIcon te (t\<lparr>tr_added := False\<rparr>, w\<lparr>tw_iconShown := False\<rparr>)))
     else if tm_Message m = wmTray then
       (0, t, if ucast (tm_LParam m) = wmLButtonUp \<or> ucast (tm_LParam m) = wmRButtonUp then showMenu te t w else w)
     else if tm_Message m = wmCommand then (0, t, command te (tm_WParam m AND 0xffff) t w)
     else if tm_Message m = wmApply then (0, applyState (t, w))
     else if tm_Message m = trWmDestroy then
       (let (t1, w1) = remove_icon (t, w) in (0, t1\<lparr>tr_window := 0\<rparr>, emit TPostQuit w1))
     else (te_DefWindowProc te (tm_Message m), t, w))"

section \<open>Initialisation and the message loop\<close>

text \<open>\<open>init_env\<close>: what the calls of \<^verbatim>\<open>initialize\<close> return, in order.\<close>

record init_env =
  ie_GetModuleHandle :: "u64 \<times> goerr option"
  ie_RegisterClass :: "u64 \<times> goerr option"
  ie_CreateWindow :: "u64 \<times> goerr option"
  ie_RegisterWindowMessage :: "u64 \<times> goerr option"
  ie_iconBytes :: "bytes result"
  ie_metrics :: "u64 \<times> u64"
  ie_CreateIcon :: "bytes \<Rightarrow> u64 \<times> goerr option"
  ie_CreatePopupMenu :: "u64 \<times> goerr option"
  ie_AppendMenu :: "menuEntry \<Rightarrow> u64 \<times> goerr option"

fun append_items :: "init_env \<Rightarrow> menuEntry list \<Rightarrow> goerr option" where
  "append_items ie [] = None"
| "append_items ie (item # items) =
     (case ie_AppendMenu ie item of (result, callErr) \<Rightarrow>
        if result = 0 then Some (winErr callErr) else append_items ie items)"

definition init_menu :: "tray_env \<Rightarrow> init_env \<Rightarrow> Tray \<times> tray_world \<Rightarrow> goerr option \<times> Tray \<times> tray_world" where
  "init_menu te ie = (\<lambda>(t, w).
     case ie_CreatePopupMenu ie of (menu, callErr) \<Rightarrow>
       if menu = 0 then (Some (winErr callErr), t, w)
       else
         (let t1 = t\<lparr>tr_menu := menu\<rparr> in
          case append_items ie requiredMenuEntries of
            Some e \<Rightarrow> (Some e, t1, w)
          | None \<Rightarrow> (None, applyState (t1\<lparr>tr_tip := replicate 128 0\<rparr>, snd (applyMenuChecks te t1 w)))))"

definition initialize :: "tray_env \<Rightarrow> init_env \<Rightarrow> Tray \<times> tray_world \<Rightarrow> goerr option \<times> Tray \<times> tray_world" where
  "initialize te ie = (\<lambda>(t, w).
     if fst (ie_GetModuleHandle ie) = 0 then (Some (winErr (snd (ie_GetModuleHandle ie))), t, w)
     else if fst (ie_RegisterClass ie) = 0 then (Some (winErr (snd (ie_RegisterClass ie))), t, w)
     else if fst (ie_CreateWindow ie) = 0 then (Some (winErr (snd (ie_CreateWindow ie))), t, w)
     else
       (let t1 = t\<lparr>tr_window := fst (ie_CreateWindow ie)\<rparr> in
        if fst (ie_RegisterWindowMessage ie) = 0 then (Some (winErr (snd (ie_RegisterWindowMessage ie))), t1, w)
        else
          (let t2 = t1\<lparr>tr_taskbarCreated := ucast (fst (ie_RegisterWindowMessage ie))\<rparr> in
           case ie_iconBytes ie of
             Inl e \<Rightarrow> (Some e, t2, w)
           | Inr ico \<Rightarrow>
               (case createIcon (ie_CreateIcon ie) ico (int32Result (fst (ie_metrics ie))) (int32Result (snd (ie_metrics ie))) of
                  None \<Rightarrow> (Some (ErrNew ''panic''), t2, w)
                | Some (Inl e) \<Rightarrow> (Some e, t2, w)
                | Some (Inr icon) \<Rightarrow> init_menu te ie (t2\<lparr>tr_icon := icon\<rparr>, w)))))"

text \<open>
  The loop of \<^verbatim>\<open>Run\<close> over what happens to the tray: a message, a call of \<^verbatim>\<open>quit\<close> or \<^verbatim>\<open>SetState\<close>
  from another goroutine between messages, or \<^verbatim>\<open>GetMessage\<close> reporting quit or failure.
\<close>

datatype tray_input = TiMessage tmessage | TiQuit | TiSetState State | TiEnd | TiFail "goerr option"

fun tray_loop :: "tray_env \<Rightarrow> tray_input list \<Rightarrow> Tray \<times> tray_world \<Rightarrow> (goerr option \<times> Tray \<times> tray_world) option" where
  "tray_loop te [] x = None"
| "tray_loop te (TiMessage m # is) x = tray_loop te is (snd (tray_windowProc te m x))"
| "tray_loop te (TiQuit # is) x = tray_loop te is (quit x)"
| "tray_loop te (TiSetState s # is) x = tray_loop te is (tray_SetState s x)"
| "tray_loop te (TiEnd # is) x = Some (None, x)"
| "tray_loop te (TiFail callErr # is) x = Some (Some (winErr callErr), x)"

definition tray_Run ::
  "tray_env \<Rightarrow> init_env \<Rightarrow> tray_input list \<Rightarrow> Tray \<times> tray_world \<Rightarrow> (goerr option \<times> Tray \<times> tray_world) option" where
  "tray_Run te ie inputs x =
     (case initialize te ie x of
        (Some e, t1, w1) \<Rightarrow> Some (Some e, t1, emit (TShowFatal ''Task tray initialization failed'') w1)
      | (None, x1) \<Rightarrow>
          (case addIcon te x1 of
             (Some e, t2, w2) \<Rightarrow>
               Some (Some e, tray_close (t2, emit (TShowFatal ''Task tray initialization failed'') w2))
           | (None, x2) \<Rightarrow>
               map_option (\<lambda>(r, x3). (r, tray_close x3)) (tray_loop te inputs x2)))"

section \<open>Invariants\<close>

text \<open>The structure and the shell agree on whether the icon is shown.\<close>

definition tray_inv :: "Tray \<times> tray_world \<Rightarrow> bool" where
  "tray_inv x \<longleftrightarrow> tr_added (fst x) = tw_iconShown (snd x)"

lemma emit_simps [simp]:
  "tw_events (emit e w) = tw_events w @ [e]" "tw_iconShown (emit e w) = tw_iconShown w"
  "tw_os (emit e w) = tw_os w" "tw_key (emit e w) = tw_key w" "tw_checked (emit e w) = tw_checked w"
  by (simp_all add: emit_def)

lemma setMenuCheck_simps [simp]:
  "tw_events (setMenuCheck i b w) = tw_events w @ [TCheck i b]" "tw_iconShown (setMenuCheck i b w) = tw_iconShown w"
  "tw_os (setMenuCheck i b w) = tw_os w" "tw_key (setMenuCheck i b w) = tw_key w"
  "tw_checked (setMenuCheck i b w) = (tw_checked w)(i := b)"
  by (simp_all add: setMenuCheck_def)

lemma applyMenuChecks_shown [simp]: "tw_iconShown (snd (applyMenuChecks te t w)) = tw_iconShown w"
  by (simp add: applyMenuChecks_def Let_def split_beta split: sum.split)

lemma command_shown [simp]: "tw_iconShown (command te item t w) = tw_iconShown w"
  by (simp add: command_def toggleConfigSetting_def toggleAutoStart_def split_beta split: sum.split option.split)

lemma showMenu_shown [simp]: "tw_iconShown (showMenu te t w) = tw_iconShown w"
  by (simp add: showMenu_def Let_def)

lemma tray_inv_addIcon: "\<not> tr_added t \<Longrightarrow> \<not> tw_iconShown w \<Longrightarrow> tray_inv (snd (addIcon te (t, w)))"
  by (simp add: addIcon_def tray_inv_def split: option.split)

lemma tray_inv_remove: "tray_inv x \<Longrightarrow> tray_inv (remove_icon x) \<and> \<not> tr_added (fst (remove_icon x))"
  by (auto simp: remove_icon_def tray_inv_def split: prod.splits)

lemma tray_inv_windowProc: "tray_inv x \<Longrightarrow> tray_inv (snd (tray_windowProc te m x))"
proof -
  assume inv: "tray_inv x"
  obtain t w where x: "x = (t, w)" by fastforce
  show ?thesis
    using inv tray_inv_addIcon [of "t\<lparr>tr_added := False\<rparr>" "w\<lparr>tw_iconShown := False\<rparr>" te] tray_inv_remove [OF inv]
    by (auto simp: x tray_windowProc_def tray_inv_def applyState_def Let_def split: prod.splits)
qed

lemma tray_inv_loop: "tray_loop te is x = Some (r, y) \<Longrightarrow> tray_inv x \<Longrightarrow> tray_inv y"
proof (induction te "is" x rule: tray_loop.induct)
  case (2 te m "is" x)
  then show ?case by (simp add: tray_inv_windowProc)
next
  case (3 te "is" x)
  moreover have "tray_inv (quit x)" using 3(3) by (auto simp: quit_def tray_inv_def split: prod.splits)
  ultimately show ?case by simp
next
  case (4 te s "is" x)
  moreover have "tray_inv (tray_SetState s x)" using 4(3) by (auto simp: tray_SetState_def tray_inv_def split: prod.splits)
  ultimately show ?case by simp
qed auto

lemma tray_close_releases:
  assumes "tray_inv x" "tray_close x = (t, w)"
  shows "\<not> tw_iconShown w \<and> \<not> tr_added t \<and> tr_window t = 0 \<and> tr_menu t = 0 \<and> tr_icon t = 0"
proof -
  obtain t1 w1 where r: "remove_icon x = (t1, w1)" by fastforce
  have "\<not> tr_added t1" "\<not> tw_iconShown w1" using tray_inv_remove [OF assms(1)] r by (auto simp: tray_inv_def)
  then show ?thesis using assms(2) by (auto simp: tray_close_def r Let_def split: if_splits)
qed

lemma initialize_shown:
  "tw_iconShown (snd (snd (initialize te ie (t, w)))) = tw_iconShown w \<and>
   tr_added (fst (snd (initialize te ie (t, w)))) = tr_added t"
  by (simp add: initialize_def init_menu_def applyState_def Let_def split: prod.splits option.splits sum.splits)

text \<open>Posted closes: the messages \<^verbatim>\<open>quit\<close> sends.\<close>

definition closes :: "tray_event list \<Rightarrow> nat" where
  "closes evs = length (filter (\<lambda>e. case e of TPost _ m \<Rightarrow> m = wmClose | _ \<Rightarrow> False) evs)"

lemma closes_simps [simp]:
  "closes [] = 0" "closes (a @ b) = closes a + closes b"
  "closes (e # es) = (case e of TPost _ m \<Rightarrow> if m = wmClose then 1 else 0 | _ \<Rightarrow> 0) + closes es"
  by (simp_all add: closes_def split: tray_event.split)

lemma wmApply_not_close [simp]: "wmApply \<noteq> wmClose"
  by (simp add: wmApply_def wmClose_def wmUser_def)

lemma closes_checks [simp]: "closes (tw_events (snd (applyMenuChecks te t w))) = closes (tw_events w)"
  by (simp add: applyMenuChecks_def Let_def split_beta split: sum.split)

lemma closes_command [simp]: "closes (tw_events (command te item t w)) = closes (tw_events w)"
  by (simp add: command_def toggleConfigSetting_def toggleAutoStart_def split_beta split: sum.split option.split)

lemma closes_windowProc:
  "closes (tw_events (snd (snd (tray_windowProc te m (t, w))))) = closes (tw_events w) \<and>
   tr_shuttingDown (fst (snd (tray_windowProc te m (t, w)))) = tr_shuttingDown t"
  by (auto simp: tray_windowProc_def addIcon_def showMenu_def applyState_def remove_icon_def Let_def split: option.splits)

lemma closes_loop:
  "tray_loop te is (t, w) = Some (r, t', w') \<Longrightarrow>
    closes (tw_events w') \<le> closes (tw_events w) + (if tr_shuttingDown t then 0 else 1)"
proof (induction te "is" "(t, w)" arbitrary: t w rule: tray_loop.induct)
  case (2 te m "is" t w)
  obtain t1 w1 where s: "snd (tray_windowProc te m (t, w)) = (t1, w1)" by fastforce
  then show ?case using 2(1) [of t1 w1] 2(2) closes_windowProc [of te m t w] by simp
next
  case (3 te "is" t w)
  obtain t1 w1 where s: "quit (t, w) = (t1, w1)" by fastforce
  then have "closes (tw_events w1) + (if tr_shuttingDown t1 then 0 else 1) \<le>
      closes (tw_events w) + (if tr_shuttingDown t then 0 else 1)" by (auto simp: quit_def split: if_splits)
  then show ?case using 3(1) [of t1 w1] 3(2) s by simp
next
  case (4 te st "is" t w)
  obtain t1 w1 where s: "tray_SetState st (t, w) = (t1, w1)" by fastforce
  then have "closes (tw_events w1) = closes (tw_events w) \<and> tr_shuttingDown t1 = tr_shuttingDown t"
    by (auto simp: tray_SetState_def split: if_splits)
  then show ?case using 4(1) [of t1 w1] 4(2) s by simp
qed auto

text \<open>What a shutting-down tray still does to the world: menu checks and state labels, no command.\<close>

definition acted :: "tray_world \<Rightarrow> tray_world \<Rightarrow> bool" where
  "acted w w' \<longleftrightarrow> w_files (tw_os w') \<noteq> w_files (tw_os w) \<or> tw_key w' \<noteq> tw_key w"

section \<open>Properties\<close>


text \<open>(tray_quit_once). For every sequence of messages, quit requests and state changes, the tray posts
  at most one close message; and once it is shutting down, no menu command changes a file or the
  registry, quitting again does nothing and no new state is accepted.\<close>

theorem tray_quit_once:
  assumes "tray_loop te inputs (t, w) = Some (r, t', w')"
  shows "closes (tw_events w') \<le> closes (tw_events w) + (if tr_shuttingDown t then 0 else 1) \<and>
    (tr_shuttingDown t \<longrightarrow> quit (t, w) = (t, w) \<and> tray_SetState s (t, w) = (t, w) \<and> \<not> acted w (command te item t w))"
  using closes_loop [OF assms] by (simp add: quit_def tray_SetState_def command_def acted_def)

definition sample_tray_env :: tray_env where
  "sample_tray_env =
     \<lparr>te_fp = sample_fp, te_os = quiet_env, te_toml = sample_toml,
      te_registry = \<lparr>rg_Executable = Inr ''a.exe'', rg_open_fault = None, rg_value_fault = None\<rparr>,
      te_addFails = (\<lambda>_. None), te_cursorOK = True, te_DefWindowProc = (\<lambda>_. 0)\<rparr>"

definition sample_tray_world :: tray_world where
  "sample_tray_world =
     \<lparr>tw_os = sample_world, tw_key = None, tw_iconShown = False, tw_checked = (\<lambda>_. False), tw_events = []\<rparr>"

theorem tray_quit_once_witness:
  "\<exists>t' w'. tray_loop sample_tray_env [TiQuit, TiQuit, TiEnd] ((tray_New sample_path '''' True)\<lparr>tr_window := 5\<rparr>, sample_tray_world)
      = Some (None, t', w') \<and> closes (tw_events w') \<le> 1"
proof -
  obtain t' w' where l: "tray_loop sample_tray_env [TiQuit, TiQuit, TiEnd]
      ((tray_New sample_path '''' True)\<lparr>tr_window := 5\<rparr>, sample_tray_world) = Some (None, t', w')"
    by (cases "quit (quit ((tray_New sample_path '''' True)\<lparr>tr_window := 5\<rparr>, sample_tray_world))") simp
  from tray_quit_once [OF l] l show ?thesis by (auto simp: sample_tray_world_def tray_New_def)
qed

definition failing_init :: init_env where
  "failing_init =
     \<lparr>ie_GetModuleHandle = (0, None), ie_RegisterClass = (0, None), ie_CreateWindow = (0, None),
      ie_RegisterWindowMessage = (0, None), ie_iconBytes = Inr [], ie_metrics = (16, 16),
      ie_CreateIcon = (\<lambda>_. (0, None)), ie_CreatePopupMenu = (0, None), ie_AppendMenu = (\<lambda>_. (0, None))\<rparr>"


text \<open>Calls on files that do not fail, and temporary names that are not the configuration's.\<close>

definition files_ok :: "os_env \<Rightarrow> string \<Rightarrow> bool" where
  "files_ok env p \<longleftrightarrow> (\<forall>k c. oe_fault env k c = None) \<and> (\<forall>k dir pat. oe_temp env k dir pat \<noteq> p)"

lemma files_ok_fault: "files_ok env p \<Longrightarrow> fault_of env c w = None"
  by (simp add: files_ok_def fault_of_def)

lemma files_ok_reads: "files_ok env p \<Longrightarrow> reads_ok env p"
  by (simp add: files_ok_def reads_ok_def)

lemma files_ok_tmp: "files_ok env p \<Longrightarrow> config_tmp fp env p w \<noteq> p"
  by (simp add: files_ok_def config_tmp_def)

lemma write_files_ok: "files_ok env p \<Longrightarrow> fst (write_config fp env p d w) = None"
  by (simp add: write_config_def write_tmp_def try_os_def os_CreateTemp_def os_Write_def os_Rename_def
      os_plain_def Let_def files_ok_fault)

lemma CreateDefault_existing:
  assumes "files_ok env p" "w_files w p = Some n"
  shows "\<exists>w'. CreateDefault fp env tm p w = (Inr False, w') \<and> w_files w' = w_files w"
  using assms by (simp add: CreateDefault_def os_Stat_def Let_def files_ok_fault)

lemma Toggle_files_ok:
  assumes ok: "files_ok env p" and codec: "codec_ok tm" and n: "w_files w p = Some n"
    and cfg: "toml_Decode tm (f_data n) = Inr cfg" and tog: "toggle_config s cfg = Inr (cfg', b)"
    and m: "toml_Marshal tm cfg' = Inr d"
  shows "\<exists>w'. ToggleBooleanSetting fp env tm p s w = (Inr b, w') \<and> fst (Load env tm p w') = Inr cfg'"
proof -
  obtain w1 where l: "Load env tm p w = (Inr cfg, w1)"
    using Load_reads [OF files_ok_reads [OF ok], of tm w] n cfg by (cases "Load env tm p w") (auto simp: Decode_def)
  obtain w2 where s: "Save fp env tm p cfg' w1 = (None, w2)"
    using m write_files_ok [OF ok, of fp d w1] by (cases "write_config fp env p d w1") (auto simp: Save_def)
  have "fst (Load env tm p w2) = Inr cfg'"
    using Save_success [OF codec files_ok_tmp [OF ok] s files_ok_reads [OF ok]] .
  then show ?thesis using l s tog by (simp add: ToggleBooleanSetting_def)
qed

lemma applyMenuChecks_shows:
  assumes "fst (Load (te_os te) (te_toml te) (tr_configPath t) (tw_os w)) = Inr cfg"
  shows "tw_checked (snd (applyMenuChecks te t w)) menuPageant = bs_PageantEnabled (booleanSettings cfg) \<and>
    tw_checked (snd (applyMenuChecks te t w)) menuCygwin = bs_CygwinEnabled (booleanSettings cfg) \<and>
    w_files (tw_os (snd (applyMenuChecks te t w))) = w_files (tw_os w)"
proof -
  obtain w1 where l: "Load (te_os te) (te_toml te) (tr_configPath t) (tw_os w) = (Inr cfg, w1)"
    using assms by (metis prod.collapse)
  have "w_files w1 = w_files (tw_os w)"
    using Load_files [of "te_os te" "te_toml te" "tr_configPath t" "tw_os w"] l by simp
  then show ?thesis
    by (simp add: applyMenuChecks_def LoadBooleanSettings_def l Let_def menuPageant_def menuCygwin_def
        menuAutoStart_def split: sum.split)
qed

text \<open>(tray_toggle). Choosing an interface in the menu flips it end to end: with a configuration that
  decodes and no failing call, the command leaves a file that loads as the same configuration with that one
  flag flipped, and both menu checks show what the file now says.\<close>

theorem tray_toggle:
  assumes "files_ok (te_os te) (tr_configPath t)" and "codec_ok (te_toml te)"
    and "w_files (tw_os w) (tr_configPath t) = Some n" and "toml_Decode (te_toml te) (f_data n) = Inr cfg"
    and "toggle_config setting cfg = Inr (cfg', b)" and "toml_Marshal (te_toml te) cfg' = Inr d"
    and "\<not> tr_shuttingDown t"
    and "(item, setting) \<in> {(menuPageant, PageantEnabled), (menuCygwin, CygwinEnabled)}"
  shows "case command te item t w of w' \<Rightarrow>
    fst (Load (te_os te) (te_toml te) (tr_configPath t) (tw_os w')) = Inr cfg' \<and>
    tw_checked w' menuPageant = bs_PageantEnabled (booleanSettings cfg') \<and>
    tw_checked w' menuCygwin = bs_CygwinEnabled (booleanSettings cfg') \<and> tw_checked w' item = b"
proof -
  let ?env = "te_os te" and ?tm = "te_toml te" and ?p = "tr_configPath t"
  have cmd: "command te item t w = toggleConfigSetting te setting t w"
    using assms(7,8) by (auto simp: command_def menu_defs)
  obtain o1 where c: "CreateDefault (te_fp te) ?env ?tm ?p (tw_os w) = (Inr False, o1)" "w_files o1 = w_files (tw_os w)"
    using CreateDefault_existing [OF assms(1,3)] by blast
  obtain o2 where t: "ToggleBooleanSetting (te_fp te) ?env ?tm ?p setting o1 = (Inr b, o2)"
      "fst (Load ?env ?tm ?p o2) = Inr cfg'"
    using Toggle_files_ok [OF assms(1,2) _ assms(4-6), of o1 "te_fp te"] c(2) assms(3) by auto
  have w': "command te item t w = snd (applyMenuChecks te t (w\<lparr>tw_os := o2\<rparr>))"
    by (simp add: cmd toggleConfigSetting_def c t)
  have vis: "tw_checked (command te item t w) menuPageant = bs_PageantEnabled (booleanSettings cfg') \<and>
      tw_checked (command te item t w) menuCygwin = bs_CygwinEnabled (booleanSettings cfg') \<and>
      w_files (tw_os (command te item t w)) = w_files o2"
    using applyMenuChecks_shows [of te t "w\<lparr>tw_os := o2\<rparr>" cfg'] t(2) by (simp add: w')
  then have "fst (Load ?env ?tm ?p (tw_os (command te item t w))) = Inr cfg'"
    using t(2) files_ok_reads [OF assms(1)] by (simp add: Load_reads)
  moreover have "tw_checked (command te item t w) item = b"
    using assms(8) vis toggle_config_only [OF assms(5)] by (auto simp: PageantEnabled_def CygwinEnabled_def)
  ultimately show ?thesis using vis by simp
qed

theorem tray_toggle_witness:
  "fst (Load quiet_env sample_toml sample_path (tw_os (command sample_tray_env menuPageant (tray_New sample_path '''' True)
     sample_tray_world))) = Inr toggled_Default"
proof -
  have ne: "dir @ [bslash] @ ''new.tmp'' \<noteq> sample_path" for dir
    by (auto simp: sample_path_def dest: arg_cong [of _ _ rev])
  have ok: "files_ok (te_os sample_tray_env) (tr_configPath (tray_New sample_path '''' True))"
    using ne by (simp add: files_ok_def sample_tray_env_def quiet_env_def tray_New_def)
  have codec: "codec_ok (te_toml sample_tray_env)" by (simp add: sample_tray_env_def sample_codec_ok)
  have f: "w_files (tw_os sample_tray_world) (tr_configPath (tray_New sample_path '''' True)) =
      Some \<lparr>f_data = [1], f_regular = True, f_attrs = 0\<rparr>"
    by (simp add: sample_tray_world_def sample_world_def tray_New_def)
  have tog: "toggle_config PageantEnabled Default = Inr (toggled_Default, False)"
    by (simp add: toggle_config_def toggled_Default_def Default_def Let_def)
  have d: "toml_Decode (te_toml sample_tray_env) (f_data \<lparr>f_data = [1], f_regular = True, f_attrs = 0\<rparr>) = Inr Default"
    by (simp add: sample_tray_env_def sample_toml_def)
  have m: "toml_Marshal (te_toml sample_tray_env) toggled_Default = Inr [2]"
    by (simp add: sample_tray_env_def sample_toml_def toggled_Default_def Default_def)
  have n: "\<not> tr_shuttingDown (tray_New sample_path '''' True)" by (simp add: tray_New_def)
  from tray_toggle [OF ok codec f d tog m n, of menuPageant]
  show ?thesis by (simp add: sample_tray_env_def tray_New_def)
qed

end
