(* ===== verification/Dialogs.thy ===== *)
theory Dialogs
  imports Tray "HOL-Library.Signed_Division"
begin

text \<open>
  The settings dialog (src/internal/tray/settings\_windows.go) and the window helpers the dialogs share
  (dialog\_windows.go).  A dialog's controls are a record of what they hold; errors shown to the
  user are events of the tray's world.
\<close>

section \<open>dialog\_windows.go\<close>

text \<open>A 32-bit signed result: Go's \<^verbatim>\<open>int32\<close> arithmetic wraps.\<close>

definition int32 :: "int \<Rightarrow> int" where
  "int32 x = sint (word_of_int x :: 32 word)"

text \<open>\<^verbatim>\<open>metrics.s\<close>: \<^verbatim>\<open>v * m.dpi / 96\<close>, division truncated towards zero.\<close>

definition scale :: "int \<Rightarrow> int \<Rightarrow> int" where
  "scale dpi v = int32 (v * dpi) sdiv 96"

definition systemDPI :: "u64 option \<Rightarrow> int" where
  "systemDPI dpi = (case dpi of None \<Rightarrow> 96 | Some r \<Rightarrow> if r \<noteq> 0 then sint (ucast r :: 32 word) else 96)"

definition commandID :: "u64 \<Rightarrow> u64" where
  "commandID wParam = ucast (ucast wParam :: 16 word)"

text \<open>\<^verbatim>\<open>setWindowText\<close> and \<^verbatim>\<open>comboIndex\<close>.\<close>

definition setWindowText :: "string \<Rightarrow> string \<Rightarrow> string" where
  "setWindowText old new = (case UTF16FromString new of None \<Rightarrow> old | Some _ \<Rightarrow> new)"

definition utf16Filter :: "string list \<Rightarrow> u16 list" where
  "utf16Filter parts = concat (map (\<lambda>p. case UTF16FromString p of None \<Rightarrow> [] | Some e \<Rightarrow> e) parts) @ [0]"

text \<open>
  \<^verbatim>\<open>runModal\<close>: \<open>mi_alive\<close> is \<^verbatim>\<open>IsWindow\<close>, then what \<^verbatim>\<open>GetMessageW\<close> gives and whether the dialog
  manager took the message.
\<close>

datatype modal_event = MEnable bool | MShow | MDispatch nat | MDestroy | MPostQuit

record modal_input =
  mi_alive :: bool
  mi_result :: u64
  mi_handled :: bool

fun modal_loop :: "modal_input list \<Rightarrow> nat \<Rightarrow> modal_event list option" where
  "modal_loop [] k = None"
| "modal_loop (m # ms) k =
     (if \<not> mi_alive m then Some []
      else if sint (ucast (mi_result m) :: 32 word) = -1 then Some []
      else if mi_result m = 0 then Some [MDestroy, MPostQuit]
      else if mi_handled m then modal_loop ms (Suc k)
      else map_option (\<lambda>evs. MDispatch k # evs) (modal_loop ms (Suc k)))"

definition runModal :: "u64 \<Rightarrow> modal_input list \<Rightarrow> modal_event list option" where
  "runModal owner ms =
     map_option (\<lambda>evs. (if owner \<noteq> 0 then [MEnable False] else []) @ [MShow] @ evs @ (if owner \<noteq> 0 then [MEnable True] else []))
       (modal_loop ms 0)"

record rect =
  rc_Left :: int
  rc_Top :: int
  rc_Right :: int
  rc_Bottom :: int

definition centerWindow :: "rect \<Rightarrow> rect \<Rightarrow> int \<times> int" where
  "centerWindow wr ar =
     (let width = int32 (rc_Right wr - rc_Left wr); height = int32 (rc_Bottom wr - rc_Top wr) in
      (int32 (rc_Left ar + (int32 (rc_Right ar - rc_Left ar - width)) sdiv 2),
       int32 (rc_Top ar + (int32 (rc_Bottom ar - rc_Top ar - height)) sdiv 2)))"

text \<open>\<^verbatim>\<open>listUpdateHorizontalExtent\<close>: the widest text, plus room for the scroll bar.\<close>

fun widest :: "(string \<Rightarrow> int) \<Rightarrow> string list \<Rightarrow> int \<Rightarrow> int" where
  "widest textWidth [] w = w"
| "widest textWidth (i # is) w = widest textWidth is (if textWidth i > w then textWidth i else w)"

definition horizontalExtent :: "(string \<Rightarrow> int) \<Rightarrow> string list \<Rightarrow> int" where
  "horizontalExtent textWidth items =
     (let w = widest textWidth items 0 in if w > 0 then int32 (w + 16) else w)"

section \<open>settings\_windows.go\<close>

definition logLevels :: "string list" where
  "logLevels = [''debug'', ''info'', ''warn'', ''error'']"

definition backendOptions :: "string list" where
  "backendOptions = [BackendWindowsOpenSSH, BackendEmbedded]"

record settingsValues =
  sv_PageantEnabled :: bool
  sv_CygwinEnabled :: bool
  sv_SocketPath :: string
  sv_BackendType :: string
  sv_Pipe :: string
  sv_ConnectTimeout :: string
  sv_LogLevel :: string
  sv_AutoStart :: bool

record settings_ui =
  su_pageant :: bool
  su_cygwin :: bool
  su_socket :: string
  su_backendType :: int
  su_pipe :: string
  su_timeout :: string
  su_backendEnabled :: bool
  su_note :: string
  su_autoStart :: bool
  su_logLevel :: int

definition mergeSettings :: "Config \<Rightarrow> settingsValues \<Rightarrow> Config" where
  "mergeSettings cfg v =
     cfg\<lparr>cfg_Interfaces := \<lparr>ic_Pageant = \<lparr>pc_Enabled = sv_PageantEnabled v\<rparr>,
           ic_Cygwin = \<lparr>cy_Enabled = sv_CygwinEnabled v, cy_SocketPath = TrimSpace (sv_SocketPath v)\<rparr>\<rparr>,
         cfg_Backend := \<lparr>bc_Type = TrimSpace (sv_BackendType v), bc_Pipe = TrimSpace (sv_Pipe v),
           bc_ConnectTimeout = TrimSpace (sv_ConnectTimeout v)\<rparr>,
         cfg_Logging := \<lparr>lc_Level = ToLower (TrimSpace (sv_LogLevel v))\<rparr>\<rparr>"

definition validateSettings ::
  "filepath_ops \<Rightarrow> (string \<Rightarrow> int option) \<Rightarrow> Config \<Rightarrow> string \<Rightarrow> string \<Rightarrow> goerr option" where
  "validateSettings fp pd cfg configPath userProfile = err_of (Validate fp pd cfg configPath '''' userProfile)"

definition embeddedBackendNote :: string where
  "embeddedBackendNote =
     ''Keys are held only in memory and are lost when OmniSSHAgent exits.'' @ [CHR 0x0D, CHR 0x0A] @
     ''Embedded mode exposes '' @ pipePrefix @ ''openssh-ssh-agent; another agent must not own this pipe.''"

text \<open>A combo box index selects an option when it is in range.\<close>

definition option_at :: "string list \<Rightarrow> int \<Rightarrow> string \<Rightarrow> string" where
  "option_at opts i other = (if 0 \<le> i \<and> i < int (length opts) then opts ! nat i else other)"

fun find_index :: "string \<Rightarrow> string list \<Rightarrow> nat \<Rightarrow> nat \<Rightarrow> nat" where
  "find_index x [] i other = other"
| "find_index x (y # ys) i other = (if y = x then i else find_index x ys (Suc i) other)"

definition updateBackendControls :: "settings_ui \<Rightarrow> settings_ui" where
  "updateBackendControls u =
     (let embedded = (0 \<le> su_backendType u \<and> su_backendType u < int (length backendOptions) \<and>
            backendOptions ! nat (su_backendType u) = BackendEmbedded) in
      u\<lparr>su_backendEnabled := \<not> embedded,
        su_note := setWindowText (su_note u) (if embedded then embeddedBackendNote else '''')\<rparr>)"

text \<open>\<^verbatim>\<open>load\<close> once the file is decoded; the last step asks the registry.\<close>

definition settings_fill ::
  "filepath_ops \<Rightarrow> string \<Rightarrow> Config \<Rightarrow> settings_ui \<Rightarrow> settings_ui" where
  "settings_fill fp profile cfg u =
     (let configured = cy_SocketPath (ic_Cygwin (cfg_Interfaces cfg));
          socket = (if configured = '''' \<and> profile \<noteq> '''' then fp_Join fp [profile, ''.ssh'', ''omnisshagent-cygwin.sock'']
                    else configured);
          u1 = u\<lparr>su_pageant := pc_Enabled (ic_Pageant (cfg_Interfaces cfg)),
                 su_cygwin := cy_Enabled (ic_Cygwin (cfg_Interfaces cfg)),
                 su_socket := setWindowText (su_socket u) socket,
                 su_backendType := int (find_index (bc_Type (cfg_Backend cfg)) backendOptions 0 0),
                 su_pipe := setWindowText (su_pipe u) (bc_Pipe (cfg_Backend cfg)),
                 su_timeout := setWindowText (su_timeout u) (bc_ConnectTimeout (cfg_Backend cfg))\<rparr> in
      (updateBackendControls u1)\<lparr>su_logLevel := int (find_index (ToLower (lc_Level (cfg_Logging cfg))) logLevels 0 1)\<rparr>)"

definition settings_load ::
  "tray_env \<Rightarrow> string \<Rightarrow> Tray \<Rightarrow> settings_ui \<Rightarrow> tray_world \<Rightarrow> goerr option \<times> settings_ui \<times> tray_world" where
  "settings_load te profile t u w =
     (case Load (te_os te) (te_toml te) (tr_configPath t) (tw_os w) of
        (Inl e, o1) \<Rightarrow> (Some e, u, w\<lparr>tw_os := o1\<rparr>)
      | (Inr cfg, o1) \<Rightarrow>
          (let u1 = settings_fill (te_fp te) profile cfg u in
           case Enabled (te_registry te) (tw_key w) of
             Inl e \<Rightarrow> (Some e, u1, w\<lparr>tw_os := o1\<rparr>)
           | Inr enabled \<Rightarrow> (None, u1\<lparr>su_autoStart := enabled\<rparr>, w\<lparr>tw_os := o1\<rparr>)))"

definition settings_values :: "settings_ui \<Rightarrow> settingsValues" where
  "settings_values u =
     \<lparr>sv_PageantEnabled = su_pageant u, sv_CygwinEnabled = su_cygwin u, sv_SocketPath = su_socket u,
      sv_BackendType = option_at backendOptions (su_backendType u) BackendWindowsOpenSSH,
      sv_Pipe = su_pipe u, sv_ConnectTimeout = su_timeout u,
      sv_LogLevel = option_at logLevels (su_logLevel u) ''info'', sv_AutoStart = su_autoStart u\<rparr>"

definition settings_apply ::
  "tray_env \<Rightarrow> (string \<Rightarrow> int option) \<Rightarrow> string \<Rightarrow> Tray \<Rightarrow> settings_ui \<Rightarrow> tray_world \<Rightarrow> bool \<times> tray_world" where
  "settings_apply te pd profile t u w =
     (let path = tr_configPath t; fail = (\<lambda>title w. (False, emit (TShowFatal title) w)) in
      case CreateDefault (te_fp te) (te_os te) (te_toml te) path (tw_os w) of
        (Inl e, o1) \<Rightarrow> fail ''Settings'' (w\<lparr>tw_os := o1\<rparr>)
      | (Inr _, o1) \<Rightarrow>
          (case Load (te_os te) (te_toml te) path o1 of
             (Inl e, o2) \<Rightarrow> fail ''Settings'' (w\<lparr>tw_os := o2\<rparr>)
           | (Inr cfg0, o2) \<Rightarrow>
               (let cfg = mergeSettings cfg0 (settings_values u) in
                case validateSettings (te_fp te) pd cfg path profile of
                  Some e \<Rightarrow> fail ''Settings'' (w\<lparr>tw_os := o2\<rparr>)
                | None \<Rightarrow>
                    (case Save (te_fp te) (te_os te) (te_toml te) path cfg o2 of
                       (Some e, o3) \<Rightarrow> fail ''Settings'' (w\<lparr>tw_os := o3\<rparr>)
                     | (None, o3) \<Rightarrow>
                         (case SetEnabled (te_registry te) (sv_AutoStart (settings_values u)) (tw_key w) of
                            (Some e, key) \<Rightarrow> fail ''Auto-start setting failed'' (w\<lparr>tw_os := o3, tw_key := key\<rparr>)
                          | (None, key) \<Rightarrow> (True, snd (applyMenuChecks te t (w\<lparr>tw_os := o3, tw_key := key\<rparr>))))))))"

text \<open>\<^verbatim>\<open>browseSocket\<close>: \<open>pick\<close> is the file dialog, given the directory and name to start from.\<close>

definition browseSocket ::
  "filepath_ops \<Rightarrow> (string \<Rightarrow> string \<Rightarrow> string option) \<Rightarrow> string \<Rightarrow> settings_ui \<Rightarrow> settings_ui" where
  "browseSocket fp pick profile u =
     (let current = TrimSpace (su_socket u);
          start = (if current \<noteq> '''' then (fp_Dir fp current, fp_Base fp current)
                   else if profile \<noteq> '''' then (fp_Join fp [profile, ''.ssh''], ''omnisshagent-cygwin.sock'')
                   else (profile, ''omnisshagent-cygwin.sock'')) in
      case pick (fst start) (snd start) of
        None \<Rightarrow> u
      | Some path \<Rightarrow> u\<lparr>su_socket := setWindowText (su_socket u) path\<rparr>)"

definition idOK :: u64 where "idOK = 1"
definition idCancel :: u64 where "idCancel = 2"
definition idBrowse :: u64 where "idBrowse = 2106"
definition idManageKeys :: u64 where "idManageKeys = 2117"
definition idApply :: u64 where "idApply = 2118"
definition idBackendType :: u64 where "idBackendType = 2119"

lemmas settings_ids = idOK_def idCancel_def idBrowse_def idManageKeys_def idApply_def idBackendType_def

record settings_state =
  ss_open :: bool
  ss_ui :: settings_ui
  ss_keys :: nat

record dialog_env =
  de_tray :: tray_env
  de_durations :: "string \<Rightarrow> int option"
  de_profile :: string
  de_pick :: "string \<Rightarrow> string \<Rightarrow> string option"

text \<open>
  \<^verbatim>\<open>settingsWindowProc\<close> for the dialog's own window.  Closing destroys the window, whose
  \<^verbatim>\<open>WM_DESTROY\<close> clears the dialog; \<open>ss_keys\<close> counts the times the key list was opened.
\<close>

definition settings_command ::
  "dialog_env \<Rightarrow> Tray \<Rightarrow> u64 \<Rightarrow> settings_state \<times> tray_world \<Rightarrow> settings_state \<times> tray_world" where
  "settings_command de t cid = (\<lambda>(s, w).
     let apply = settings_apply (de_tray de) (de_durations de) (de_profile de) t (ss_ui s) w in
     if cid = idOK then (if fst apply then (s\<lparr>ss_open := False\<rparr>, snd apply) else (s, snd apply))
     else if cid = idCancel then (s\<lparr>ss_open := False\<rparr>, w)
     else if cid = idApply then (s, snd apply)
     else if cid = idBrowse then (s\<lparr>ss_ui := browseSocket (te_fp (de_tray de)) (de_pick de) (de_profile de) (ss_ui s)\<rparr>, w)
     else if cid = idBackendType then (s\<lparr>ss_ui := updateBackendControls (ss_ui s)\<rparr>, w)
     else if cid = idManageKeys then (s\<lparr>ss_keys := Suc (ss_keys s)\<rparr>, w)
     else (s, w))"

definition settingsWindowProc ::
  "dialog_env \<Rightarrow> Tray \<Rightarrow> tmessage \<Rightarrow> settings_state \<times> tray_world \<Rightarrow> u64 \<times> settings_state \<times> tray_world" where
  "settingsWindowProc de t m = (\<lambda>(s, w).
     if \<not> ss_open s then (te_DefWindowProc (de_tray de) (tm_Message m), s, w)
     else if tm_Message m = wmCommand \<and>
       List.member [idOK, idCancel, idApply, idBrowse, idBackendType, idManageKeys] (commandID (tm_WParam m))
     then (0, settings_command de t (commandID (tm_WParam m)) (s, w))
     else if tm_Message m = wmClose \<or> tm_Message m = trWmDestroy then (0, s\<lparr>ss_open := False\<rparr>, w)
     else (te_DefWindowProc (de_tray de) (tm_Message m), s, w))"

text \<open>
  \<^verbatim>\<open>createControls\<close>: every child control in order, with class, title, position, size and identifier
  (styles are left out).  \<^verbatim>\<open>create\<close> stops at the first that cannot be created.
\<close>

record child =
  ch_class :: string
  ch_title :: string
  ch_x :: int
  ch_y :: int
  ch_w :: int
  ch_h :: int
  ch_id :: nat

definition mk_child :: "string \<Rightarrow> string \<Rightarrow> int \<Rightarrow> int \<Rightarrow> int \<Rightarrow> int \<Rightarrow> nat \<Rightarrow> child" where
  "mk_child cls title x y w h i = \<lparr>ch_class = cls, ch_title = title, ch_x = x, ch_y = y, ch_w = w, ch_h = h, ch_id = i\<rparr>"

definition settings_controls :: "(int \<Rightarrow> int) \<Rightarrow> child list" where
  "settings_controls s =
     (let pad = s 12; labelW = s 92; editH = s 23; btnW = s 88; btnH = s 24; innerX = pad + s 10;
          innerW = s 448; editX = innerX + labelW; editW = innerW - labelW - s 96; browseW = s 84;
          compatTop = pad; compatH = s 118;
          backendTop = compatTop + compatH + s 10; backendH = s 174;
          appTop = backendTop + backendH + s 10; appH = s 96;
          buttonY = appTop + appH + s 12 in
      [mk_child ''Button'' ''Compatibility'' pad compatTop (s 468) compatH 2101,
       mk_child ''Button'' ''Enable Pageant interface'' innerX (compatTop + s 22) innerW editH 2102,
       mk_child ''Button'' ''Enable Cygwin/MSYS2 interface'' innerX (compatTop + s 46) innerW editH 2103,
       mk_child ''Static'' ''Socket path:'' innerX (compatTop + s 78) labelW editH 2104,
       mk_child ''Edit'' '''' editX (compatTop + s 74) editW editH 2105,
       mk_child ''Button'' ''Browse...'' (editX + editW + s 8) (compatTop + s 74) browseW btnH 2106,
       mk_child ''Button'' ''Backend'' pad backendTop (s 468) backendH 2107,
       mk_child ''Static'' ''Type:'' innerX (backendTop + s 24) labelW editH 0,
       mk_child ''ComboBox'' '''' editX (backendTop + s 20) (s 220) (s 100) 2119,
       mk_child ''Static'' ''Named pipe:'' innerX (backendTop + s 52) labelW editH 2108,
       mk_child ''Edit'' '''' editX (backendTop + s 48) (innerW - labelW) editH 2109,
       mk_child ''Static'' ''Timeout:'' innerX (backendTop + s 80) labelW editH 2110,
       mk_child ''Edit'' '''' editX (backendTop + s 76) (s 80) editH 2111,
       mk_child ''Static'' '''' innerX (backendTop + s 108) innerW (s 54) 2120,
       mk_child ''Button'' ''Application'' pad appTop (s 468) appH 2112,
       mk_child ''Button'' ''Start with Windows'' innerX (appTop + s 22) innerW editH 2113,
       mk_child ''Static'' ''Log level:'' innerX (appTop + s 50) labelW editH 2114,
       mk_child ''ComboBox'' '''' editX (appTop + s 46) (s 120) (s 140) 2115,
       mk_child ''Static'' ''Interface and backend changes apply after restart.'' innerX (appTop + s 74) innerW editH 2116,
       mk_child ''Button'' ''Manage keys...'' pad buttonY (s 120) btnH 2117,
       mk_child ''Button'' ''OK'' (s 216) buttonY btnW btnH 1,
       mk_child ''Button'' ''Cancel'' (s 310) buttonY btnW btnH 2,
       mk_child ''Button'' ''Apply'' (s 404) buttonY btnW btnH 2118])"

definition settings_size :: "(int \<Rightarrow> int) \<Rightarrow> int \<times> int" where
  "settings_size s = (s 492, s 546)"

fun create_children :: "(child \<Rightarrow> goerr option) \<Rightarrow> child list \<Rightarrow> goerr option" where
  "create_children api [] = None"
| "create_children api (c # cs) = (case api c of Some e \<Rightarrow> Some e | None \<Rightarrow> create_children api cs)"

text \<open>\<^verbatim>\<open>create\<close>: the window, its controls, then \<^verbatim>\<open>load\<close>; an error after the window destroys it.\<close>

definition settings_create ::
  "int \<Rightarrow> (child \<Rightarrow> goerr option) \<Rightarrow> u64 result \<Rightarrow> tray_env \<Rightarrow> string \<Rightarrow> Tray \<Rightarrow> settings_ui \<Rightarrow> tray_world \<Rightarrow>
   settings_ui result \<times> tray_world" where
  "settings_create dpi api popup te profile t u w =
     (case popup of
        Inl e \<Rightarrow> (Inl e, w)
      | Inr hwnd \<Rightarrow>
          (case create_children api (settings_controls (scale dpi)) of
             Some e \<Rightarrow> (Inl e, emit (TDestroyWindow hwnd) w)
           | None \<Rightarrow>
               (case settings_load te profile t u w of
                  (Some e, u1, w1) \<Rightarrow> (Inl e, emit (TDestroyWindow hwnd) w1)
                | (None, u1, w1) \<Rightarrow> (Inr u1, w1))))"

text \<open>\<^verbatim>\<open>openSettings\<close> with no dialog open: \<^verbatim>\<open>CreateDefault\<close>, then the dialog.\<close>

definition openSettings ::
  "int \<Rightarrow> (child \<Rightarrow> goerr option) \<Rightarrow> u64 result \<Rightarrow> tray_env \<Rightarrow> string \<Rightarrow> Tray \<Rightarrow> settings_ui \<Rightarrow> tray_world \<Rightarrow>
   settings_ui option \<times> tray_world" where
  "openSettings dpi api popup te profile t u w =
     (case CreateDefault (te_fp te) (te_os te) (te_toml te) (tr_configPath t) (tw_os w) of
        (Inl e, o1) \<Rightarrow> (None, emit (TShowFatal ''Settings'') (w\<lparr>tw_os := o1\<rparr>))
      | (Inr _, o1) \<Rightarrow>
          (case settings_create dpi api popup te profile t u (w\<lparr>tw_os := o1\<rparr>) of
             (Inl e, w1) \<Rightarrow> (None, emit (TShowFatal ''Settings'') w1)
           | (Inr u1, w1) \<Rightarrow> (Some u1, w1)))"

section \<open>Applying settings\<close>

lemma validateSettings_ok_iff:
  "validateSettings fp pd cfg cp up = None \<longleftrightarrow> valid_config fp pd cfg up"
  using Validate_accepts_iff [of fp pd cfg cp "''''" up]
  by (cases "Validate fp pd cfg cp '''' up") (auto simp: validateSettings_def)

lemma applyMenuChecks_files [simp]: "w_files (tw_os (snd (applyMenuChecks te t w))) = w_files (tw_os w)"
proof -
  obtain l o1 where l: "Load (te_os te) (te_toml te) (tr_configPath t) (tw_os w) = (l, o1)" by fastforce
  have "w_files o1 = w_files (tw_os w)"
    using Load_files [of "te_os te" "te_toml te" "tr_configPath t" "tw_os w"] l by simp
  then show ?thesis by (simp add: applyMenuChecks_def LoadBooleanSettings_def l Let_def split: sum.split)
qed

lemma applyMenuChecks_key [simp]: "tw_key (snd (applyMenuChecks te t w)) = tw_key w"
  by (simp add: applyMenuChecks_def Let_def split_beta split: sum.split)

lemma applyMenuChecks_w_files:
  "fst (Load env tm p (tw_os (snd (applyMenuChecks te t w)))) = fst (Load env tm p (tw_os w))" if "reads_ok env p"
  using that by (simp add: Load_reads)

text \<open>The outcome of \<^verbatim>\<open>apply\<close>: refused with the file as \<^verbatim>\<open>CreateDefault\<close> left it, or saved.\<close>

lemma settings_apply_cases:
  assumes tmp: "\<And>v. config_tmp (te_fp te) (te_os te) (tr_configPath t) v \<noteq> tr_configPath t"
    and ap: "settings_apply te pd profile t u w = (b, w')"
    and o1: "CreateDefault (te_fp te) (te_os te) (te_toml te) (tr_configPath t) (tw_os w) = (c, o1)"
  obtains (refused) "\<not> b" "w_files (tw_os w') (tr_configPath t) = w_files o1 (tr_configPath t)"
  | (saved) cfg o2 o3 where "Load (te_os te) (te_toml te) (tr_configPath t) o1 = (Inr cfg, o2)"
      "valid_config (te_fp te) pd (mergeSettings cfg (settings_values u)) profile"
      "Save (te_fp te) (te_os te) (te_toml te) (tr_configPath t) (mergeSettings cfg (settings_values u)) o2 = (None, o3)"
      "w_files (tw_os w') = w_files o3"
      "b = (fst (SetEnabled (te_registry te) (su_autoStart u) (tw_key w)) = None)"
      "tw_key w' = snd (SetEnabled (te_registry te) (su_autoStart u) (tw_key w))"
proof -
  let ?p = "tr_configPath t" and ?env = "te_os te" and ?tm = "te_toml te"
  obtain l o2 where l: "Load ?env ?tm ?p o1 = (l, o2)" by fastforce
  have f2: "w_files o2 = w_files o1" using Load_files [of ?env ?tm ?p o1] l by simp
  let ?cfg = "mergeSettings (projr l) (settings_values u)"
  obtain s o3 where s: "Save (te_fp te) ?env ?tm ?p ?cfg o2 = (s, o3)" by fastforce
  show thesis
  proof (cases "isl c \<or> isl l \<or> validateSettings (te_fp te) pd ?cfg ?p profile \<noteq> None \<or> s \<noteq> None")
    case True
    have f3: "w_files o3 ?p = w_files o2 ?p" if "s \<noteq> None" using that s Save_failure [OF tmp] by auto
    have "\<not> b \<and> w_files (tw_os w') ?p = w_files o1 ?p"
    proof (cases c)
      case (Inl e)
      then show ?thesis using ap o1 by (auto simp: settings_apply_def Let_def)
    next
      case c: (Inr x)
      show ?thesis
      proof (cases l)
        case (Inl e)
        then show ?thesis using ap o1 c l f2 by (auto simp: settings_apply_def Let_def)
      next
        case (Inr cfg)
        then show ?thesis using ap o1 c l f2 f3 s True
          by (cases "validateSettings (te_fp te) pd ?cfg ?p profile") (auto simp: settings_apply_def Let_def)
      qed
    qed
    then show ?thesis using refused by blast
  next
    case False
    then obtain x cfg where c: "c = Inr x" and cfg: "l = Inr cfg" by (cases c; cases l) auto
    obtain r key where k: "SetEnabled (te_registry te) (su_autoStart u) (tw_key w) = (r, key)" by fastforce
    have "w_files (tw_os w') = w_files o3 \<and> b = (r = None) \<and> tw_key w' = key"
      using ap o1 c l cfg False s k
      by (cases r) (auto simp: settings_apply_def settings_values_def Let_def)
    then show ?thesis using False l cfg s k validateSettings_ok_iff by (intro saved [of cfg o2 o3]) auto
  qed
qed

section \<open>Opening and confirming without edits\<close>

lemma setWindowText_id: "CHR 0x00 \<notin> set new \<Longrightarrow> setWindowText old new = new"
  by (simp add: setWindowText_def UTF16FromString_def)

lemma option_at_backend:
  "x \<in> {BackendWindowsOpenSSH, BackendEmbedded} \<Longrightarrow>
    option_at backendOptions (int (find_index x backendOptions 0 0)) BackendWindowsOpenSSH = x"
  by (auto simp: option_at_def backendOptions_def)

lemma option_at_level:
  "x \<in> {''debug'', ''info'', ''warn'', ''error''} \<Longrightarrow> option_at logLevels (int (find_index x logLevels 0 1)) ''info'' = x"
  by (auto simp: option_at_def logLevels_def)

lemma levels_trimmed: "x \<in> {''debug'', ''info'', ''warn'', ''error''} \<Longrightarrow> ToLower (TrimSpace x) = x"
  by (auto simp: ToLower_def TrimSpace_def isSpace_def lower_char_def char_code_def)

lemma backend_trimmed: "x \<in> {BackendWindowsOpenSSH, BackendEmbedded} \<Longrightarrow> TrimSpace x = x"
  by (auto simp: BackendWindowsOpenSSH_def BackendEmbedded_def TrimSpace_def isSpace_def char_code_def)

text \<open>The text fields of a configuration survive the dialog: no NUL, no blanks at the ends.\<close>

definition plain_text :: "string \<Rightarrow> bool" where
  "plain_text s \<longleftrightarrow> CHR 0x00 \<notin> set s \<and> TrimSpace s = s"

definition effective_socket :: "filepath_ops \<Rightarrow> string \<Rightarrow> Config \<Rightarrow> string" where
  "effective_socket fp profile cfg =
     (let p = cy_SocketPath (ic_Cygwin (cfg_Interfaces cfg)) in
      if p = '''' \<and> profile \<noteq> '''' then fp_Join fp [profile, ''.ssh'', ''omnisshagent-cygwin.sock''] else p)"

lemma merge_fill:
  assumes "bc_Type (cfg_Backend cfg) \<in> {BackendWindowsOpenSSH, BackendEmbedded}"
    and "ToLower (lc_Level (cfg_Logging cfg)) \<in> {''debug'', ''info'', ''warn'', ''error''}"
    and "plain_text (bc_Pipe (cfg_Backend cfg))" "plain_text (bc_ConnectTimeout (cfg_Backend cfg))"
    and "plain_text (effective_socket fp profile cfg)"
  shows "mergeSettings cfg (settings_values ((settings_fill fp profile cfg u)\<lparr>su_autoStart := en\<rparr>)) =
    cfg\<lparr>cfg_Interfaces := (cfg_Interfaces cfg)\<lparr>ic_Cygwin := (ic_Cygwin (cfg_Interfaces cfg))\<lparr>cy_SocketPath := effective_socket fp profile cfg\<rparr>\<rparr>,
        cfg_Logging := \<lparr>lc_Level = ToLower (lc_Level (cfg_Logging cfg))\<rparr>\<rparr>"
proof -
  have "setWindowText old (effective_socket fp profile cfg) = effective_socket fp profile cfg"
    "setWindowText old (bc_Pipe (cfg_Backend cfg)) = bc_Pipe (cfg_Backend cfg)"
    "setWindowText old (bc_ConnectTimeout (cfg_Backend cfg)) = bc_ConnectTimeout (cfg_Backend cfg)" for old
    using assms(3-5) by (simp_all add: plain_text_def setWindowText_id)
  then show ?thesis
    using assms option_at_backend [OF assms(1)] backend_trimmed [OF assms(1)]
      option_at_level [OF assms(2)] levels_trimmed [OF assms(2)]
    by (simp add: mergeSettings_def settings_values_def settings_fill_def updateBackendControls_def
        plain_text_def effective_socket_def Let_def)
qed

lemma set_then_enabled:
  assumes "rg_Executable rg = Inr exe" "fst (SetEnabled rg en key) = None"
  shows "Enabled rg (snd (SetEnabled rg en key)) = Inr en"
  using assms by (cases en; auto simp: SetEnabled_def Enabled_def Let_def split: option.splits)

section \<open>Properties\<close>

text \<open>C15 (settings_apply_sound). The settings dialog never writes an invalid configuration: whenever
  \<^verbatim>\<open>apply\<close> changes the file from what \<^verbatim>\<open>CreateDefault\<close> left, the file loads as the previous
  configuration with the dialog's values merged in, and that configuration is valid.  When it
  returns true, it did so, and the sign-in registration is the one chosen.\<close>

theorem settings_apply_sound:
  assumes "codec_ok (te_toml te)" and "reads_ok env' (tr_configPath t)"
    and "\<forall>v. config_tmp (te_fp te) (te_os te) (tr_configPath t) v \<noteq> tr_configPath t"
    and "settings_apply te pd profile t u w = (b, w')"
    and "CreateDefault (te_fp te) (te_os te) (te_toml te) (tr_configPath t) (tw_os w) = (c, o1)"
    and "rg_Executable (te_registry te) = Inr exe"
  shows "(b \<or> w_files (tw_os w') (tr_configPath t) \<noteq> w_files o1 (tr_configPath t) \<longrightarrow>
      (\<exists>cfg. fst (Load (te_os te) (te_toml te) (tr_configPath t) o1) = Inr cfg \<and>
        fst (Load env' (te_toml te) (tr_configPath t) (tw_os w')) = Inr (mergeSettings cfg (settings_values u)) \<and>
        valid_config (te_fp te) pd (mergeSettings cfg (settings_values u)) profile)) \<and>
    (b \<longrightarrow> Enabled (te_registry te) (tw_key w') = Inr (su_autoStart u))"
proof -
  have tmp: "config_tmp (te_fp te) (te_os te) (tr_configPath t) v \<noteq> tr_configPath t" for v using assms(3) by blast
  from tmp assms(4,5) show ?thesis
  proof (cases rule: settings_apply_cases)
    case refused
    then show ?thesis by simp
  next
    case (saved cfg o2 o3)
    have "fst (Load env' (te_toml te) (tr_configPath t) o3) = Inr (mergeSettings cfg (settings_values u))"
      using Save_success [OF assms(1) tmp saved(3) assms(2)] .
    then have "fst (Load env' (te_toml te) (tr_configPath t) (tw_os w')) = Inr (mergeSettings cfg (settings_values u))"
      using saved(4) assms(2) by (simp add: Load_reads)
    moreover have "Enabled (te_registry te) (tw_key w') = Inr (su_autoStart u)" if b
      using that saved(5,6) set_then_enabled [OF assms(6)] by simp
    ultimately show ?thesis using saved(1,2) by auto
  qed
qed

lemma settings_unchanged:
  assumes "Validate fp pd cfg cp ld profile = Inr rc"
    and "plain_text (bc_Pipe (cfg_Backend cfg))" and "plain_text (bc_ConnectTimeout (cfg_Backend cfg))"
    and "plain_text (effective_socket fp profile cfg)" and "fp_IsAbs fp (effective_socket fp profile cfg)"
    and "effective_socket fp profile cfg \<noteq> ''''"
  shows "Validate fp pd (mergeSettings cfg (settings_values ((settings_fill fp profile cfg u)\<lparr>su_autoStart := en\<rparr>))) cp ld profile = Inr rc"
proof -
  have v: "valid_config fp pd cfg profile" using Validate_accepts_iff assms(1) by blast
  have ty: "bc_Type (cfg_Backend cfg) \<in> {BackendWindowsOpenSSH, BackendEmbedded}"
    using v by (auto simp: valid_config_def valid_backend_def)
  have lv: "ToLower (lc_Level (cfg_Logging cfg)) \<in> {''debug'', ''info'', ''warn'', ''error''}"
    using v by (auto simp: valid_config_def Let_def)
  have sock: "validate_cygwin_path fp profile (ic_Cygwin (cfg_Interfaces cfg)) = Inr (effective_socket fp profile cfg)"
    using assms(1) by (auto simp: Validate_Inr_iff validate_cygwin_path_def effective_socket_def Let_def split: if_splits)
  have sock': "validate_cygwin_path fp profile (y\<lparr>cy_SocketPath := effective_socket fp profile cfg\<rparr>) =
      Inr (effective_socket fp profile cfg)" for y
    using assms(5,6) by (simp add: validate_cygwin_path_def)
  have lev: "validate_level (ToLower s) = validate_level s" for s by (simp add: validate_level_def)
  show ?thesis
    unfolding merge_fill [OF ty lv assms(2-4)]
    using assms(1) sock sock' by (auto simp: Validate_Inr_iff lev)
qed

text \<open>(settings_noop). Opening the settings and confirming them unchanged keeps the meaning of the
  file: for a configuration that validates, whose text fields have no blanks at their ends, the
  merged configuration validates to the same runtime configuration (with the socket path now spelled
  out, which must be absolute if it came from the user's profile).\<close>

theorem settings_noop:
  assumes "Validate fp pd cfg cp ld profile = Inr rc"
    and "plain_text (bc_Pipe (cfg_Backend cfg))" and "plain_text (bc_ConnectTimeout (cfg_Backend cfg))"
    and "plain_text (effective_socket fp profile cfg)" and "fp_IsAbs fp (effective_socket fp profile cfg)"
    and "effective_socket fp profile cfg \<noteq> ''''"
  shows "Validate fp pd (mergeSettings cfg (settings_values ((settings_fill fp profile cfg u)\<lparr>su_autoStart := en\<rparr>))) cp ld profile = Inr rc"
  using assms by (rule settings_unchanged)

definition blank_ui :: settings_ui where
  "blank_ui =
     \<lparr>su_pageant = False, su_cygwin = False, su_socket = '''', su_backendType = -1, su_pipe = '''', su_timeout = '''',
      su_backendEnabled = True, su_note = '''', su_autoStart = False, su_logLevel = -1\<rparr>"

lemma settings_noop_sample:
  "\<exists>rc. Validate sample_fp sample_durations Default sample_path '''' ''C:'' = Inr rc \<and>
    Validate sample_fp sample_durations (mergeSettings Default (settings_values ((settings_fill sample_fp ''C:'' Default
      blank_ui)\<lparr>su_autoStart := True\<rparr>))) sample_path '''' ''C:'' = Inr rc"
proof -
  have "valid_config sample_fp sample_durations Default ''C:''"
    by (simp add: valid_config_def valid_backend_def Default_def sample_durations_def
        BackendWindowsOpenSSH_def BackendEmbedded_def DefaultBackendPipe_def SchemaVersion_def
        TrimSpace_def isSpace_def char_code_def ToLower_def lower_char_def bslash_def)
  then obtain rc where rc: "Validate sample_fp sample_durations Default sample_path '''' ''C:'' = Inr rc"
    using Validate_accepts_iff by blast
  have p: "plain_text (bc_Pipe (cfg_Backend Default))" "plain_text (bc_ConnectTimeout (cfg_Backend Default))"
    by (simp_all add: plain_text_def Default_def DefaultBackendPipe_def TrimSpace_def isSpace_def char_code_def)
  have e: "effective_socket sample_fp ''C:'' Default = fp_Join sample_fp [''C:'', ''.ssh'', ''omnisshagent-cygwin.sock'']"
    by (simp add: effective_socket_def Default_def)
  have q: "plain_text (effective_socket sample_fp ''C:'' Default)" "fp_IsAbs sample_fp (effective_socket sample_fp ''C:'' Default)"
    "effective_socket sample_fp ''C:'' Default \<noteq> ''''"
    unfolding e by (simp_all add: plain_text_def sample_fp_def TrimSpace_def isSpace_def char_code_def bslash_def)
  from settings_unchanged [OF rc p q] rc show ?thesis by blast
qed

theorem settings_noop_witness:
  "\<exists>rc. Validate sample_fp sample_durations Default sample_path '''' ''C:'' = Inr rc \<and>
    Validate sample_fp sample_durations (mergeSettings Default (settings_values ((settings_fill sample_fp ''C:'' Default
      blank_ui)\<lparr>su_autoStart := True\<rparr>))) sample_path '''' ''C:'' = Inr rc"
proof -
  have "valid_config sample_fp sample_durations Default ''C:''"
    by (simp add: valid_config_def valid_backend_def Default_def sample_durations_def
        BackendWindowsOpenSSH_def BackendEmbedded_def DefaultBackendPipe_def SchemaVersion_def
        TrimSpace_def isSpace_def char_code_def ToLower_def lower_char_def bslash_def)
  then obtain rc where rc: "Validate sample_fp sample_durations Default sample_path '''' ''C:'' = Inr rc"
    using Validate_accepts_iff by blast
  have p: "plain_text (bc_Pipe (cfg_Backend Default))" "plain_text (bc_ConnectTimeout (cfg_Backend Default))"
    by (simp_all add: plain_text_def Default_def DefaultBackendPipe_def TrimSpace_def isSpace_def char_code_def)
  have e: "effective_socket sample_fp ''C:'' Default = fp_Join sample_fp [''C:'', ''.ssh'', ''omnisshagent-cygwin.sock'']"
    by (simp add: effective_socket_def Default_def)
  have q: "plain_text (effective_socket sample_fp ''C:'' Default)" "fp_IsAbs sample_fp (effective_socket sample_fp ''C:'' Default)"
    "effective_socket sample_fp ''C:'' Default \<noteq> ''''"
    unfolding e by (simp_all add: plain_text_def sample_fp_def TrimSpace_def isSpace_def char_code_def bslash_def)
  from settings_noop [OF rc p q] rc show ?thesis by blast
qed

text \<open>Confirming the dialog as it opens on the default configuration.\<close>

definition sample_ui :: settings_ui where
  "sample_ui = (settings_fill sample_fp ''C:'' Default blank_ui)\<lparr>su_autoStart := True\<rparr>"

definition sample_merged :: Config where
  "sample_merged = mergeSettings Default (settings_values sample_ui)"

definition merging_toml :: toml_ops where
  "merging_toml =
     \<lparr>toml_Marshal = (\<lambda>c. if c = Default then Inr [1] else if c = sample_merged then Inr [2] else Inl (ErrNew ''unsupported'')),
      toml_Decode = (\<lambda>d. if d = [1] then Inr Default else if d = [2] then Inr sample_merged else Inl (ErrNew ''syntax''))\<rparr>"

lemma sample_merged_valid: "valid_config sample_fp sample_durations sample_merged ''C:''"
proof -
  obtain rc where "Validate sample_fp sample_durations sample_merged sample_path '''' ''C:'' = Inr rc"
    using settings_noop_sample unfolding sample_merged_def sample_ui_def by blast
  then show ?thesis using Validate_accepts_iff by blast
qed

text \<open>The sample dialog applied to any file that holds the sample configuration.\<close>

lemma sample_apply:
  assumes "w_files (tw_os w) p = Some \<lparr>f_data = [1], f_regular = True, f_attrs = 0\<rparr>" and "tw_key w = None"
  obtains w' o1 where
    "settings_apply (sample_tray_env\<lparr>te_toml := merging_toml\<rparr>) sample_durations ''C:'' (tray_New p l b) sample_ui w = (True, w')"
    "CreateDefault sample_fp quiet_env merging_toml p (tw_os w) = (Inr False, o1)"
    "fst (Load quiet_env merging_toml p o1) = Inr Default"
proof -
  let ?te = "sample_tray_env\<lparr>te_toml := merging_toml\<rparr>" and ?t = "tray_New p l b"
  have p: "tr_configPath ?t = p" by (simp add: tray_New_def)
  have e: "te_toml ?te = merging_toml" "te_os ?te = quiet_env" "te_fp ?te = sample_fp"
    "te_registry ?te = te_registry sample_tray_env"
    by (simp_all add: sample_tray_env_def)
  obtain o1 where c: "CreateDefault sample_fp quiet_env merging_toml p (tw_os w) = (Inr False, o1)"
      "w_files o1 = w_files (tw_os w)"
    using assms(1) by (simp add: CreateDefault_def os_Stat_def Let_def)
  have l: "fst (Load quiet_env merging_toml p o1) = Inr Default"
    by (simp add: Load_reads quiet_reads_ok c assms(1) Decode_def merging_toml_def)
  have m: "\<exists>d. toml_Marshal merging_toml sample_merged = Inr d" by (simp add: merging_toml_def)
  obtain o2 where l2: "Load quiet_env merging_toml p o1 = (Inr Default, o2)" using l by (metis prod.collapse)
  have v: "validateSettings sample_fp sample_durations sample_merged p ''C:'' = None"
    using sample_merged_valid by (simp add: validateSettings_ok_iff)
  have "fst (Save sample_fp quiet_env merging_toml p sample_merged o2) = None"
    using m quiet_write_succeeds by (auto simp: Save_def)
  then obtain o3 where s: "Save sample_fp quiet_env merging_toml p sample_merged o2 = (None, o3)"
    by (metis prod.collapse)
  obtain key where k: "SetEnabled (te_registry sample_tray_env) (sv_AutoStart (settings_values sample_ui)) None = (None, key)"
    by (simp add: SetEnabled_def sample_tray_env_def settings_values_def sample_ui_def Let_def)
  have "fst (settings_apply ?te sample_durations ''C:'' ?t sample_ui w)"
    unfolding settings_apply_def Let_def p e assms(2) by (simp add: c l2 v s k flip: sample_merged_def)
  then show thesis using that c(1) l by (metis prod.collapse)
qed

lemma merging_codec_ok: "codec_ok merging_toml"
  by (simp add: codec_ok_def merging_toml_def)

theorem settings_apply_sound_witness:
  "\<exists>w'. settings_apply (sample_tray_env\<lparr>te_toml := merging_toml\<rparr>) sample_durations ''C:'' (tray_New sample_path '''' True)
      sample_ui sample_tray_world = (True, w') \<and>
    fst (Load quiet_env merging_toml sample_path (tw_os w')) = Inr sample_merged \<and>
    Enabled (te_registry sample_tray_env) (tw_key w') = Inr True"
proof -
  let ?te = "sample_tray_env\<lparr>te_toml := merging_toml\<rparr>" and ?t = "tray_New sample_path '''' True"
  have p: "tr_configPath ?t = sample_path" by (simp add: tray_New_def)
  have e: "te_toml ?te = merging_toml" "te_os ?te = quiet_env" "te_fp ?te = sample_fp"
    "te_registry ?te = te_registry sample_tray_env" "rg_Executable (te_registry sample_tray_env) = Inr ''a.exe''"
    by (simp_all add: sample_tray_env_def)
  have w: "w_files (tw_os sample_tray_world) sample_path = Some \<lparr>f_data = [1], f_regular = True, f_attrs = 0\<rparr>"
    "tw_key sample_tray_world = None"
    by (simp_all add: sample_tray_world_def sample_world_def)
  obtain w' o1 where a: "settings_apply ?te sample_durations ''C:'' ?t sample_ui sample_tray_world = (True, w')"
    and o: "CreateDefault sample_fp quiet_env merging_toml sample_path (tw_os sample_tray_world) = (Inr False, o1)"
    and l: "fst (Load quiet_env merging_toml sample_path o1) = Inr Default"
    by (rule sample_apply [OF w])
  have t: "\<forall>v. config_tmp sample_fp quiet_env sample_path v \<noteq> sample_path" using sample_tmp_ne by blast
  note r = settings_apply_sound [of ?te quiet_env ?t sample_durations "''C:''" sample_ui sample_tray_world True w' "Inr False" o1,
      unfolded p e, OF merging_codec_ok quiet_reads_ok t a o refl]
  have "su_autoStart sample_ui" by (simp add: sample_ui_def)
  then show ?thesis using r a l by (auto simp flip: sample_merged_def)
qed

text \<open>Scaling, without overflow for every resolution Windows reports.\<close>

lemma int32_id: "- (2 ^ 31) \<le> x \<Longrightarrow> x < 2 ^ 31 \<Longrightarrow> int32 x = x"
  by (simp add: int32_def int_word_sint)

lemma scale_bounds:
  assumes "0 \<le> v" "v \<le> 600" "0 \<le> dpi" "dpi \<le> 3000000"
  shows "96 * scale dpi v \<le> v * dpi \<and> v * dpi < 96 * scale dpi v + 96"
proof -
  have "v * dpi \<le> 600 * 3000000" using assms by (intro mult_mono) auto
  moreover have nn: "0 \<le> v * dpi" using assms by simp
  ultimately have i: "int32 (v * dpi) = v * dpi" by (intro int32_id) simp_all
  have "scale dpi v = v * dpi div 96"
    unfolding scale_def i using nn by (cases "v * dpi = 0") (auto simp: signed_divide_int_def sgn_if)
  moreover have "96 * (v * dpi div 96) + v * dpi mod 96 = v * dpi" by simp
  moreover have "0 \<le> v * dpi mod 96" "v * dpi mod 96 < 96" by simp_all
  ultimately show ?thesis by linarith
qed

definition inside :: "int \<times> int \<Rightarrow> child \<Rightarrow> bool" where
  "inside wh c \<longleftrightarrow> 0 \<le> ch_x c \<and> 0 \<le> ch_y c \<and> 0 \<le> ch_w c \<and> 0 \<le> ch_h c \<and>
     ch_x c + ch_w c \<le> fst wh \<and> ch_y c + ch_h c \<le> snd wh"

definition scale_values :: "int list" where
  "scale_values = [8, 10, 12, 20, 22, 23, 24, 46, 48, 50, 52, 54, 74, 76, 78, 80, 84, 88, 92, 96, 100, 108, 118, 120,
     140, 174, 216, 220, 310, 404, 448, 468, 492, 546]"

text \<open>(settings_layout). At every resolution from 96 to three million dots per inch, 32-bit scaling
  does not overflow and every control of the settings dialog lies inside it, with distinct
  identifiers.\<close>

theorem settings_layout:
  assumes "96 \<le> dpi" and "dpi \<le> 3000000"
  shows "list_all (inside (settings_size (scale dpi))) (settings_controls (scale dpi)) \<and>
    distinct (map ch_id (settings_controls (scale dpi)))"
proof -
  have b: "96 * scale dpi v \<le> v * dpi \<and> v * dpi < 96 * scale dpi v + 96" if "v \<in> set scale_values" for v
    using that assms by (intro scale_bounds) (auto simp: scale_values_def)
  have bounds: "list_all (\<lambda>v. 96 * scale dpi v \<le> v * dpi \<and> v * dpi < 96 * scale dpi v + 96) scale_values"
    using b by (simp add: list_all_iff)
  have "list_all (inside (settings_size (scale dpi))) (settings_controls (scale dpi))"
    using bounds [unfolded scale_values_def list.pred_inject] assms
    unfolding settings_controls_def settings_size_def mk_child_def inside_def Let_def list.pred_inject child.select_convs
      fst_conv snd_conv
    by (intro conjI list.pred_inject(1)) linarith+
  then show ?thesis by (simp add: settings_controls_def mk_child_def Let_def)
qed

theorem settings_layout_witness: "list_all (inside (settings_size (scale 144))) (settings_controls (scale 144))"
  using settings_layout [of 144] by simp


end
