(* ===== verification/Composition.thy ===== *)
theory Composition
  imports Supervised Dialogs
begin

text \<open>
  Parts of the program put together: what the settings dialog saves is what the next run starts; one agent gives the same
  answers over its three interfaces; and a request to shut down reaches the process that owns the event.
\<close>

section \<open>From the settings dialog to the next run\<close>

text \<open>The interfaces the dialog's values ask for.\<close>

definition chosen_interfaces :: "settingsValues \<Rightarrow> string list" where
  "chosen_interfaces v =
     (if TrimSpace (sv_BackendType v) = BackendEmbedded then [''openssh''] else []) @
     (if sv_PageantEnabled v then [''pageant''] else []) @
     (if sv_CygwinEnabled v then [''cygwin''] else [])"

lemma interface_names_merged:
  assumes "Validate fp pd (mergeSettings cfg v) cp ld up = Inr rc"
  shows "interface_names rc = chosen_interfaces v"
  using assms by (auto simp: Validate_Inr_iff mergeSettings_def interface_names_def chosen_interfaces_def)

text \<open>Configuring from a file that is there and can be read.\<close>

lemma configure_existing:
  assumes "reads_ok (cl_os ce) p" and "\<And>k. oe_fault (cl_os ce) k (CallStat p) = None"
    and "w_files w p = Some n" and "toml_Decode (cl_toml ce) (f_data n) = Inr cfg"
    and "DefaultLogDirectory (cl_fp ce) (cl_getenv ce) = Inr ld"
  shows "fst (configure ce p w) = Validate (cl_fp ce) (cl_durations ce) cfg p ld (cl_getenv ce ''USERPROFILE'')"
proof -
  obtain w1 where c: "CreateDefault (cl_fp ce) (cl_os ce) (cl_toml ce) p w = (Inr False, w1)" "w_files w1 = w_files w"
    using assms(2,3) by (simp add: CreateDefault_def os_Stat_def Let_def fault_of_def)
  have "fst (Load (cl_os ce) (cl_toml ce) p w1) = Inr cfg"
    using assms(3,4) by (simp add: Load_reads [OF assms(1)] c Decode_def)
  then obtain w2 where "Load (cl_os ce) (cl_toml ce) p w1 = (Inr cfg, w2)" by (metis prod.collapse)
  then show ?thesis by (simp add: configure_def c LoadRuntime_def assms(5))
qed

lemma configure_merged:
  assumes tmp: "\<And>v. config_tmp (te_fp te) (te_os te) (tr_configPath t) v \<noteq> tr_configPath t"
    and codec: "codec_ok (te_toml te)"
    and ap: "settings_apply te pd (cl_getenv ce ''USERPROFILE'') t u w = (True, w')"
    and next_run: "cl_fp ce = te_fp te" "cl_durations ce = pd" "cl_toml ce = te_toml te"
    and reads: "reads_ok (cl_os ce) (tr_configPath t)" "\<And>k. oe_fault (cl_os ce) k (CallStat (tr_configPath t)) = None"
    and ld: "DefaultLogDirectory (cl_fp ce) (cl_getenv ce) = Inr ld"
    and files: "w_files v = w_files (tw_os w')"
  obtains rc where "fst (configure ce (tr_configPath t) v) = Inr rc" "interface_names rc = chosen_interfaces (settings_values u)"
proof -
  let ?p = "tr_configPath t"
  obtain c o1 where o1: "CreateDefault (te_fp te) (te_os te) (te_toml te) ?p (tw_os w) = (c, o1)" by fastforce
  from tmp ap o1 show thesis
  proof (cases rule: settings_apply_cases)
    case (saved cfg o2 o3)
    let ?m = "mergeSettings cfg (settings_values u)"
    obtain d where d: "toml_Marshal (te_toml te) ?m = Inr d" "write_config (te_fp te) (te_os te) ?p d o2 = (None, o3)"
      using saved(3) by (auto simp: Save_def split: sum.splits)
    then obtain n where n: "w_files o3 ?p = Some n" "f_data n = d" using config_writer.wr_success [OF tmp] by blast
    have "toml_Decode (cl_toml ce) (f_data n) = Inr ?m" using codec d(1) n(2) by (simp add: codec_ok_def next_run)
    moreover have "w_files v ?p = Some n" using n(1) saved(4) files by simp
    ultimately have
      "fst (configure ce ?p v) = Validate (te_fp te) pd ?m ?p ld (cl_getenv ce ''USERPROFILE'')"
      using configure_existing [OF reads _ _ ld] by (simp add: next_run)
    then show thesis using that saved(2) interface_names_merged by (metis Validate_accepts_iff)
  qed simp
qed

text \<open>C6 (settings_next_run). What the settings dialog applied is what the next run starts.  After \<^verbatim>\<open>apply\<close> has returned true, a run
  that finds the file as \<^verbatim>\<open>apply\<close> left it and can read it starts one application with exactly the interfaces the dialog's values
  ask for, and shows no configuration error.\<close>

theorem settings_next_run:
  assumes "\<forall>v. config_tmp (te_fp te) (te_os te) (tr_configPath t) v \<noteq> tr_configPath t" and "codec_ok (te_toml te)"
    and "settings_apply te pd (cl_getenv (me_cli me) ''USERPROFILE'') t u w = (True, w')"
    and "cl_fp (me_cli me) = te_fp te" and "cl_durations (me_cli me) = pd" and "cl_toml (me_cli me) = te_toml te"
    and "reads_ok (cl_os (me_cli me)) (tr_configPath t)"
    and "\<forall>k. oe_fault (cl_os (me_cli me)) k (CallStat (tr_configPath t)) = None"
    and "DefaultLogDirectory (cl_fp (me_cli me)) (cl_getenv (me_cli me)) = Inr ld"
    and "w_files (mw_os v) = w_files (tw_os w')" and "me_keyring me \<noteq> None"
    and "kernel_ok (mw_kernel v)" and "mw_trace v = []" and "run me [] v = Some (code, v')"
    and "TrayStarted (tr_configPath t) ld' \<in> set (mw_trace v')"
  shows "states_set (mw_trace v') = [] \<and>
    map (map (ac_Name \<circ> component_app)) (apps (mw_trace v')) = [chosen_interfaces (settings_values u)]"
proof -
  obtain rc where rc: "fst (configure (me_cli me) (tr_configPath t) (mw_os v)) = Inr rc"
      "interface_names rc = chosen_interfaces (settings_values u)"
    using configure_merged [OF _ assms(2-7) _ assms(9,10)] assms(1,8) by blast
  then have "runtime_ok rc" using configure_ok by (metis prod.collapse)
  then obtain b where "newBackend (me_keyring me) rc = Inr b" using newBackend_total assms(11) by blast
  then show ?thesis using run_config_gate [OF assms(12-15)] rc by simp
qed

text \<open>The sample dialog on the file the sample machine's next run reads.\<close>

definition run_path :: string where
  "run_path = fp_Join sample_fp [''C:'', ApplicationName, ''config.toml'']"

definition run_world :: tray_world where
  "run_world =
     sample_tray_world\<lparr>tw_os := \<lparr>w_files = [run_path \<mapsto> \<lparr>f_data = [1], f_regular = True, f_attrs = 0\<rparr>], w_trace = []\<rparr>\<rparr>"

definition next_main :: "nat main_env" where
  "next_main = sample_main\<lparr>me_cli := sample_cli\<lparr>cl_toml := merging_toml\<rparr>\<rparr>"

lemma run_path_text: "run_path = ''C:'' @ [bslash] @ ''OmniSSHAgent'' @ [bslash] @ ''config.toml''"
  by (simp add: run_path_def sample_fp_def ApplicationName_def)

lemma run_tmp_ne: "config_tmp sample_fp quiet_env run_path w \<noteq> run_path"
  by (simp add: config_tmp_def quiet_env_def run_path_text sample_fp_def bslash_def)

lemma next_run_tray:
  obtains code v' ld where "run next_main [] (fresh_main\<lparr>mw_os := o1\<rparr>) = Some (code, v')" "TrayStarted run_path ld \<in> set (mw_trace v')"
proof -
  let ?ld = "fp_Join sample_fp [''C:'', ApplicationName, ''logs'']" and ?ce = "sample_cli\<lparr>cl_toml := merging_toml\<rparr>"
  have cp: "DefaultConfigPath (cl_fp ?ce) (cl_getenv ?ce) = Inr run_path"
    "DefaultLogDirectory (cl_fp ?ce) (cl_getenv ?ce) = Inr ?ld"
    by (simp_all add: DefaultConfigPath_def UserConfigDir_def DefaultLogDirectory_def sample_cli_def run_path_def)
  have "\<exists>code v'. run next_main [] (fresh_main\<lparr>mw_os := o1\<rparr>) = Some (code, v') \<and> TrayStarted run_path ?ld \<in> set (mw_trace v')"
    using cp
    by (simp add: run_def cli_Run_def Acquire_def CreateMutex_def run_locked_def NewShutdownEvent_def sample_main_def next_main_def
        fresh_main_def boot_def run_tray_def first_select_def start_application_def stop_application_def tray_left_def
        Let_def split: prod.splits sum.splits)
  then show thesis using that by blast
qed

theorem settings_next_run_witness:
  "\<exists>w' code v'. settings_apply (sample_tray_env\<lparr>te_toml := merging_toml\<rparr>) sample_durations ''C:'' (tray_New run_path '''' True)
      sample_ui run_world = (True, w') \<and>
    run next_main [] (fresh_main\<lparr>mw_os := tw_os w'\<rparr>) = Some (code, v') \<and>
    map (map (ac_Name \<circ> component_app)) (apps (mw_trace v')) = [[''pageant'', ''cygwin'']]"
proof -
  let ?te = "sample_tray_env\<lparr>te_toml := merging_toml\<rparr>" and ?t = "tray_New run_path '''' True"
  have w: "w_files (tw_os run_world) run_path = Some \<lparr>f_data = [1], f_regular = True, f_attrs = 0\<rparr>" "tw_key run_world = None"
    by (simp_all add: run_world_def sample_tray_world_def)
  obtain w' o1 where a: "settings_apply ?te sample_durations ''C:'' ?t sample_ui run_world = (True, w')"
    by (rule sample_apply [OF w])
  let ?v = "fresh_main\<lparr>mw_os := tw_os w'\<rparr>"
  obtain code v' ld' where r: "run next_main [] ?v = Some (code, v')" "TrayStarted run_path ld' \<in> set (mw_trace v')"
    by (rule next_run_tray)
  have e: "te_fp ?te = sample_fp" "te_os ?te = quiet_env" "te_toml ?te = merging_toml" "tr_configPath ?t = run_path"
    "me_cli next_main = sample_cli\<lparr>cl_toml := merging_toml\<rparr>" "me_keyring next_main \<noteq> None"
    "cl_getenv (sample_cli\<lparr>cl_toml := merging_toml\<rparr>) = (\<lambda>_. ''C:'')"
    by (simp_all add: sample_tray_env_def tray_New_def next_main_def sample_main_def sample_cli_def)
  obtain ld where ld: "DefaultLogDirectory sample_fp (\<lambda>_. ''C:'') = Inr ld" by (simp add: DefaultLogDirectory_def)
  have t: "\<forall>v. config_tmp (te_fp ?te) (te_os ?te) (tr_configPath ?t) v \<noteq> tr_configPath ?t"
    unfolding e using run_tmp_ne by blast
  have "map (map (ac_Name \<circ> component_app)) (apps (mw_trace v')) = [chosen_interfaces (settings_values sample_ui)]"
    by (rule settings_next_run [OF t, where pd = sample_durations and u = sample_ui and w = run_world and w' = w'
          and me = next_main and v = ?v and code = code and ld = ld and ld' = ld', THEN conjunct2])
      (use a r boot_ok ld in \<open>simp_all add: e merging_codec_ok quiet_reads_ok fresh_main_def, simp_all add: sample_cli_def
        quiet_env_def reads_ok_def\<close>)
  moreover have "chosen_interfaces (settings_values sample_ui) = [''pageant'', ''cygwin'']" by code_simp
  ultimately show ?thesis using a r(1) by auto
qed


section \<open>One agent, three interfaces\<close>

text \<open>A complete message of the agent protocol: a length and as many bytes, within \<^verbatim>\<open>MaxMessageLen\<close>.\<close>

definition complete_message :: "bytes \<Rightarrow> bool" where
  "complete_message m \<longleftrightarrow> request_in m m"

text \<open>
  What \<^verbatim>\<open>agent.ServeAgent\<close> documents: it reads requests in turn, answers each with a message, and returns the error of reading, which is
  \<^verbatim>\<open>io.EOF\<close> when the client has closed after a complete request.
\<close>

fun and_serve :: "served \<times> 's \<Rightarrow> ('s \<Rightarrow> served \<times> 's) \<Rightarrow> served \<times> 's" where
  "and_serve (Served err out, s) f =
     (case f s of (Served err1 out1, s1) \<Rightarrow> (Served err1 (out @ out1), s1) | (ServePanic p, s1) \<Rightarrow> (ServePanic p, s1))"
| "and_serve (ServePanic p, s) f = (ServePanic p, s)"

definition serves_in_turn :: "'s serve_agent \<Rightarrow> bool" where
  "serves_in_turn serve \<longleftrightarrow>
     (\<forall>s. serve s [] = (Served (Some EOF) [], s)) \<and>
     (\<forall>s m. complete_message m \<longrightarrow> (\<exists>out s1. serve s m = (Served (Some EOF) out, s1) \<and> complete_message out)) \<and>
     (\<forall>s m rest. complete_message m \<longrightarrow> serve s (m @ rest) = and_serve (serve s m) (\<lambda>s1. serve s1 rest))"

text \<open>
  A client of Pageant: it puts its request at the start of the shared memory, sends the message, and reads the answer there.  \<open>talk\<close> is
  one request after another; it gives up when one is not answered.
\<close>

definition pageant_ask :: "'s pageant_env \<Rightarrow> u64 \<Rightarrow> bytes \<Rightarrow> 's pworld \<Rightarrow> bytes option \<times> 's pworld" where
  "pageant_ask env a m w =
     (if length (pw_region w a) < length m then (None, w)
      else
        (case handle_view env a (w\<lparr>pw_region := (pw_region w)(a := m @ drop (length m) (pw_region w a))\<rparr>) of
           (Returned None, w1) \<Rightarrow>
             (map_option (\<lambda>n. take (4 + unat n) (pw_region w1 a)) (be_get32 (pw_region w1 a)), w1)
         | (_, w1) \<Rightarrow> (None, w1)))"

fun pageant_talk :: "'s pageant_env \<Rightarrow> u64 \<Rightarrow> bytes list \<Rightarrow> 's pworld \<Rightarrow> bytes list option \<times> 's pworld" where
  "pageant_talk env a [] w = (Some [], w)"
| "pageant_talk env a (m # ms) w =
     (case pageant_ask env a m w of
        (None, w1) \<Rightarrow> (None, w1)
      | (Some out, w1) \<Rightarrow>
          (case pageant_talk env a ms w1 of (r, w2) \<Rightarrow> (map_option (\<lambda>outs. out # outs) r, w2)))"

lemma request_in_take: "request_in mapped req \<Longrightarrow> \<exists>n. be_get32 mapped = Some n \<and> req = take (4 + unat n) mapped"
  by (auto simp: request_in_def)

lemma message_read: "complete_message m \<Longrightarrow> \<exists>n. be_get32 (m @ rest) = Some n \<and> take (4 + unat n) (m @ rest) = m"
  using request_in_take [of "m @ rest" m] by (auto simp: complete_message_def request_in_def)

lemma message_request: "complete_message m \<Longrightarrow> request_in (m @ rest) req \<Longrightarrow> req = m"
  using message_read [of m rest] request_in_take [of "m @ rest" req] by auto

lemma pageant_ask_answer:
  assumes "serves_in_turn (pe_ServeAgent env)" and "complete_message m" and "pageant_ask env a m w = (Some out, w1)"
  shows "pe_ServeAgent env (pw_agent w) m = (Served (Some EOF) out, pw_agent w1)"
proof -
  let ?w = "w\<lparr>pw_region := (pw_region w)(a := m @ drop (length m) (pw_region w a))\<rparr>"
  obtain out' s' where s: "pe_ServeAgent env (pw_agent w) m = (Served (Some EOF) out', s')" "complete_message out'"
    using assms(1,2) unfolding serves_in_turn_def by blast
  have r: "reply_of (Some EOF) out' = out'" by (simp add: reply_of_def serve_failed_def)
  obtain n where n: "handle_view env a ?w = (Returned None, w1)" "be_get32 (pw_region w1 a) = Some n"
      "out = take (4 + unat n) (pw_region w1 a)"
    using assms(3) by (auto simp: pageant_ask_def split: if_splits outcome.splits option.splits prod.splits)
  show ?thesis
  proof (cases rule: handle_view_cases [of env a ?w])
    case (replied err o2 s2 req)
    have "req = m" using message_request [OF assms(2)] replied(1) by simp
    then have eq: "err = Some EOF" "o2 = out'" "s2 = s'" using replied(2) s(1) by simp_all
    obtain rest where "pw_region w1 a = out' @ rest" "pw_agent w1 = s'"
      using n(1) replied(3) by (auto simp: eq r)
    then show ?thesis using n(2,3) message_read [OF s(2), of rest] s(1) by auto
  qed (use n(1) in simp_all)
qed

lemma pageant_talk_serves:
  assumes "serves_in_turn (pe_ServeAgent env)" and "list_all complete_message ms" and "pageant_talk env a ms w = (Some outs, w1)"
  shows "pe_ServeAgent env (pw_agent w) (concat ms) = (Served (Some EOF) (concat outs), pw_agent w1)"
  using assms(2,3)
proof (induction ms arbitrary: w outs)
  case Nil
  then show ?case using assms(1) by (simp add: serves_in_turn_def)
next
  case (Cons m ms)
  obtain out v outs' where a: "pageant_ask env a m w = (Some out, v)" "pageant_talk env a ms v = (Some outs', w1)" "outs = out # outs'"
    using Cons.prems(2) by (auto split: prod.splits option.splits)
  have "pe_ServeAgent env (pw_agent w) (m @ concat ms) =
      and_serve (pe_ServeAgent env (pw_agent w) m) (\<lambda>s. pe_ServeAgent env s (concat ms))"
    using assms(1) Cons.prems(1) by (simp add: serves_in_turn_def)
  then show ?case using pageant_ask_answer [OF assms(1) _ a(1)] Cons.IH [OF _ a(2)] Cons.prems(1) a(3) by simp
qed

lemma handshake_succeeds:
  assumes "length nonce = 16" "length ident = 12" "cn_in cn = nonce @ ident @ rest" "\<forall>k. cn_wfault cn k = None"
  obtains cn' where "handshake pid nonce cn = (True, cn')" "cn_in cn' = rest"
    "cn_out cn' = cn_out cn @ nonce @ le_put32 (word_of_int pid) @ drop 4 ident"
  using assms by (simp add: handshake_def io_ReadFull_def conn_Write_def)



text \<open>A server that answers every request with success and counts them.\<close>

function count_serve :: "nat serve_agent" where
  "count_serve k input =
     (if input = [] then (Served (Some EOF) [], k)
      else
        (case be_get32 input of
           None \<Rightarrow> (Served (Some ErrUnexpectedEOF) [], k)
         | Some n \<Rightarrow>
             if unat n = 0 \<or> MaxMessageLen < int (unat n) \<or> length input < 4 + unat n
             then (Served (Some ErrUnexpectedEOF) [], k)
             else
               (case count_serve (Suc k) (drop (4 + unat n) input) of
                  (Served err out, k1) \<Rightarrow> (Served err ([0, 0, 0, 1, 6] @ out), k1)
                | (ServePanic p, k1) \<Rightarrow> (ServePanic p, k1))))"
  by pat_completeness auto

termination by (relation "measure (length \<circ> snd)") auto

declare count_serve.simps [simp del]

lemma count_serve_message:
  assumes "complete_message m"
  shows "count_serve k (m @ rest) = and_serve (Served (Some EOF) [0, 0, 0, 1, 6], Suc k) (\<lambda>k1. count_serve k1 rest)"
proof -
  obtain n body where m: "m = be_put32 n @ body" "length body = unat n" "0 < unat n" "int (unat n) \<le> MaxMessageLen"
    using assms by (auto simp: complete_message_def request_in_def)
  have "be_put32 n \<noteq> []" by (simp add: be_put32_def)
  then show ?thesis using m by (subst count_serve.simps) (simp add: not_less)
qed

lemma count_serve_in_turn: "serves_in_turn count_serve"
proof -
  have e: "count_serve k [] = (Served (Some EOF) [], k)" for k by (subst count_serve.simps) simp
  have ok: "complete_message [0, 0, 0, 1, 6]"
    by (auto simp: complete_message_def request_in_def be_put32_def MaxMessageLen_def intro!: exI [of _ 1] exI [of _ "[6]"])
  have m: "count_serve k m = (Served (Some EOF) [0, 0, 0, 1, 6], Suc k)" if "complete_message m" for k m
    using count_serve_message [OF that, of k "[]"] e by simp
  show ?thesis using e ok m count_serve_message by (auto simp: serves_in_turn_def)
qed

definition list_request :: bytes where "list_request = [0, 0, 0, 1, 11]"

lemma list_request_message: "complete_message list_request"
  by (auto simp: complete_message_def request_in_def be_put32_def MaxMessageLen_def list_request_def intro!: exI [of _ 1] exI [of _ "[11]"])

definition talk_env :: "nat pageant_env" where
  "talk_env = sample_pageant_env\<lparr>pe_ServeAgent := count_serve\<rparr>"

lemma sample_talk:
  "map_prod id pw_agent (pageant_talk talk_env 9 [list_request, list_request] sample_pworld) =
     (Some [[0, 0, 0, 1, 6], [0, 0, 0, 1, 6]], 2)"
  by code_simp

definition talk_conn :: "bytes \<Rightarrow> bytes \<Rightarrow> bytes \<Rightarrow> conn" where
  "talk_conn nonce ident input =
     \<lparr>cn_in = nonce @ ident @ input, cn_wfault = (\<lambda>_. None), cn_writes = 0, cn_out = [], cn_deadline = False, cn_closed = False\<rparr>"


end
