(* ===== verification/Test_Support.thy ===== *)
theory Test_Support
  imports Supervised
begin

text \<open>
  The support code of the program's tests that is not itself a test: the fake component and the pipe server of src/internal/testutil, the
  two programs the end-to-end tests start (src/internal/e2e), and the program of other platforms.  The fake component keeps the
  contract of a component, so that what the supervisor's tests see of it is what a real component may do; and the program that owns
  the shutdown event ends when another process asks for it, which is what the installer relies on.
\<close>

section \<open>fakes.go\<close>

text \<open>\<open>fk_ready\<close> is the channel, made by the first call of \<^verbatim>\<open>Ready\<close>; \<open>fk_signalled\<close> that \<^verbatim>\<open>readySignal\<close> has run.\<close>

record FakeComponent =
  fk_Name :: string
  fk_StartError :: "goerr option"
  fk_Started :: bool
  fk_ready :: "goerr option list option"
  fk_signalled :: bool

definition fake_Ready :: "FakeComponent \<Rightarrow> FakeComponent" where
  "fake_Ready c = (case fk_ready c of None \<Rightarrow> c\<lparr>fk_ready := Some []\<rparr> | Some _ \<Rightarrow> c)"

text \<open>\<open>ended\<close> is whether the context ends; the fake waits for it unless it fails.\<close>

definition fake_Start :: "bool \<Rightarrow> FakeComponent \<Rightarrow> (goerr option \<times> FakeComponent) option" where
  "fake_Start ended c =
     (let c1 = fake_Ready (c\<lparr>fk_Started := True\<rparr>);
          c2 = (if fk_signalled c1 then c1
                else c1\<lparr>fk_signalled := True, fk_ready := map_option (\<lambda>q. q @ [fk_StartError c1]) (fk_ready c1)\<rparr>) in
      if fk_StartError c2 \<noteq> None then Some (fk_StartError c2, c2)
      else if ended then Some (None, c2) else None)"

text \<open>The fake as a component: its channel and \<^verbatim>\<open>Once\<close> are those of \<open>readiness\<close>.\<close>

definition fake_run :: "bool \<times> FakeComponent \<Rightarrow> readiness \<Rightarrow> (goerr option \<times> readiness) option" where
  "fake_run = (\<lambda>(ended, c) rd.
     map_option (\<lambda>(r, c1). (r, \<lparr>rd_once = fk_signalled c1, rd_ready = (case fk_ready c1 of None \<Rightarrow> [] | Some q \<Rightarrow> q)\<rparr>))
       (fake_Start ended (c\<lparr>fk_signalled := rd_once rd, fk_ready := Some (rd_ready rd)\<rparr>)))"

text \<open>What a run of the fake does: it reports its error, or success and then waits for the context.\<close>

lemma fake_run_iff:
  "fake_run (ended, c) fresh_ready = Some (r, rd) \<longleftrightarrow>
     r = fk_StartError c \<and> rd = reportReady (fk_StartError c) fresh_ready \<and> (ended \<or> fk_StartError c \<noteq> None)"
  by (auto simp: fake_run_def fake_Start_def fake_Ready_def fresh_ready_def reportReady_def Let_def)

interpretation fake: ready_component fake_run
proof (rule ready_componentI)
  fix x r rd assume "fake_run x fresh_ready = Some (r, rd)"
  then have "r = fk_StartError (snd x)" "rd = reportReady (fk_StartError (snd x)) fresh_ready"
    using fake_run_iff [of "fst x" "snd x" r rd] by simp_all
  then show "(\<exists>e. r = Some e \<and> rd = reportReady (Some e) fresh_ready) \<or> rd = report_result r (reportReady None fresh_ready)"
    by (cases "fk_StartError (snd x)") auto
qed

section \<open>backend.go and namedpipe\_windows.go\<close>

text \<open>\<^verbatim>\<open>agent.NewKeyring().(agent.ExtendedAgent)\<close>: a panic if the keyring were not one.\<close>

definition test_NewBackend :: "'s ExtendedAgent option \<Rightarrow> 's ExtendedAgent outcome" where
  "test_NewBackend keyring =
     (case keyring of None \<Rightarrow> Panicked ''interface conversion'' | Some k \<Rightarrow> Returned k)"

definition test_pipe_path :: "int \<Rightarrow> string \<Rightarrow> string" where
  "test_pipe_path pid suffix = pipePrefix @ ''OmniSSHAgent-Test-'' @ Itoa pid @ ''-'' @ suffix"

text \<open>The server's goroutine: the number of clients handed to one of their own, once \<^verbatim>\<open>Accept\<close> has failed.\<close>

fun server_loop :: "accept list \<Rightarrow> nat \<Rightarrow> nat option" where
  "server_loop [] n = None"
| "server_loop (Accepted # xs) n = server_loop xs (Suc n)"
| "server_loop (AcceptFailed e stopped # xs) n = Some n"

definition StartNamedPipeServer :: "(string \<Rightarrow> goerr option) \<Rightarrow> int \<Rightarrow> string \<Rightarrow> string result" where
  "StartNamedPipeServer listenPipe pid suffix =
     (let path = test_pipe_path pid suffix in case listenPipe path of Some e \<Rightarrow> Inl e | None \<Rightarrow> Inr path)"

text \<open>\<^verbatim>\<open>Close\<close> closes the listener and waits for the goroutine.\<close>

definition server_Close :: "goerr option \<Rightarrow> accept list \<Rightarrow> goerr option option" where
  "server_Close closeErr accepts = (case server_loop accepts 0 of None \<Rightarrow> None | Some n \<Rightarrow> Some closeErr)"

section \<open>e2e and the program of other platforms\<close>

text \<open>The exit codes; \<open>None\<close> while the program runs.\<close>

definition pageantowner_main :: "'s pageant_env \<Rightarrow> start_env \<Rightarrow> 's pworld \<Rightarrow> int option" where
  "pageantowner_main env se w =
     map_option (\<lambda>r. if r \<noteq> None then 1 else 0) (returned (RunPageant \<lparr>pg_logger = True\<rparr> env se w))"

text \<open>\<open>args\<close> are the arguments after the program's name, \<open>polls\<close> what \<^verbatim>\<open>Wait\<close> sees.\<close>

definition shutdownowner_main :: "event_env \<Rightarrow> string list \<Rightarrow> poll list \<Rightarrow> events \<Rightarrow> int option \<times> string list \<times> events" where
  "shutdownowner_main ev args polls es =
     (if args = [''--legacy''] then (None, [], es)
      else
        (let name = (case args of [a] \<Rightarrow> a | _ \<Rightarrow> ShutdownEventName) in
         case NewShutdownEvent ev name es of
           (Some e, es1) \<Rightarrow> (Some 1, [err_text e], es1)
         | (None, es1) \<Rightarrow>
             (case Wait polls of
                None \<Rightarrow> (None, [], es1)
              | Some (Some e) \<Rightarrow> (Some 1, [err_text e], es1)
              | Some None \<Rightarrow> (Some 0, [], es1))))"

definition unsupported_main :: "int \<times> string list" where
  "unsupported_main = (7, [''OmniSSHAgent is supported only on Windows''])"

section \<open>Lemmas\<close>

text \<open>A poll of the event in a table of events, with a context that has not ended.\<close>

definition poll_of :: "string \<Rightarrow> events \<Rightarrow> poll" where
  "poll_of name es = \<lparr>pl_error = None, pl_signalled = (es name = Some True), pl_ctx = None\<rparr>"

lemma Wait_quiet: "es name \<noteq> Some True \<Longrightarrow> Wait (replicate k (poll_of name es) @ xs) = Wait xs"
  by (induction k) (simp_all add: poll_of_def)

lemma Wait_signalled: "es name = Some True \<Longrightarrow> Wait (poll_of name es # xs) = Some None"
  by (simp add: poll_of_def)

lemma NewShutdownEvent_cases:
  assumes "NewShutdownEvent ev name es = (None, es1)" and "es name \<noteq> Some True"
  shows "es1 name = Some False"
  using assms by (auto simp: NewShutdownEvent_def split: option.splits)

lemma Request_True: "RequestShutdown ev name es = (Inr True, es2) \<Longrightarrow> es2 name = Some True"
  by (auto simp: RequestShutdown_def split: option.splits)

lemma Request_other: "fst (RequestShutdown ev name es) \<noteq> Inr True \<Longrightarrow> snd (RequestShutdown ev name es) = es"
  by (auto simp: RequestShutdown_def split: option.splits)

lemma server_loop_total: "server_loop xs n \<noteq> None \<longleftrightarrow> list_ex (\<lambda>x. x \<noteq> Accepted) xs"
  by (induction xs n rule: server_loop.induct) auto

section \<open>Properties\<close>

text \<open>C20 (shutdown_request). A request to shut down and the program that owns the event.  With no owner the request finds nothing, changes
  nothing and says so.  With an owner that polls \<open>k\<close> times before the request and once after it, the owner ends, with code
  0, exactly when the request returned true; after a request that failed it still waits.\<close>

theorem shutdown_request:
  assumes "NewShutdownEvent ev name es = (None, es1)" and "es name \<noteq> Some True" and "RequestShutdown ev' name es1 = (r, es2)"
    and "name \<noteq> ''--legacy''"
  shows "(es name = None \<and> ev_utf16 ev' = None \<and> ev_open ev' = None \<longrightarrow> RequestShutdown ev' name es = (Inr False, es)) \<and>
    fst (shutdownowner_main ev [name] (replicate k (poll_of name es1) @ [poll_of name es2]) es) =
      (if r = Inr True then Some 0 else None) \<and>
    r \<noteq> Inr False"
proof -
  have q: "es1 name = Some False" using NewShutdownEvent_cases [OF assms(1,2)] .
  have m: "fst (shutdownowner_main ev [name] (replicate k (poll_of name es1) @ [poll_of name es2]) es) =
      (case Wait [poll_of name es2] of None \<Rightarrow> None | Some (Some e) \<Rightarrow> Some 1 | Some None \<Rightarrow> Some 0)"
    using assms(1,4) q by (simp add: shutdownowner_main_def Wait_quiet split: option.split)
  have "r \<noteq> Inr False" using assms(3) q by (auto simp: RequestShutdown_def split: option.splits)
  moreover have "Wait [poll_of name es2] = (if r = Inr True then Some None else None)"
    using Request_True [of ev' name es1 es2] Request_other [of ev' name es1] assms(3) q
    by (cases "r = Inr True") (simp_all add: poll_of_def)
  ultimately show ?thesis using m by (simp add: RequestShutdown_def)
qed

theorem shutdown_request_witness:
  "fst (shutdownowner_main \<lparr>ev_utf16 = None, ev_open = None, ev_set = None\<rparr> [''e'']
      (replicate 3 (poll_of ''e'' [''e'' \<mapsto> False]) @ [poll_of ''e'' [''e'' \<mapsto> True]]) Map.empty) = Some 0"
proof -
  let ?ev = "\<lparr>ev_utf16 = None, ev_open = None, ev_set = None\<rparr> :: event_env"
  have n: "NewShutdownEvent ?ev ''e'' Map.empty = (None, [''e'' \<mapsto> False])" by (simp add: NewShutdownEvent_def)
  have r: "RequestShutdown ?ev ''e'' [''e'' \<mapsto> False] = (Inr True, [''e'' \<mapsto> True])" by (simp add: RequestShutdown_def)
  have l: "''e'' \<noteq> ''--legacy''" "(Map.empty :: events) ''e'' \<noteq> Some True" by simp_all
  show ?thesis using shutdown_request [OF n l(2) r l(1), of 3] by simp
qed

end
