(* ===== verification/Keys.thy ===== *)
theory Keys
  imports Dialogs
begin

text \<open>
  Managing keys (src/internal/tray/keys\_windows.go): parsing and adding a private key from a file, the
  list of the agent's keys with its two commands, and the passphrase dialog.  Parsing private keys
  and the fingerprint of a public key are golang.org/x/crypto and parameters.  The dialogs' windows
  and controls are what \<^verbatim>\<open>createPopup\<close> and \<^verbatim>\<open>createChild\<close> answer for them.
\<close>

section \<open>keys\_windows.go\<close>

definition errPassphraseRequired :: goerr where
  "errPassphraseRequired = ErrSentinel ''passphrase required''"

definition errDialogCanceled :: goerr where
  "errDialogCanceled = ErrSentinel ''canceled''"

text \<open>
  golang.org/x/crypto/ssh: parsing without and with a passphrase.  An encrypted key parsed without
  one gives an error whose chain holds \<^verbatim>\<open>PassphraseMissingError\<close>.
\<close>

record ssh_ops =
  ssh_ParseRaw :: "bytes \<Rightarrow> bytes result"
  ssh_ParseRawWith :: "bytes \<Rightarrow> bytes \<Rightarrow> bytes result"
  ssh_Fingerprint :: "AgentKey \<Rightarrow> string"

abbreviation "PassphraseMissing \<equiv> ErrSentinel ''ssh.PassphraseMissingError''"

definition parsePrivateKey :: "ssh_ops \<Rightarrow> bytes \<Rightarrow> bytes \<Rightarrow> bytes result" where
  "parsePrivateKey sh data passphrase =
     (if passphrase = [] then
        (case ssh_ParseRaw sh data of
           Inl e \<Rightarrow> if errors_Is e PassphraseMissing then Inl errPassphraseRequired else Inl e
         | Inr key \<Rightarrow> Inr key)
      else ssh_ParseRawWith sh data passphrase)"

definition formatListedKey :: "ssh_ops \<Rightarrow> AgentKey option \<Rightarrow> string" where
  "formatListedKey sh k =
     (case k of
        None \<Rightarrow> ''''
      | Some key \<Rightarrow>
          (let base = ak_Format key @ '' '' @ ssh_Fingerprint sh key; comment = TrimSpace (ak_Comment key) in
           if comment \<noteq> '''' then base @ '' '' @ comment else base))"

definition clearBytes :: "bytes \<Rightarrow> bytes" where
  "clearBytes b = (if b = [] then b else replicate (length b) 0)"

record key_env =
  ke_fp :: filepath_ops
  ke_os :: os_env
  ke_ssh :: ssh_ops

text \<open>
  \<^verbatim>\<open>addKeyFromFile\<close>: \<open>askPass\<close> is the answer of the passphrase dialog if there is one.  The last
  component of the result is the passphrase buffer after the call, where one was obtained.
\<close>

definition addKeyFromFile ::
  "key_env \<Rightarrow> 's ExtendedAgent option \<Rightarrow> string \<Rightarrow> (bytes \<times> bool) option \<Rightarrow> 's \<Rightarrow> world \<Rightarrow>
   goerr option \<times> 's \<times> world \<times> bytes option" where
  "addKeyFromFile ke b path askPass s w =
     (case b of
        None \<Rightarrow> (Some (ErrNew ''the SSH agent backend is unavailable''), s, w, None)
      | Some agent \<Rightarrow>
          if EqualFold (fp_Ext (ke_fp ke) path) ''.ppk'' then
            (Some (ErrNew ''PuTTY .ppk keys are not supported''), s, w, None)
          else
            (case os_ReadFile (ke_os ke) path w of
               (Inl e, w1) \<Rightarrow> (Some e, s, w1, None)
             | (Inr data, w1) \<Rightarrow>
                 (let add = (\<lambda>key. case ag_Add agent \<lparr>add_PrivateKey = key, add_Comment = fp_Base (ke_fp ke) path,
                        add_LifetimeSecs = 0, add_ConfirmBeforeUse = False\<rparr> s of (r, s1) \<Rightarrow> (err_of r, s1)) in
                  case parsePrivateKey (ke_ssh ke) data [] of
                    Inr key \<Rightarrow> (case add key of (r, s1) \<Rightarrow> (r, s1, w1, None))
                  | Inl e \<Rightarrow>
                      if \<not> errors_Is e errPassphraseRequired then (Some e, s, w1, None)
                      else
                        (case askPass of
                           None \<Rightarrow> (Some e, s, w1, None)
                         | Some (pass, ok) \<Rightarrow>
                             if \<not> ok then (Some errDialogCanceled, s, w1, None)
                             else
                               (case parsePrivateKey (ke_ssh ke) data pass of
                                  Inl e2 \<Rightarrow> (Some e2, s, w1, Some (clearBytes pass))
                                | Inr key \<Rightarrow> (case add key of (r, s1) \<Rightarrow> (r, s1, w1, Some (clearBytes pass))))))))"

text \<open>
  The key list: the keys, the lines of the list box and its horizontal extent.  \<^verbatim>\<open>listAdd\<close> drops a line
  that cannot be encoded.  \<open>kd_open\<close> is whether its window exists; errors shown are recorded by
  their title.
\<close>

definition idKeyList :: nat where "idKeyList = 2201"
definition idAddKey :: u64 where "idAddKey = 2202"
definition idRemoveKey :: u64 where "idRemoveKey = 2203"
definition idPassEdit :: nat where "idPassEdit = 2204"

record keysDialog =
  kd_open :: bool
  kd_keys :: "AgentKey list"
  kd_lines :: "string list"
  kd_extent :: int
  kd_errors :: "string list"

definition listAdd :: "string list \<Rightarrow> string \<Rightarrow> string list" where
  "listAdd lines line = (case UTF16FromString line of None \<Rightarrow> lines | Some _ \<Rightarrow> lines @ [line])"

definition keys_refresh ::
  "ssh_ops \<Rightarrow> (string \<Rightarrow> int) \<Rightarrow> 's ExtendedAgent \<Rightarrow> keysDialog \<Rightarrow> 's \<Rightarrow> goerr option \<times> keysDialog \<times> 's" where
  "keys_refresh sh textWidth agent d s =
     (case ag_List agent s of
        (Inl e, s1) \<Rightarrow> (Some e, d, s1)
      | (Inr keys, s1) \<Rightarrow>
          (let labels = map (\<lambda>k. formatListedKey sh (Some k)) keys in
           (None, d\<lparr>kd_keys := keys, kd_lines := foldl listAdd [] labels, kd_extent := horizontalExtent textWidth labels\<rparr>, s1)))"

definition keys_error :: "string \<Rightarrow> keysDialog \<Rightarrow> keysDialog" where
  "keys_error title d = d\<lparr>kd_errors := kd_errors d @ [title]\<rparr>"

definition keys_show :: "string \<Rightarrow> goerr option \<times> keysDialog \<times> 's \<Rightarrow> keysDialog \<times> 's" where
  "keys_show title x = (case x of (None, d, s) \<Rightarrow> (d, s) | (Some e, d, s) \<Rightarrow> (keys_error title d, s))"

text \<open>\<open>picked\<close> is the answer of the file dialog, \<open>prompt\<close> that of the passphrase dialog.\<close>

definition keys_add ::
  "key_env \<Rightarrow> (string \<Rightarrow> int) \<Rightarrow> 's ExtendedAgent \<Rightarrow> string option \<Rightarrow> bytes \<times> bool \<Rightarrow> keysDialog \<Rightarrow> 's \<Rightarrow> world \<Rightarrow>
   keysDialog \<times> 's \<times> world" where
  "keys_add ke textWidth agent picked prompt d s w =
     (case picked of
        None \<Rightarrow> (d, s, w)
      | Some path \<Rightarrow>
          (case addKeyFromFile ke (Some agent) path (Some prompt) s w of
             (Some e, s1, w1, _) \<Rightarrow>
               if errors_Is e errDialogCanceled then (d, s1, w1) else (keys_error ''Add key'' d, s1, w1)
           | (None, s1, w1, _) \<Rightarrow>
               (case keys_show ''Manage keys'' (keys_refresh (ke_ssh ke) textWidth agent d s1) of (d1, s2) \<Rightarrow> (d1, s2, w1))))"

text \<open>The key of the list passed to \<^verbatim>\<open>Remove\<close>, by its format and blob.\<close>

definition key_of :: "AgentKey \<Rightarrow> PublicKey" where
  "key_of k = \<lparr>pk_Type = ak_Format k, pk_Blob = ak_Blob k\<rparr>"

definition keys_remove ::
  "ssh_ops \<Rightarrow> (string \<Rightarrow> int) \<Rightarrow> 's ExtendedAgent \<Rightarrow> int \<Rightarrow> keysDialog \<Rightarrow> 's \<Rightarrow> keysDialog \<times> 's" where
  "keys_remove sh textWidth agent idx d s =
     (if idx < 0 \<or> idx \<ge> int (length (kd_keys d)) then (keys_error ''Remove key'' d, s)
      else
        (case ag_Remove agent (key_of (kd_keys d ! nat idx)) s of
           (Inl e, s1) \<Rightarrow> (keys_error ''Remove key'' d, s1)
         | (Inr _, s1) \<Rightarrow> keys_show ''Manage keys'' (keys_refresh sh textWidth agent d s1)))"

text \<open>
  \<^verbatim>\<open>keysWindowProc\<close> for the dialog's own window; \<open>ki_*\<close> are what the user picks, types and has selected
  when the message arrives.  Closing destroys the window.
\<close>

record key_input =
  ki_message :: tmessage
  ki_picked :: "string option"
  ki_prompt :: "bytes \<times> bool"
  ki_index :: int

definition keysWindowProc ::
  "tray_env \<Rightarrow> key_env \<Rightarrow> (string \<Rightarrow> int) \<Rightarrow> 's ExtendedAgent \<Rightarrow> key_input \<Rightarrow> keysDialog \<times> 's \<times> world \<Rightarrow>
   u64 \<times> keysDialog \<times> 's \<times> world" where
  "keysWindowProc te ke textWidth agent i = (\<lambda>(d, s, w).
     let m = ki_message i; cid = commandID (tm_WParam m) in
     if \<not> kd_open d then (te_DefWindowProc te (tm_Message m), d, s, w)
     else if tm_Message m = wmCommand \<and> cid = idAddKey then
       (0, keys_add ke textWidth agent (ki_picked i) (ki_prompt i) d s w)
     else if tm_Message m = wmCommand \<and> cid = idRemoveKey then
       (case keys_remove (ke_ssh ke) textWidth agent (ki_index i) d s of (d1, s1) \<Rightarrow> (0, d1, s1, w))
     else if tm_Message m = wmCommand \<and> (cid = idCancel \<or> cid = idOK) then (0, d\<lparr>kd_open := False\<rparr>, s, w)
     else if tm_Message m = wmClose \<or> tm_Message m = trWmDestroy then (0, d\<lparr>kd_open := False\<rparr>, s, w)
     else (te_DefWindowProc te (tm_Message m), d, s, w))"

definition keys_controls :: "(int \<Rightarrow> int) \<Rightarrow> child list" where
  "keys_controls s =
     (let pad = s 12; btnW = s 88; btnH = s 24; listH = s 240; buttonY = pad + listH + s 12 in
      [mk_child ''ListBox'' '''' pad pad (s 468) listH idKeyList,
       mk_child ''Button'' ''Add...'' pad buttonY btnW btnH (unat idAddKey),
       mk_child ''Button'' ''Remove'' (pad + btnW + s 8) buttonY btnW btnH (unat idRemoveKey),
       mk_child ''Button'' ''Close'' (s 392) buttonY btnW btnH (unat idCancel)])"

definition keys_size :: "(int \<Rightarrow> int) \<Rightarrow> int \<times> int" where
  "keys_size s = (s 492, s 360)"

text \<open>\<^verbatim>\<open>create\<close>: a control that cannot be created destroys the window; a list that cannot be read is only shown.\<close>

definition keys_create ::
  "int \<Rightarrow> u64 result \<Rightarrow> (child \<Rightarrow> goerr option) \<Rightarrow> ssh_ops \<Rightarrow> (string \<Rightarrow> int) \<Rightarrow> 's ExtendedAgent \<Rightarrow> 's \<Rightarrow> tray_world \<Rightarrow>
   keysDialog result \<times> 's \<times> tray_world" where
  "keys_create dpi popup api sh textWidth agent s w =
     (case popup of
        Inl e \<Rightarrow> (Inl e, s, w)
      | Inr hwnd \<Rightarrow>
          (case create_children api (keys_controls (scale dpi)) of
             Some e \<Rightarrow> (Inl e, s, emit (TDestroyWindow hwnd) w)
           | None \<Rightarrow>
               (case keys_show ''Manage keys'' (keys_refresh sh textWidth agent
                  \<lparr>kd_open = True, kd_keys = [], kd_lines = [], kd_extent = 0, kd_errors = []\<rparr> s) of
                  (d, s1) \<Rightarrow> (Inr d, s1, w))))"

text \<open>\<^verbatim>\<open>openKeys\<close> with no key list open: \<open>b\<close> is the backend \<^verbatim>\<open>SetBackend\<close> last gave the tray.\<close>

definition openKeys ::
  "int \<Rightarrow> u64 result \<Rightarrow> (child \<Rightarrow> goerr option) \<Rightarrow> ssh_ops \<Rightarrow> (string \<Rightarrow> int) \<Rightarrow> 's ExtendedAgent option \<Rightarrow> 's \<Rightarrow> tray_world \<Rightarrow>
   keysDialog option \<times> 's \<times> tray_world" where
  "openKeys dpi popup api sh textWidth b s w =
     (case b of
        None \<Rightarrow> (None, s, emit (TShowFatal ''Manage keys'') w)
      | Some agent \<Rightarrow>
          (case keys_create dpi popup api sh textWidth agent s w of
             (Inl e, s1, w1) \<Rightarrow> (None, s1, emit (TShowFatal ''Manage keys'') w1)
           | (Inr d, s1, w1) \<Rightarrow> (Some d, s1, w1)))"

text \<open>The passphrase dialog: what is typed, and what its caller gets.\<close>

record passwordDialog =
  pd_edit :: string
  pd_ok :: bool
  pd_secret :: bytes
  pd_open :: bool

definition password_accept :: "passwordDialog \<Rightarrow> passwordDialog" where
  "password_accept d = d\<lparr>pd_secret := bytes_of (pd_edit d), pd_ok := True, pd_edit := '''', pd_open := False\<rparr>"

definition password_cancel :: "passwordDialog \<Rightarrow> passwordDialog" where
  "password_cancel d = d\<lparr>pd_ok := False, pd_edit := '''', pd_open := False\<rparr>"

datatype password_input = PwType string | PwCommand u64 | PwClose

definition passwordWindowProc :: "password_input \<Rightarrow> passwordDialog \<Rightarrow> passwordDialog" where
  "passwordWindowProc i d =
     (if \<not> pd_open d then d
      else
        (case i of
           PwType s \<Rightarrow> d\<lparr>pd_edit := s\<rparr>
         | PwCommand c \<Rightarrow> if c = idOK then password_accept d else if c = idCancel then password_cancel d else d
         | PwClose \<Rightarrow> password_cancel d))"

definition password_controls :: "(int \<Rightarrow> int) \<Rightarrow> string \<Rightarrow> child list" where
  "password_controls s name =
     [mk_child ''Static'' (''Enter the passphrase for '' @ name @ ''.'') (s 12) (s 12) (s 348) (s 36) 0,
      mk_child ''Edit'' '''' (s 12) (s 52) (s 348) (s 23) idPassEdit,
      mk_child ''Button'' ''OK'' (s 176) (s 92) (s 88) (s 24) (unat idOK),
      mk_child ''Button'' ''Cancel'' (s 272) (s 92) (s 88) (s 24) (unat idCancel)]"

text \<open>\<open>inputs\<close> is what reaches the dialog until its window is gone or the thread is told to quit.\<close>

definition fresh_password :: passwordDialog where
  "fresh_password = \<lparr>pd_edit = '''', pd_ok = False, pd_secret = [], pd_open = True\<rparr>"

definition promptPassphrase ::
  "int \<Rightarrow> u64 result \<Rightarrow> (child \<Rightarrow> goerr option) \<Rightarrow> string \<Rightarrow> password_input list \<Rightarrow> tray_world \<Rightarrow>
   bytes option \<times> passwordDialog \<times> tray_world" where
  "promptPassphrase dpi popup api name inputs w =
     (case popup of
        Inl e \<Rightarrow> (None, fresh_password, emit (TShowFatal ''Passphrase'') w)
      | Inr hwnd \<Rightarrow>
          (case create_children api (password_controls (scale dpi) name) of
             Some e \<Rightarrow> (None, fresh_password, emit (TDestroyWindow hwnd) w)
           | None \<Rightarrow>
               (let d = fold passwordWindowProc inputs fresh_password in
                if \<not> pd_ok d then (None, d\<lparr>pd_secret := clearBytes (pd_secret d)\<rparr>, w) else (Some (pd_secret d), d, w))))"

section \<open>Properties\<close>

text \<open>Adding a key from a file.\<close>

definition added_key :: "key_env \<Rightarrow> string \<Rightarrow> bytes \<Rightarrow> AddedKey" where
  "added_key ke path key =
     \<lparr>add_PrivateKey = key, add_Comment = fp_Base (ke_fp ke) path, add_LifetimeSecs = 0, add_ConfirmBeforeUse = False\<rparr>"

definition key_in_file :: "key_env \<Rightarrow> string \<Rightarrow> (bytes \<times> bool) option \<Rightarrow> world \<Rightarrow> bytes \<Rightarrow> bool" where
  "key_in_file ke path askPass w key \<longleftrightarrow>
     (\<exists>n. w_files w path = Some n \<and>
        (parsePrivateKey (ke_ssh ke) (f_data n) [] = Inr key \<or>
         (\<exists>pass. askPass = Some (pass, True) \<and> parsePrivateKey (ke_ssh ke) (f_data n) pass = Inr key)))"

lemma addKeyFromFile_cases:
  assumes "addKeyFromFile ke (Some agent) path askPass s w = (r, s', w', buf)"
  obtains (refused) e where "r = Some e" "s' = s" "w_files w' = w_files w"
      "EqualFold (fp_Ext (ke_fp ke) path) ''.ppk'' \<longrightarrow> w' = w" "buf = None \<or> (\<exists>p. buf = Some (clearBytes p))"
  | (added) key where "\<not> EqualFold (fp_Ext (ke_fp ke) path) ''.ppk''" "key_in_file ke path askPass w key"
      "apfst err_of (ag_Add agent (added_key ke path key) s) = (r, s')" "w_files w' = w_files w"
      "buf = None \<or> (\<exists>p. buf = Some (clearBytes p))"
proof (cases "EqualFold (fp_Ext (ke_fp ke) path) ''.ppk''")
  case True
  then have "r = Some (ErrNew ''PuTTY .ppk keys are not supported'')" "s' = s" "w' = w" "buf = None"
    using assms by (simp_all add: addKeyFromFile_def)
  then show ?thesis by (intro refused) simp_all
next
  case ppk: False
  obtain rd w1 where rd: "os_ReadFile (ke_os ke) path w = (rd, w1)" by fastforce
  have f1: "w_files w1 = w_files w" using os_ReadFile_files [of "ke_os ke" path w] rd by simp
  show ?thesis
  proof (cases rd)
    case (Inl e)
    then show ?thesis using assms ppk rd f1 by (intro refused [of e]) (auto simp: addKeyFromFile_def)
  next
    case (Inr data)
    then have n: "\<exists>n. w_files w path = Some n \<and> f_data n = data"
      using rd by (auto simp: os_ReadFile_def Let_def split: option.splits)
    note S = assms [unfolded addKeyFromFile_def Let_def, simplified ppk rd Inr]
    show ?thesis
    proof (cases "parsePrivateKey (ke_ssh ke) data []")
      case key: (Inr key)
      then have "key_in_file ke path askPass w key" using n by (auto simp: key_in_file_def)
      moreover have "apfst err_of (ag_Add agent (added_key ke path key) s) = (r, s')" "w' = w1" "buf = None"
        using S key by (auto simp: added_key_def split: prod.splits)
      ultimately show ?thesis using ppk f1 by (intro added [of key]) auto
    next
      case e: (Inl e)
      show ?thesis
      proof (cases "errors_Is e errPassphraseRequired \<and> (\<exists>pass key. askPass = Some (pass, True) \<and> parsePrivateKey (ke_ssh ke) data pass = Inr key)")
        case True
        then obtain pass key where k: "askPass = Some (pass, True)" "parsePrivateKey (ke_ssh ke) data pass = Inr key" by blast
        have "key_in_file ke path askPass w key" using n k by (auto simp: key_in_file_def)
        moreover have "apfst err_of (ag_Add agent (added_key ke path key) s) = (r, s')" "w' = w1" "buf = Some (clearBytes pass)"
          using S e True k by (auto simp: added_key_def split: prod.splits)
        ultimately show ?thesis using ppk f1 by (intro added [of key]) auto
      next
        case False
        then have "\<exists>e. r = Some e \<and> s' = s \<and> w' = w1 \<and> (buf = None \<or> (\<exists>p. buf = Some (clearBytes p)))"
          using S e by (auto split: if_splits option.splits sum.splits prod.splits)
        then show ?thesis using ppk f1 refused by blast
      qed
    qed
  qed
qed

text \<open>C21 (add_key_sound). Adding a key from a file asks the agent for exactly one change, the addition of
  the key parsed from that file (with the passphrase entered, if one was needed) under the file's
  name; a PuTTY key is refused without touching file or agent; any other failure leaves the agent
  alone unless it is the agent's own; no file is changed; and the passphrase buffer is zeroed on every path.\<close>

theorem add_key_sound:
  assumes "addKeyFromFile ke (Some agent) path askPass s w = (r, s', w', buf)"
  shows "w_files w' = w_files w \<and> (\<forall>p. buf = Some p \<longrightarrow> set p \<subseteq> {0}) \<and>
    (EqualFold (fp_Ext (ke_fp ke) path) ''.ppk'' \<longrightarrow> r \<noteq> None \<and> s' = s \<and> w' = w) \<and>
    (r = None \<or> s' \<noteq> s \<longrightarrow> (\<exists>key. key_in_file ke path askPass w key \<and>
       apfst err_of (ag_Add agent (added_key ke path key) s) = (r, s')))"
  using assms
proof (cases rule: addKeyFromFile_cases)
  case (refused e)
  then show ?thesis by (auto simp: clearBytes_def split: if_splits)
next
  case (added key)
  then show ?thesis by (auto simp: clearBytes_def split: if_splits)
qed

definition sample_key_env :: key_env where
  "sample_key_env =
     \<lparr>ke_fp = sample_fp, ke_os = quiet_env,
      ke_ssh = \<lparr>ssh_ParseRaw = (\<lambda>d. Inl PassphraseMissing), ssh_ParseRawWith = (\<lambda>d p. Inr (d @ p)), ssh_Fingerprint = (\<lambda>_. '''')\<rparr>\<rparr>"

theorem add_key_sound_witness:
  "\<exists>w' buf. addKeyFromFile sample_key_env (Some counting_agent) sample_path (Some ([3, 4], True)) 0 sample_world = (None, 1, w', buf) \<and>
    w_files w' = w_files sample_world \<and> buf = Some [0, 0]"
proof -
  have ext: "\<not> EqualFold (fp_Ext (ke_fp sample_key_env) sample_path) ''.ppk''"
    by (simp add: sample_key_env_def sample_fp_def sample_path_def EqualFold_def ToLower_def lower_char_def char_code_def bslash_def)
  have "\<exists>w'. addKeyFromFile sample_key_env (Some counting_agent) sample_path (Some ([3, 4], True)) 0 sample_world =
      (None, 1, w', Some [0, 0])"
    using ext by (simp add: addKeyFromFile_def os_ReadFile_def sample_world_def sample_key_env_def counting_agent_def
        parsePrivateKey_def clearBytes_def Let_def)
  then obtain w' where a: "addKeyFromFile sample_key_env (Some counting_agent) sample_path (Some ([3, 4], True)) 0 sample_world =
      (None, 1, w', Some [0, 0])" by blast
  from add_key_sound [OF a] a show ?thesis by auto
qed

text \<open>
  The lines of the list and the keys beside them.  They correspond as long as every label can be
  encoded, which fails only for a NUL.
\<close>

definition label :: "ssh_ops \<Rightarrow> AgentKey \<Rightarrow> string" where
  "label sh k = formatListedKey sh (Some k)"

definition lines_match :: "ssh_ops \<Rightarrow> keysDialog \<Rightarrow> bool" where
  "lines_match sh d \<longleftrightarrow> kd_lines d = map (label sh) (kd_keys d)"

lemma foldl_listAdd: "foldl listAdd xs ls = xs @ filter (\<lambda>l. CHR 0x00 \<notin> set l) ls"
  by (induction ls arbitrary: xs) (auto simp: listAdd_def UTF16FromString_def)

lemma refresh_lines:
  assumes "keys_refresh sh tw agent d s = (None, d', s')"
  shows "fst (ag_List agent s) = Inr (kd_keys d') \<and> kd_open d' = kd_open d \<and>
    kd_lines d' = filter (\<lambda>l. CHR 0x00 \<notin> set l) (map (label sh) (kd_keys d'))"
  using assms by (auto simp: keys_refresh_def foldl_listAdd Let_def label_def [abs_def] split: prod.splits sum.splits)

text \<open>C22 (keys_remove_selected). While every label in the list can be shown, removing acts on the line selected: the agent is
  asked to remove the key whose label that line shows and nothing else, and after a success the
  list shows what the agent holds then.  With nothing selected the agent is not asked.\<close>

theorem keys_remove_selected:
  assumes "lines_match sh d" and "keys_remove sh tw agent idx d s = (d', s')"
  shows "if 0 \<le> idx \<and> idx < int (length (kd_lines d)) then
      (\<exists>k \<in> set (kd_keys d). label sh k = kd_lines d ! nat idx \<and>
        (case ag_Remove agent (key_of k) s of
           (Inl e, s1) \<Rightarrow> s' = s1 \<and> d' = keys_error ''Remove key'' d
         | (Inr _, s1) \<Rightarrow> s' = snd (ag_List agent s1) \<and>
             (case fst (ag_List agent s1) of
                Inl e \<Rightarrow> d' = keys_error ''Manage keys'' d
              | Inr keys \<Rightarrow> kd_keys d' = keys \<and> kd_lines d' = filter (\<lambda>l. CHR 0x00 \<notin> set l) (map (label sh) keys))))
    else s' = s \<and> d' = keys_error ''Remove key'' d"
proof (cases "0 \<le> idx \<and> idx < int (length (kd_keys d))")
  case True
  let ?k = "kd_keys d ! nat idx"
  have k: "?k \<in> set (kd_keys d)" "label sh ?k = kd_lines d ! nat idx" "length (kd_lines d) = length (kd_keys d)"
    using True assms(1) by (auto simp: lines_match_def nat_less_iff)
  have "case ag_Remove agent (key_of ?k) s of
           (Inl e, s1) \<Rightarrow> s' = s1 \<and> d' = keys_error ''Remove key'' d
         | (Inr _, s1) \<Rightarrow> s' = snd (ag_List agent s1) \<and>
             (case fst (ag_List agent s1) of
                Inl e \<Rightarrow> d' = keys_error ''Manage keys'' d
              | Inr keys \<Rightarrow> kd_keys d' = keys \<and> kd_lines d' = filter (\<lambda>l. CHR 0x00 \<notin> set l) (map (label sh) keys))"
    using assms(2) True
    by (auto simp: keys_remove_def keys_show_def keys_refresh_def foldl_listAdd label_def [abs_def] Let_def
        split: prod.splits sum.splits option.splits)
  then show ?thesis using k True by (intro iffD2 [OF if_P]) auto
next
  case False
  then show ?thesis using assms by (auto simp: keys_remove_def lines_match_def)
qed

definition listing_agent :: "AgentKey list ExtendedAgent" where
  "listing_agent =
     \<lparr>ag_List = (\<lambda>s. (Inr s, s)), ag_SignWithFlags = (\<lambda>_ _ _ s. (Inr [], s)), ag_Sign = (\<lambda>_ _ s. (Inr [], s)),
      ag_Add = (\<lambda>_ s. (Inr (), s)), ag_Remove = (\<lambda>k s. (Inr (), filter (\<lambda>x. key_of x \<noteq> k) s)), ag_RemoveAll = (\<lambda>s. (Inr (), [])),
      ag_Lock = (\<lambda>_ s. (Inr (), s)), ag_Unlock = (\<lambda>_ s. (Inr (), s)), ag_Signers = (\<lambda>s. (Inr [], s)),
      ag_Extension = (\<lambda>_ _ s. (Inr [], s))\<rparr>"

definition plain_ssh :: ssh_ops where
  "plain_ssh = \<lparr>ssh_ParseRaw = (\<lambda>d. Inr d), ssh_ParseRawWith = (\<lambda>d p. Inr d), ssh_Fingerprint = (\<lambda>_. ''f'')\<rparr>"

definition key_a :: AgentKey where "key_a = \<lparr>ak_Format = ''rsa'', ak_Blob = [1], ak_Comment = ''a''\<rparr>"
definition key_b :: AgentKey where "key_b = \<lparr>ak_Format = ''rsa'', ak_Blob = [2], ak_Comment = ''b''\<rparr>"
definition key_nul :: AgentKey where "key_nul = \<lparr>ak_Format = ''rsa'', ak_Blob = [3], ak_Comment = ''x'' @ [CHR 0x00]\<rparr>"

definition shown :: "AgentKey list \<Rightarrow> keysDialog" where
  "shown keys = fst (snd (keys_refresh plain_ssh (\<lambda>_. 0) listing_agent
     \<lparr>kd_open = True, kd_keys = [], kd_lines = [], kd_extent = 0, kd_errors = []\<rparr> keys))"

lemmas shown_defs = shown_def keys_refresh_def listing_agent_def plain_ssh_def key_a_def key_b_def key_nul_def key_of_def
  label_def formatListedKey_def listAdd_def UTF16FromString_def horizontalExtent_def TrimSpace_def isSpace_def char_code_def

theorem keys_remove_selected_witness:
  "\<exists>d'. keys_remove plain_ssh (\<lambda>_. 0) listing_agent 1 (shown [key_a, key_b]) [key_a, key_b] = (d', [key_a]) \<and>
     kd_lines (shown [key_a, key_b]) ! 1 = label plain_ssh key_b \<and> kd_keys d' = [key_a]"
proof -
  have m: "lines_match plain_ssh (shown [key_a, key_b])" by (simp add: lines_match_def shown_defs)
  obtain d' where r: "keys_remove plain_ssh (\<lambda>_. 0) listing_agent 1 (shown [key_a, key_b]) [key_a, key_b] = (d', [key_a])"
    by (simp add: keys_remove_def keys_show_def shown_defs Let_def)
  have "kd_lines (shown [key_a, key_b]) = [label plain_ssh key_a, label plain_ssh key_b]" by (simp add: shown_defs)
  moreover have "kd_keys (shown [key_a, key_b]) = [key_a, key_b]" by (simp add: shown_def keys_refresh_def listing_agent_def)
  ultimately show ?thesis
    using keys_remove_selected [OF m r] r by (auto simp: listing_agent_def key_a_def key_b_def key_of_def label_def formatListedKey_def)
qed

text \<open>(keys_remove_shifted). A label with a NUL, which a key's comment may hold, is dropped from the list while its key
  stays: the lines after it shift, and removing the first line shown removes another key.\<close>

theorem keys_remove_shifted:
  "kd_lines (shown [key_nul, key_b]) ! 0 = label plain_ssh key_b \<and>
   snd (keys_remove plain_ssh (\<lambda>_. 0) listing_agent 0 (shown [key_nul, key_b]) [key_nul, key_b]) = [key_b]"
  by (simp add: keys_remove_def keys_show_def shown_defs Let_def)

text \<open>What the passphrase dialog should return: the contents of the field when OK is pressed.\<close>

fun entered :: "string \<Rightarrow> password_input list \<Rightarrow> bytes option" where
  "entered cur [] = None"
| "entered cur (PwType s # is) = entered s is"
| "entered cur (PwCommand c # is) = (if c = idOK then Some (bytes_of cur) else if c = idCancel then None else entered cur is)"
| "entered cur (PwClose # is) = None"

lemma password_closed: "\<not> pd_open d \<Longrightarrow> fold passwordWindowProc is d = d"
  by (induction "is" arbitrary: d) (simp_all add: passwordWindowProc_def)

lemma password_run:
  "pd_open d \<and> \<not> pd_ok d \<and> pd_secret d = [] \<Longrightarrow>
    case fold passwordWindowProc is d of d' \<Rightarrow>
      (pd_open d' \<or> pd_edit d' = '''') \<and>
      (if pd_ok d' then entered (pd_edit d) is = Some (pd_secret d') \<and> \<not> pd_open d'
       else entered (pd_edit d) is = None \<and> pd_secret d' = [])"
proof (induction "is" arbitrary: d)
  case Nil
  then show ?case by simp
next
  case (Cons i "is")
  have ids: "idCancel \<noteq> idOK" by (simp add: idOK_def idCancel_def)
  show ?case
  proof (cases "pd_open (passwordWindowProc i d)")
    case True
    then have "\<not> pd_ok (passwordWindowProc i d) \<and> pd_secret (passwordWindowProc i d) = [] \<and>
        entered (pd_edit d) (i # is) = entered (pd_edit (passwordWindowProc i d)) is"
      using Cons.prems by (cases i) (auto simp: passwordWindowProc_def password_accept_def password_cancel_def split: if_splits)
    then show ?thesis using Cons.IH [of "passwordWindowProc i d"] True by simp
  next
    case False
    then have f: "fold passwordWindowProc (i # is) d = passwordWindowProc i d" using password_closed by simp
    show ?thesis unfolding f using Cons.prems False ids
      by (cases i) (auto simp: passwordWindowProc_def password_accept_def password_cancel_def split: if_splits)
  qed
qed

text \<open>(passphrase_hygiene). However the passphrase dialog is used, and whatever of it cannot be created, it returns the
  contents of the field when OK was pressed and nothing otherwise; once it was closed its edit
  field is empty; when nothing is returned only zero bytes are kept; and a window that could not be filled is destroyed.\<close>

theorem passphrase_hygiene:
  "case promptPassphrase dpi popup api name inputs w of (r, d, w') \<Rightarrow>
     r = (if isl popup \<or> create_children api (password_controls (scale dpi) name) \<noteq> None then None else entered '''' inputs) \<and>
     (pd_open d \<or> pd_edit d = '''') \<and>
     (if r = None then set (pd_secret d) \<subseteq> {0} else r = Some (pd_secret d) \<and> \<not> pd_open d) \<and>
     (case popup of
        Inl e \<Rightarrow> w' = emit (TShowFatal ''Passphrase'') w
      | Inr hwnd \<Rightarrow>
          w' = (if create_children api (password_controls (scale dpi) name) \<noteq> None then emit (TDestroyWindow hwnd) w else w))"
proof -
  have o: "pd_open fresh_password \<and> \<not> pd_ok fresh_password \<and> pd_secret fresh_password = []" "pd_edit fresh_password = ''''"
    by (simp_all add: fresh_password_def)
  show ?thesis using password_run [OF o(1), of inputs] o
    by (auto simp: promptPassphrase_def clearBytes_def Let_def split: if_splits sum.splits option.splits)
qed

end
