(* ===== verification/Windows_Ui.thy ===== *)
theory Windows_Ui
  imports Keys
begin

text \<open>
  The window helpers of src/internal/tray/dialog\_windows.go that stand between the dialogs and Windows: window
  classes and windows, the messages to controls, measuring text and the file dialog.

  \<^verbatim>\<open>Dialogs\<close> models a control as the value it shows.  Here a control is a state that answers window messages as Windows documents
  them, and the helpers are shown to be what \<^verbatim>\<open>Dialogs\<close> takes them for.
\<close>

section \<open>Controls and their messages\<close>

record control =
  ct_text :: "u16 list"
  ct_check :: u64
  ct_items :: "u16 list list"
  ct_cur :: int
  ct_extent :: int
  ct_font :: u64

datatype wmsg =
    WmSetText "u16 list" | WmGetTextLength | WmGetText nat | WmSetFont u64
  | BmSetCheck u64 | BmGetCheck
  | CbAddString "u16 list" | CbSetCurSel int | CbGetCurSel
  | LbAddString "u16 list" | LbResetContent | LbGetCurSel | LbSetHorizontalExtent int

text \<open>
  What the control answers and becomes; \<^verbatim>\<open>WM_GETTEXT\<close> copies at most one unit less than it is given room for and ends it
  with a zero; selecting an index the box does not have clears the selection.  The text a message
  points to ends at its zero.
\<close>

definition upto_zero :: "u16 list \<Rightarrow> u16 list" where
  "upto_zero us = takeWhile (\<lambda>u. u \<noteq> 0) us"

fun answer :: "wmsg \<Rightarrow> control \<Rightarrow> int \<times> u16 list \<times> control" where
  "answer (WmSetText us) c = (1, [], c\<lparr>ct_text := upto_zero us\<rparr>)"
| "answer WmGetTextLength c = (int (length (ct_text c)), [], c)"
| "answer (WmGetText n) c =
     (if n = 0 then (0, [], c) else (int (length (take (n - 1) (ct_text c))), take (n - 1) (ct_text c) @ [0], c))"
| "answer (WmSetFont f) c = (0, [], c\<lparr>ct_font := f\<rparr>)"
| "answer (BmSetCheck v) c = (0, [], c\<lparr>ct_check := v\<rparr>)"
| "answer BmGetCheck c = (uint (ct_check c), [], c)"
| "answer (CbAddString us) c = (int (length (ct_items c)), [], c\<lparr>ct_items := ct_items c @ [upto_zero us]\<rparr>)"
| "answer (CbSetCurSel i) c =
     (let j = (if 0 \<le> i \<and> i < int (length (ct_items c)) then i else -1) in (j, [], c\<lparr>ct_cur := j\<rparr>))"
| "answer CbGetCurSel c = (ct_cur c, [], c)"
| "answer (LbAddString us) c = (int (length (ct_items c)), [], c\<lparr>ct_items := ct_items c @ [upto_zero us]\<rparr>)"
| "answer LbResetContent c = (0, [], c\<lparr>ct_items := [], ct_cur := -1\<rparr>)"
| "answer LbGetCurSel c = (ct_cur c, [], c)"
| "answer (LbSetHorizontalExtent e) c = (0, [], c\<lparr>ct_extent := e\<rparr>)"

type_synonym controls = "u64 \<rightharpoonup> control"

text \<open>\<^verbatim>\<open>sendMessage.Call\<close>; a window that does not exist answers zero.\<close>

definition sendMessage :: "u64 \<Rightarrow> wmsg \<Rightarrow> controls \<Rightarrow> int \<times> u16 list \<times> controls" where
  "sendMessage hwnd m cs =
     (case cs hwnd of
        None \<Rightarrow> (0, [], cs)
      | Some c \<Rightarrow> (case answer m c of (r, out, c1) \<Rightarrow> (r, out, cs(hwnd \<mapsto> c1))))"

abbreviation "tell hwnd m cs \<equiv> snd (snd (sendMessage hwnd m cs))"

definition setChildFont :: "u64 \<Rightarrow> u64 \<Rightarrow> controls \<Rightarrow> controls" where
  "setChildFont hwnd font cs = (if hwnd \<noteq> 0 \<and> font \<noteq> 0 then tell hwnd (WmSetFont font) cs else cs)"

text \<open>\<^verbatim>\<open>windowText\<close>: the buffer has one unit more than the length; what \<^verbatim>\<open>WM_GETTEXT\<close> leaves untouched of it is zero.\<close>

definition windowText :: "u64 \<Rightarrow> controls \<Rightarrow> string" where
  "windowText hwnd cs =
     (if hwnd = 0 then ''''
      else
        (let n = nat (fst (sendMessage hwnd WmGetTextLength cs));
             out = fst (snd (sendMessage hwnd (WmGetText (n + 1)) cs)) in
         UTF16ToString (go_copy (replicate (n + 1) 0) out)))"

definition win_setWindowText :: "u64 \<Rightarrow> string \<Rightarrow> controls \<Rightarrow> controls" where
  "win_setWindowText hwnd txt cs = (case UTF16FromString txt of None \<Rightarrow> cs | Some p \<Rightarrow> tell hwnd (WmSetText p) cs)"

definition isChecked :: "u64 \<Rightarrow> controls \<Rightarrow> bool" where
  "isChecked hwnd cs \<longleftrightarrow> fst (sendMessage hwnd BmGetCheck cs) = 1"

definition setChecked :: "u64 \<Rightarrow> bool \<Rightarrow> controls \<Rightarrow> controls" where
  "setChecked hwnd checked cs = tell hwnd (BmSetCheck (if checked then 1 else 0)) cs"

definition comboSelect :: "u64 \<Rightarrow> int \<Rightarrow> controls \<Rightarrow> controls" where
  "comboSelect hwnd idx cs = tell hwnd (CbSetCurSel idx) cs"

definition comboIndex :: "u64 \<Rightarrow> controls \<Rightarrow> int" where
  "comboIndex hwnd cs = int32 (fst (sendMessage hwnd CbGetCurSel cs))"

definition comboAdd :: "u64 \<Rightarrow> string \<Rightarrow> controls \<Rightarrow> controls" where
  "comboAdd hwnd txt cs = (case UTF16FromString txt of None \<Rightarrow> cs | Some p \<Rightarrow> tell hwnd (CbAddString p) cs)"

definition win_listAdd :: "u64 \<Rightarrow> string \<Rightarrow> controls \<Rightarrow> controls" where
  "win_listAdd hwnd txt cs = (case UTF16FromString txt of None \<Rightarrow> cs | Some p \<Rightarrow> tell hwnd (LbAddString p) cs)"

definition listReset :: "u64 \<Rightarrow> controls \<Rightarrow> controls" where
  "listReset hwnd cs = tell hwnd (LbSetHorizontalExtent 0) (tell hwnd LbResetContent cs)"

definition listIndex :: "u64 \<Rightarrow> controls \<Rightarrow> int" where
  "listIndex hwnd cs = int32 (fst (sendMessage hwnd LbGetCurSel cs))"

definition listSetHorizontalExtent :: "u64 \<Rightarrow> int \<Rightarrow> controls \<Rightarrow> controls" where
  "listSetHorizontalExtent hwnd extent cs = tell hwnd (LbSetHorizontalExtent extent) cs"

section \<open>Measuring text\<close>

text \<open>
  The device contexts held, and the font selected in each.  \<^verbatim>\<open>SelectObject\<close> gives the font that was selected, or zero and changes nothing
  when it fails.  \<open>gd_extent\<close> is the width of a text in a font.
\<close>

record gdi =
  gs_held :: "u64 list"
  gs_font :: "u64 \<Rightarrow> u64"

record gdi_env =
  gd_getDC :: "u64 \<Rightarrow> u64"
  gd_select_ok :: "u64 \<Rightarrow> u64 \<Rightarrow> bool"
  gd_extent :: "u64 \<Rightarrow> u16 list \<Rightarrow> int"

definition getDC :: "gdi_env \<Rightarrow> u64 \<Rightarrow> gdi \<Rightarrow> u64 \<times> gdi" where
  "getDC ge hwnd g = (let dc = gd_getDC ge hwnd in (dc, if dc = 0 then g else g\<lparr>gs_held := dc # gs_held g\<rparr>))"

definition releaseDC :: "u64 \<Rightarrow> gdi \<Rightarrow> gdi" where
  "releaseDC dc g = g\<lparr>gs_held := remove1 dc (gs_held g)\<rparr>"

definition selectObject :: "gdi_env \<Rightarrow> u64 \<Rightarrow> u64 \<Rightarrow> gdi \<Rightarrow> u64 \<times> gdi" where
  "selectObject ge dc font g =
     (if gd_select_ok ge dc font then (gs_font g dc, g\<lparr>gs_font := (gs_font g)(dc := font)\<rparr>) else (0, g))"

definition measureTextWidth :: "gdi_env \<Rightarrow> u64 \<Rightarrow> u64 \<Rightarrow> string \<Rightarrow> gdi \<Rightarrow> int \<times> gdi" where
  "measureTextWidth ge hwnd font txt g =
     (if txt = '''' then (0, g)
      else
        (case getDC ge hwnd g of (dc, g1) \<Rightarrow>
           if dc = 0 then (0, g1)
           else
             (case (if font \<noteq> 0 then selectObject ge dc font g1 else (0, g1)) of (previous, g2) \<Rightarrow>
                (case UTF16FromString txt of
                   None \<Rightarrow> (0, releaseDC dc g2)
                 | Some encoded \<Rightarrow>
                     (let measured = gd_extent ge (gs_font g2 dc) (take (length encoded - 1) encoded);
                          g3 = (if previous \<noteq> 0 then snd (selectObject ge dc previous g2) else g2) in
                      (measured, releaseDC dc g3))))))"

fun widest_measured :: "gdi_env \<Rightarrow> u64 \<Rightarrow> u64 \<Rightarrow> string list \<Rightarrow> int \<Rightarrow> gdi \<Rightarrow> int \<times> gdi" where
  "widest_measured ge hwnd font [] w g = (w, g)"
| "widest_measured ge hwnd font (i # is) w g =
     (case measureTextWidth ge hwnd font i g of (width, g1) \<Rightarrow>
        widest_measured ge hwnd font is (if width > w then width else w) g1)"

definition listUpdateHorizontalExtent ::
  "gdi_env \<Rightarrow> u64 \<Rightarrow> u64 \<Rightarrow> string list \<Rightarrow> gdi \<Rightarrow> controls \<Rightarrow> gdi \<times> controls" where
  "listUpdateHorizontalExtent ge hwnd font items g cs =
     (case widest_measured ge hwnd font items 0 g of (w, g1) \<Rightarrow>
        (g1, listSetHorizontalExtent hwnd (if w > 0 then int32 (w + 16) else w) cs))"


text \<open>
  \<^verbatim>\<open>refresh\<close> of the key list on its list box: \<open>lb\<close> is the box.  The keys are replaced when they could be read.
\<close>

definition refresh_window ::
  "gdi_env \<Rightarrow> ssh_ops \<Rightarrow> 's ExtendedAgent \<Rightarrow> u64 \<Rightarrow> u64 \<Rightarrow> AgentKey list \<Rightarrow> 's \<Rightarrow> gdi \<Rightarrow> controls \<Rightarrow>
   goerr option \<times> AgentKey list \<times> 's \<times> gdi \<times> controls" where
  "refresh_window ge sh agent lb font keys0 s g cs =
     (case ag_List agent s of
        (Inl e, s1) \<Rightarrow> (Some e, keys0, s1, g, cs)
      | (Inr keys, s1) \<Rightarrow>
          (let labels = map (\<lambda>k. formatListedKey sh (Some k)) keys;
               cs1 = foldl (\<lambda>cs l. win_listAdd lb l cs) (listReset lb cs) labels in
           case listUpdateHorizontalExtent ge lb font labels g cs1 of (g1, cs2) \<Rightarrow> (None, keys, s1, g1, cs2)))"

section \<open>Window classes and windows\<close>

definition wsChild :: u32 where "wsChild = 0x40000000"
definition wsVisible :: u32 where "wsVisible = 0x10000000"
definition wsPopup :: u32 where "wsPopup = 0x80000000"
definition wsClipSiblings :: u32 where "wsClipSiblings = 0x04000000"
definition wsCaption :: u32 where "wsCaption = 0x00C00000"
definition wsSysMenu :: u32 where "wsSysMenu = 0x00080000"
definition wsExDlgModalFrame :: u32 where "wsExDlgModalFrame = 0x00000001"
definition wsExControlParent :: u32 where "wsExControlParent = 0x00010000"
definition wsExWindowEdge :: u32 where "wsExWindowEdge = 0x00000100"
definition cwUseDefault :: int where "cwUseDefault = 0x80000000"
definition errorClassExists :: goerr where "errorClassExists = ErrErrno 1410"
definition errInvalidText :: goerr where "errInvalidText = ErrSentinel ''syscall.EINVAL''"

lemmas window_styles = wsChild_def wsVisible_def wsPopup_def wsClipSiblings_def wsCaption_def wsSysMenu_def
  wsExDlgModalFrame_def wsExControlParent_def wsExWindowEdge_def

record window_class =
  wk_proc :: u64
  wk_cursor :: u64
  wk_background :: u64

record window =
  wn_class :: "u16 list"
  wn_title :: "u16 list option"
  wn_style :: u32
  wn_ex :: u32
  wn_x :: int
  wn_y :: int
  wn_width :: int
  wn_height :: int
  wn_owner :: u64
  wn_id :: u64

text \<open>
  What Windows holds: the registered classes and the windows made.  \<open>wv_registerErr\<close> and \<open>wv_create\<close> say whether
  \<^verbatim>\<open>RegisterClassExW\<close> (of a new class) and \<^verbatim>\<open>CreateWindowExW\<close> succeed; a class that is registered is refused with
  \<^verbatim>\<open>ERROR\_CLASS\_ALREADY\_EXISTS\<close>.  \<open>wv_adjust\<close> is the frame around a client area.
\<close>

record desktop =
  dk_classes :: "u16 list \<rightharpoonup> window_class"
  dk_windows :: "(u64 \<times> window) list"

record window_env =
  wv_module :: u64
  wv_moduleErr :: "goerr option"
  wv_cursor :: u64
  wv_registerErr :: "u16 list \<Rightarrow> goerr option option"
  wv_create :: "window \<Rightarrow> u64"
  wv_createErr :: "goerr option"
  wv_adjust :: "u32 \<Rightarrow> u32 \<Rightarrow> rect \<Rightarrow> rect"

definition registerClassEx :: "window_env \<Rightarrow> u16 list \<Rightarrow> window_class \<Rightarrow> desktop \<Rightarrow> goerr option option \<times> desktop" where
  "registerClassEx wv cls k d =
     (if dk_classes d cls \<noteq> None then (Some (Some errorClassExists), d)
      else
        (case wv_registerErr wv cls of
           Some e \<Rightarrow> (Some e, d)
         | None \<Rightarrow> (None, d\<lparr>dk_classes := (dk_classes d)(cls \<mapsto> k)\<rparr>)))"

definition createWindowEx :: "window_env \<Rightarrow> window \<Rightarrow> desktop \<Rightarrow> u64 \<times> desktop" where
  "createWindowEx wv n d =
     (let hwnd = wv_create wv n in (hwnd, if hwnd = 0 then d else d\<lparr>dk_windows := dk_windows d @ [(hwnd, n)]\<rparr>))"

definition registerDialogClass :: "window_env \<Rightarrow> string \<Rightarrow> u64 \<Rightarrow> desktop \<Rightarrow> goerr option \<times> desktop" where
  "registerDialogClass wv name proc d =
     (if wv_module wv = 0 then (Some (winErr (wv_moduleErr wv)), d)
      else
        (case UTF16FromString name of
           None \<Rightarrow> (Some errInvalidText, d)
         | Some cls \<Rightarrow>
             (case registerClassEx wv (upto_zero cls) \<lparr>wk_proc = proc, wk_cursor = wv_cursor wv, wk_background = 15 + 1\<rparr> d of
                (None, d1) \<Rightarrow> (None, d1)
              | (Some callErr, d1) \<Rightarrow>
                  (if callErr = Some errorClassExists then None else Some (winErr callErr), d1))))"

definition createPopup ::
  "window_env \<Rightarrow> string \<Rightarrow> string \<Rightarrow> int \<Rightarrow> int \<Rightarrow> u64 \<Rightarrow> u64 \<Rightarrow> desktop \<Rightarrow> u64 result \<times> desktop" where
  "createPopup wv cls title width height owner proc d =
     (case registerDialogClass wv cls proc d of
        (Some e, d1) \<Rightarrow> (Inl e, d1)
      | (None, d1) \<Rightarrow>
          if wv_module wv = 0 then (Inl (winErr (wv_moduleErr wv)), d1)
          else
            (case (UTF16FromString cls, UTF16FromString title) of
               (None, _) \<Rightarrow> (Inl errInvalidText, d1)
             | (Some _, None) \<Rightarrow> (Inl errInvalidText, d1)
             | (Some classPtr, Some titlePtr) \<Rightarrow>
                 (let style = wsPopup OR wsCaption OR wsSysMenu OR wsClipSiblings;
                      ex = wsExDlgModalFrame OR wsExControlParent OR wsExWindowEdge;
                      area = wv_adjust wv style ex \<lparr>rc_Left = 0, rc_Top = 0, rc_Right = width, rc_Bottom = height\<rparr> in
                  case createWindowEx wv
                    \<lparr>wn_class = upto_zero classPtr, wn_title = Some (upto_zero titlePtr), wn_style = style, wn_ex = ex,
                     wn_x = cwUseDefault, wn_y = cwUseDefault, wn_width = int32 (rc_Right area - rc_Left area),
                     wn_height = int32 (rc_Bottom area - rc_Top area), wn_owner = owner, wn_id = 0\<rparr> d1 of
                    (hwnd, d2) \<Rightarrow> if hwnd = 0 then (Inl (winErr (wv_createErr wv)), d2) else (Inr hwnd, d2))))"

text \<open>\<^verbatim>\<open>newMetrics\<close>: the resolution and the handle of the default font.\<close>

definition newMetrics :: "u64 option \<Rightarrow> u64 \<Rightarrow> int \<times> u64" where
  "newMetrics dpi font = (systemDPI dpi, font)"

text \<open>\<^verbatim>\<open>createChild\<close>: an empty title is a null pointer.\<close>

definition createChild ::
  "window_env \<Rightarrow> string \<Rightarrow> string \<Rightarrow> u32 \<Rightarrow> u32 \<Rightarrow> int \<Rightarrow> int \<Rightarrow> int \<Rightarrow> int \<Rightarrow> u64 \<Rightarrow> u64 \<Rightarrow> desktop \<Rightarrow> u64 result \<times> desktop" where
  "createChild wv cls title style ex x y w h parent cid d =
     (if wv_module wv = 0 then (Inl (winErr (wv_moduleErr wv)), d)
      else
        (case UTF16FromString cls of
           None \<Rightarrow> (Inl errInvalidText, d)
         | Some classPtr \<Rightarrow>
             (case (if title = '''' then Some None else map_option Some (UTF16FromString title)) of
                None \<Rightarrow> (Inl errInvalidText, d)
              | Some titlePtr \<Rightarrow>
                  (case createWindowEx wv
                     \<lparr>wn_class = upto_zero classPtr, wn_title = map_option upto_zero titlePtr,
                      wn_style = style OR wsChild OR wsVisible, wn_ex = ex, wn_x = x, wn_y = y, wn_width = w, wn_height = h,
                      wn_owner = parent, wn_id = cid\<rparr> d of
                     (hwnd, d2) \<Rightarrow> if hwnd = 0 then (Inl (winErr (wv_createErr wv)), d2) else (Inr hwnd, d2)))))"

text \<open>
  \<^verbatim>\<open>settingsDialog.child\<close> (\<^verbatim>\<open>keysDialog.child\<close> is the same): the window becomes a control showing its title, in the dialog's font.
\<close>

definition new_control :: "u16 list option \<Rightarrow> control" where
  "new_control title =
     \<lparr>ct_text = (case title of None \<Rightarrow> [] | Some us \<Rightarrow> upto_zero us), ct_check = 0, ct_items = [], ct_cur = -1, ct_extent = 0, ct_font = 0\<rparr>"

definition dialog_child ::
  "window_env \<Rightarrow> u64 \<Rightarrow> u64 \<Rightarrow> string \<Rightarrow> string \<Rightarrow> u32 \<Rightarrow> u32 \<Rightarrow> int \<Rightarrow> int \<Rightarrow> int \<Rightarrow> int \<Rightarrow> u64 \<Rightarrow>
   desktop \<times> controls \<Rightarrow> u64 result \<times> desktop \<times> controls" where
  "dialog_child wv parent font cls title style ex x y w h cid = (\<lambda>(d, cs).
     case createChild wv cls title style ex x y w h parent cid d of
       (Inl e, d1) \<Rightarrow> (Inl e, d1, cs)
     | (Inr hwnd, d1) \<Rightarrow>
         (Inr hwnd, d1, setChildFont hwnd font (cs(hwnd \<mapsto> new_control (if title = '''' then None else UTF16FromString title)))))"

text \<open>\<^verbatim>\<open>close\<close> of a dialog: its window is destroyed if there is one.\<close>

definition settings_close :: "u64 \<Rightarrow> tray_world \<Rightarrow> tray_world" where
  "settings_close hwnd w = (if hwnd \<noteq> 0 then emit (TDestroyWindow hwnd) w else w)"

section \<open>Message boxes and the file dialog\<close>

text \<open>A message box is its owner and the pointers to its text and title: \<open>None\<close> is a null pointer.\<close>

type_synonym message_box = "u64 \<times> u16 list option \<times> u16 list option"

definition showError :: "u64 \<Rightarrow> string \<Rightarrow> goerr option \<Rightarrow> message_box list" where
  "showError owner title err =
     (case err of None \<Rightarrow> [] | Some e \<Rightarrow> [(owner, UTF16FromString (err_text e), UTF16FromString title)])"

definition ShowFatal :: "string \<Rightarrow> goerr \<Rightarrow> message_box" where
  "ShowFatal title e = (0, UTF16FromString (err_text e), UTF16FromString title)"

definition ofnExplorer :: u32 where "ofnExplorer = 0x00080000"
definition ofnFileMustExist :: u32 where "ofnFileMustExist = 0x00001000"
definition ofnPathMustExist :: u32 where "ofnPathMustExist = 0x00000800"
definition ofnHideReadOnly :: u32 where "ofnHideReadOnly = 0x00000004"
definition ofnNoChangeDir :: u32 where "ofnNoChangeDir = 0x00000008"
definition maxPathWide :: nat where "maxPathWide = 32768"

record openFileNameW =
  of_Owner :: u64
  of_Filter :: "u16 list"
  of_File :: "u16 list"
  of_MaxFile :: nat
  of_InitialDir :: "u16 list option"
  of_Title :: "u16 list option"
  of_Flags :: u32

text \<open>
  \<^verbatim>\<open>pickOpenFile\<close>: \<open>dialog\<close> is \<^verbatim>\<open>GetOpenFileNameW\<close>, which gives zero when the user cancels, and what it leaves in the buffer.
  \<^verbatim>\<open>copyUTF16\<close> does not fail: the buffer is not empty.
\<close>

definition ofn_of :: "u64 \<Rightarrow> string \<Rightarrow> string \<Rightarrow> string \<Rightarrow> string list \<Rightarrow> bool \<Rightarrow> openFileNameW" where
  "ofn_of owner title initialDir initialFile filters mustExist =
     (let buf0 = replicate maxPathWide 0;
          buf = (if initialFile \<noteq> '''' then (case copyUTF16 buf0 initialFile of None \<Rightarrow> buf0 | Some b \<Rightarrow> b) else buf0);
          flags = ofnExplorer OR ofnHideReadOnly OR ofnNoChangeDir OR ofnPathMustExist in
      \<lparr>of_Owner = owner, of_Filter = utf16Filter filters, of_File = buf, of_MaxFile = length buf,
       of_InitialDir = (if initialDir \<noteq> '''' then UTF16FromString initialDir else None),
       of_Title = (if title \<noteq> '''' then UTF16FromString title else None),
       of_Flags = (if mustExist then flags OR ofnFileMustExist else flags)\<rparr>)"

definition pickOpenFile ::
  "(openFileNameW \<Rightarrow> u64 \<times> u16 list) \<Rightarrow> u64 \<Rightarrow> string \<Rightarrow> string \<Rightarrow> string \<Rightarrow> string list \<Rightarrow> bool \<Rightarrow> string \<times> bool" where
  "pickOpenFile dialog owner title initialDir initialFile filters mustExist =
     (case dialog (ofn_of owner title initialDir initialFile filters mustExist) of
        (res, buf) \<Rightarrow> if res = 0 then ('''', False) else (UTF16ToString buf, True))"


section \<open>Lemmas: controls\<close>

lemma tell_at: "cs hwnd = Some c \<Longrightarrow> tell hwnd m cs = cs(hwnd \<mapsto> snd (snd (answer m c)))"
  by (simp add: sendMessage_def split: prod.splits)

lemma tell_none: "cs hwnd = None \<Longrightarrow> tell hwnd m cs = cs"
  by (simp add: sendMessage_def)

lemma asked_at: "cs hwnd = Some c \<Longrightarrow> fst (sendMessage hwnd m cs) = fst (answer m c)"
  by (simp add: sendMessage_def split: prod.splits)

lemma tell_other [simp]: "h \<noteq> hwnd \<Longrightarrow> tell hwnd m cs h = cs h"
  by (simp add: sendMessage_def split: option.splits prod.splits)

lemma tell_dom [simp]: "dom (tell hwnd m cs) = dom cs"
  by (auto simp: sendMessage_def split: option.splits prod.splits)

lemma upto_zero_units: "UTF16FromString s = Some p \<Longrightarrow> upto_zero p = map (\<lambda>c. of_nat (of_char c)) s"
  using units_takeWhile [of s "[]"] by (auto simp: upto_zero_def UTF16FromString_Some_iff)

text \<open>What a control holds, read as \<^verbatim>\<open>windowText\<close> reads it.\<close>

lemma windowText_at:
  assumes "hwnd \<noteq> 0" and "cs hwnd = Some c"
  shows "windowText hwnd cs = UTF16ToString (ct_text c @ [0])"
proof -
  have "fst (snd (sendMessage hwnd (WmGetText (length (ct_text c) + 1)) cs)) = ct_text c @ [0]"
    using assms(2) by (simp add: sendMessage_def)
  then show ?thesis
    using assms by (simp add: windowText_def asked_at Let_def go_copy_def)
qed

lemma windowText_set:
  assumes "hwnd \<noteq> 0" and "hwnd \<in> dom cs"
  shows "windowText hwnd (win_setWindowText hwnd new cs) = setWindowText (windowText hwnd cs) new"
proof -
  obtain c where c: "cs hwnd = Some c" using assms(2) by blast
  show ?thesis
  proof (cases "UTF16FromString new")
    case None
    then show ?thesis by (simp add: win_setWindowText_def setWindowText_def)
  next
    case (Some p)
    have n: "CHR 0x00 \<notin> set new" using Some by (simp add: UTF16FromString_Some_iff)
    have "win_setWindowText hwnd new cs hwnd = Some (c\<lparr>ct_text := map (\<lambda>x. of_nat (of_char x)) new\<rparr>)"
      using Some by (simp add: win_setWindowText_def tell_at [of cs hwnd c, OF c] upto_zero_units)
    from windowText_at [of hwnd "win_setWindowText hwnd new cs", OF assms(1) this] show ?thesis
      using UTF16ToString_units [OF n, of "[]"] Some by (simp add: setWindowText_def)
  qed
qed

lemma isChecked_set: "hwnd \<in> dom cs \<Longrightarrow> isChecked hwnd (setChecked hwnd b cs) = b"
  by (auto simp: isChecked_def setChecked_def sendMessage_def)

definition combo_size :: "u64 \<Rightarrow> controls \<Rightarrow> nat" where
  "combo_size hwnd cs = (case cs hwnd of None \<Rightarrow> 0 | Some c \<Rightarrow> length (ct_items c))"

lemma comboIndex_select:
  assumes "hwnd \<in> dom cs" and "int (combo_size hwnd cs) < 2 ^ 31"
  shows "comboIndex hwnd (comboSelect hwnd i cs) = (if 0 \<le> i \<and> i < int (combo_size hwnd cs) then i else -1)"
proof -
  obtain c where c: "cs hwnd = Some c" using assms(1) by blast
  have "int32 (if 0 \<le> i \<and> i < int (length (ct_items c)) then i else -1) =
      (if 0 \<le> i \<and> i < int (length (ct_items c)) then i else -1)"
    using assms(2) c by (intro int32_id) (auto simp: combo_size_def)
  then show ?thesis
    using c by (simp add: comboIndex_def comboSelect_def sendMessage_def combo_size_def Let_def)
qed

text \<open>The lines of a list box as the text they show.\<close>

definition list_lines :: "u64 \<Rightarrow> controls \<Rightarrow> string list" where
  "list_lines hwnd cs = (case cs hwnd of None \<Rightarrow> [] | Some c \<Rightarrow> map (\<lambda>us. UTF16ToString (us @ [0])) (ct_items c))"

lemma list_lines_add: "hwnd \<in> dom cs \<Longrightarrow> list_lines hwnd (win_listAdd hwnd s cs) = listAdd (list_lines hwnd cs) s"
proof -
  assume "hwnd \<in> dom cs"
  then obtain c where c: "cs hwnd = Some c" by blast
  show ?thesis
  proof (cases "UTF16FromString s")
    case None
    then show ?thesis by (simp add: win_listAdd_def listAdd_def)
  next
    case (Some p)
    then have "CHR 0x00 \<notin> set s" by (simp add: UTF16FromString_Some_iff)
    from UTF16ToString_units [OF this, of "[]"] show ?thesis
      using Some c by (simp add: win_listAdd_def listAdd_def list_lines_def tell_at upto_zero_units)
  qed
qed

lemma win_listAdd_dom [simp]: "dom (win_listAdd hwnd s cs) = dom cs"
  by (simp add: win_listAdd_def split: option.splits)

lemma list_lines_fold:
  "hwnd \<in> dom cs \<Longrightarrow>
   list_lines hwnd (foldl (\<lambda>cs s. win_listAdd hwnd s cs) cs labels) = foldl listAdd (list_lines hwnd cs) labels"
  by (induction labels arbitrary: cs) (simp_all add: list_lines_add)

lemma list_lines_reset: "list_lines hwnd (listReset hwnd cs) = []"
  by (simp add: list_lines_def listReset_def sendMessage_def split: option.splits)

lemma listReset_dom [simp]: "dom (listReset hwnd cs) = dom cs"
  by (simp add: listReset_def)


section \<open>Lemmas: measuring\<close>

text \<open>The width \<^verbatim>\<open>measureTextWidth\<close> gives, as a function of the text.\<close>

definition measuring_font :: "gdi_env \<Rightarrow> u64 \<Rightarrow> u64 \<Rightarrow> gdi \<Rightarrow> u64" where
  "measuring_font ge dc font g = (if font \<noteq> 0 \<and> gd_select_ok ge dc font then font else gs_font g dc)"

definition text_width :: "gdi_env \<Rightarrow> u64 \<Rightarrow> u64 \<Rightarrow> gdi \<Rightarrow> string \<Rightarrow> int" where
  "text_width ge hwnd font g txt =
     (if txt = '''' \<or> gd_getDC ge hwnd = 0 \<or> List.member txt (CHR 0x00) then 0
      else gd_extent ge (measuring_font ge (gd_getDC ge hwnd) font g) (map (\<lambda>c. of_nat (of_char c)) txt))"

lemmas measure_defs = measureTextWidth_def getDC_def releaseDC_def selectObject_def measuring_font_def text_width_def
  Let_def UTF16FromString_def

lemma measure_width: "fst (measureTextWidth ge hwnd font txt g) = text_width ge hwnd font g txt"
  by (auto simp: measure_defs)

lemma measure_held [simp]: "gs_held (snd (measureTextWidth ge hwnd font txt g)) = gs_held g"
  by (auto simp: measure_defs)

lemma measure_font_kept:
  "measuring_font ge dc font (snd (measureTextWidth ge hwnd font txt g)) = measuring_font ge dc font g"
  by (auto simp: measure_defs)

lemma measure_other_dc:
  "dc \<noteq> gd_getDC ge hwnd \<Longrightarrow> gs_font (snd (measureTextWidth ge hwnd font txt g)) dc = gs_font g dc"
  by (auto simp: measure_defs)

lemma text_width_kept:
  "text_width ge hwnd font (snd (measureTextWidth ge hwnd font txt g)) = text_width ge hwnd font g"
  by (rule ext) (simp add: text_width_def measure_font_kept)

lemma widest_measured_eq:
  "fst (widest_measured ge hwnd font is w g) = widest (text_width ge hwnd font g) is w"
proof (induction "is" arbitrary: w g)
  case (Cons i "is")
  obtain v g1 where m: "measureTextWidth ge hwnd font i g = (v, g1)" by fastforce
  have "v = text_width ge hwnd font g i" and "text_width ge hwnd font g1 = text_width ge hwnd font g"
    using measure_width [of ge hwnd font i g] text_width_kept [of ge hwnd font i g] by (simp_all add: m)
  then show ?case by (simp add: m Cons.IH)
qed simp

lemma widest_measured_held [simp]: "gs_held (snd (widest_measured ge hwnd font is w g)) = gs_held g"
proof (induction "is" arbitrary: w g)
  case (Cons i "is")
  obtain v g1 where m: "measureTextWidth ge hwnd font i g = (v, g1)" by fastforce
  then have "gs_held g1 = gs_held g" using measure_held [of ge hwnd font i g] by simp
  then show ?case by (simp add: m Cons.IH)
qed simp

definition list_extent :: "u64 \<Rightarrow> controls \<Rightarrow> int" where
  "list_extent hwnd cs = (case cs hwnd of None \<Rightarrow> 0 | Some c \<Rightarrow> ct_extent c)"

lemma extent_shown:
  assumes "hwnd \<in> dom cs"
  shows "list_extent hwnd (snd (listUpdateHorizontalExtent ge hwnd font items g cs)) =
      horizontalExtent (text_width ge hwnd font g) items"
    and "list_lines hwnd (snd (listUpdateHorizontalExtent ge hwnd font items g cs)) = list_lines hwnd cs"
    and "gs_held (fst (listUpdateHorizontalExtent ge hwnd font items g cs)) = gs_held g"
proof -
  obtain w g1 where w: "widest_measured ge hwnd font items 0 g = (w, g1)" by fastforce
  have "w = widest (text_width ge hwnd font g) items 0" "gs_held g1 = gs_held g"
    using widest_measured_eq [of ge hwnd font items 0 g] widest_measured_held [of ge hwnd font items 0 g] w by simp_all
  moreover obtain c where "cs hwnd = Some c" using assms by blast
  ultimately show "list_extent hwnd (snd (listUpdateHorizontalExtent ge hwnd font items g cs)) =
      horizontalExtent (text_width ge hwnd font g) items"
    and "list_lines hwnd (snd (listUpdateHorizontalExtent ge hwnd font items g cs)) = list_lines hwnd cs"
    and "gs_held (fst (listUpdateHorizontalExtent ge hwnd font items g cs)) = gs_held g"
    by (auto simp: listUpdateHorizontalExtent_def w list_extent_def list_lines_def listSetHorizontalExtent_def tell_at
        horizontalExtent_def Let_def)
qed

section \<open>Lemmas: the file dialog\<close>

lemma ofn_buffer:
  "length (of_File (ofn_of owner title dir name fs must)) = maxPathWide"
  "of_MaxFile (ofn_of owner title dir name fs must) = maxPathWide"
  "last (of_File (ofn_of owner title dir name fs must)) = 0"
  "length name < maxPathWide \<Longrightarrow> CHR 0x00 \<notin> set name \<Longrightarrow> UTF16ToString (of_File (ofn_of owner title dir name fs must)) = name"
proof -
  have n: "0 < maxPathWide" by (simp add: maxPathWide_def)
  then obtain out where out: "copyUTF16 (replicate maxPathWide 0) name = Some out" "length out = maxPathWide" "last out = 0"
      "length name < maxPathWide \<Longrightarrow> CHR 0x00 \<notin> set name \<Longrightarrow> UTF16ToString out = name"
    using copyUTF16_terminated [of "replicate maxPathWide 0" name] by auto
  have e: "UTF16ToString (replicate maxPathWide 0) = ''''" using n by (cases maxPathWide) (simp_all add: UTF16ToString_def)
  have f: "of_File (ofn_of owner title dir name fs must) = (if name = '''' then replicate maxPathWide 0 else out)"
    by (simp add: ofn_of_def Let_def out)
  show "length (of_File (ofn_of owner title dir name fs must)) = maxPathWide" using f out by simp
  then show "of_MaxFile (ofn_of owner title dir name fs must) = maxPathWide" by (simp add: ofn_of_def Let_def)
  show "last (of_File (ofn_of owner title dir name fs must)) = 0" using f out n by simp
  show "UTF16ToString (of_File (ofn_of owner title dir name fs must)) = name"
    if "length name < maxPathWide" "CHR 0x00 \<notin> set name" using f out(4) that e by auto
qed


text \<open>The strings of a list in which each ends with a zero and an empty one ends the list, as the file dialog reads its filter.\<close>

function multi_strings :: "u16 list \<Rightarrow> string list" where
  "multi_strings us =
     (let h = upto_zero us in
      if h = [] then [] else map (\<lambda>u. char_of (unat u)) h # multi_strings (drop (length h + 1) us))"
  by pat_completeness auto
termination
proof (relation "measure length")
  fix us :: "u16 list" and h
  assume "h = upto_zero us" "h \<noteq> []"
  then have "us \<noteq> []" by (auto simp: upto_zero_def)
  then show "(drop (length h + 1) us, us) \<in> measure length" by (cases us) auto
qed simp

declare multi_strings.simps [simp del]

lemma multi_strings_cons:
  assumes "p \<noteq> ''''" and "CHR 0x00 \<notin> set p"
  shows "multi_strings (map (\<lambda>c. of_nat (of_char c)) p @ 0 # rest) = p # multi_strings rest"
proof -
  have u: "upto_zero (map (\<lambda>c. of_nat (of_char c)) p @ 0 # rest) = map (\<lambda>c. of_nat (of_char c)) p"
    using units_takeWhile [OF assms(2)] by (simp add: upto_zero_def)
  show ?thesis
    by (subst multi_strings.simps) (use assms(1) in \<open>simp add: u Let_def unit_of_char o_def\<close>)
qed

lemma multi_strings_filter:
  assumes "\<forall>p \<in> set parts. p \<noteq> '''' \<and> CHR 0x00 \<notin> set p"
  shows "multi_strings (utf16Filter parts) = parts"
  using assms
proof (induction parts)
  case Nil
  then show ?case by (subst multi_strings.simps) (simp add: utf16Filter_def upto_zero_def)
next
  case (Cons p ps)
  have "UTF16FromString p = Some (map (\<lambda>c. of_nat (of_char c)) p @ [0])"
    using Cons.prems by (simp add: UTF16FromString_Some_iff)
  then have "utf16Filter (p # ps) = map (\<lambda>c. of_nat (of_char c)) p @ 0 # utf16Filter ps"
    by (simp add: utf16Filter_def)
  moreover have "p \<noteq> ''''" "CHR 0x00 \<notin> set p" "multi_strings (utf16Filter ps) = ps" using Cons by auto
  ultimately show ?case by (simp add: multi_strings_cons)
qed

lemma pickOpenFile_chosen:
  assumes "CHR 0x00 \<notin> set path"
    and "dialog (ofn_of owner title dir name fs must) = (r, map (\<lambda>c. of_nat (of_char c)) path @ 0 # rest)" and "r \<noteq> 0"
  shows "pickOpenFile dialog owner title dir name fs must = (path, True)"
  using assms by (simp add: pickOpenFile_def UTF16ToString_units)

lemma ofn_must_exist: "of_Flags (ofn_of owner title dir name fs must) AND ofnFileMustExist \<noteq> 0 \<longleftrightarrow> must"
  by (simp add: ofn_of_def Let_def ofnExplorer_def ofnFileMustExist_def ofnPathMustExist_def ofnHideReadOnly_def
      ofnNoChangeDir_def)

section \<open>Lemmas: windows\<close>

lemma registerDialogClass_ok:
  assumes "registerDialogClass wv name proc d = (None, d1)"
  obtains cls where "UTF16FromString name = Some cls" and "wv_module wv \<noteq> 0" and "dk_windows d1 = dk_windows d"
    and "case dk_classes d (upto_zero cls) of
           Some k \<Rightarrow> d1 = d
         | None \<Rightarrow> d1 = d\<lparr>dk_classes := (dk_classes d)(upto_zero cls \<mapsto>
                     \<lparr>wk_proc = proc, wk_cursor = wv_cursor wv, wk_background = 16\<rparr>)\<rparr>
             \<or> d1 = d \<and> wv_registerErr wv (upto_zero cls) = Some (Some errorClassExists)"
  using assms by (auto simp: registerDialogClass_def registerClassEx_def split: if_splits option.splits intro: that)

lemma registerDialogClass_windows: "dk_windows (snd (registerDialogClass wv name proc d)) = dk_windows d"
  by (auto simp: registerDialogClass_def registerClassEx_def split: if_splits option.splits)

lemma createPopup_failed: "fst (createPopup wv cls title w h owner proc d) = Inl e \<Longrightarrow>
  dk_windows (snd (createPopup wv cls title w h owner proc d)) = dk_windows d"
  using registerDialogClass_windows [of wv cls proc d]
  by (auto simp: createPopup_def createWindowEx_def Let_def split: prod.splits option.splits if_splits)

lemma createChild_failed: "fst (createChild wv cls title style ex x y w h p i d) = Inl e \<Longrightarrow>
  snd (createChild wv cls title style ex x y w h p i d) = d"
  by (auto simp: createChild_def createWindowEx_def Let_def split: prod.splits option.splits if_splits)

lemma createChild_made:
  assumes "createChild wv cls title style ex x y w h p i d = (Inr hwnd, d1)"
  shows "hwnd \<noteq> 0 \<and> (\<exists>n. dk_windows d1 = dk_windows d @ [(hwnd, n)] \<and> wn_owner n = p \<and> wn_id n = i \<and>
    wn_style n AND wsChild \<noteq> 0 \<and> wn_style n AND wsVisible \<noteq> 0)"
proof -
  have "(style OR wsChild OR wsVisible) AND wsChild = wsChild" "(style OR wsChild OR wsVisible) AND wsVisible = wsVisible"
    by (simp_all add: bit.conj_disj_distrib2 window_styles)
  then show ?thesis
    using assms by (auto simp: createChild_def createWindowEx_def Let_def window_styles split: prod.splits option.splits if_splits)
qed


lemma dialog_child_shows:
  assumes "dialog_child wv parent font cls title style ex x y w h cid (d, cs) = (Inr hwnd, d1, cs1)"
  shows "windowText hwnd cs1 = title \<and> (\<forall>k. k \<noteq> hwnd \<longrightarrow> cs1 k = cs k) \<and> (font \<noteq> 0 \<longrightarrow> map_option ct_font (cs1 hwnd) = Some font)"
proof -
  obtain d2 where c: "createChild wv cls title style ex x y w h parent cid d = (Inr hwnd, d2)"
      and cs1: "cs1 = setChildFont hwnd font (cs(hwnd \<mapsto> new_control (if title = '''' then None else UTF16FromString title)))"
    using assms by (auto simp: dialog_child_def split: prod.splits sum.splits)
  have h: "hwnd \<noteq> 0" using createChild_made [OF c] by simp
  have n: "title = '''' \<or> CHR 0x00 \<notin> set title"
    using c by (auto simp: createChild_def UTF16FromString_None_iff [symmetric] split: if_splits option.splits)
  let ?c = "new_control (if title = '''' then None else UTF16FromString title)"
  have at: "cs1 hwnd = Some (if font \<noteq> 0 then ?c\<lparr>ct_font := font\<rparr> else ?c)"
    using h by (simp add: cs1 setChildFont_def tell_at)
  have "ct_text ?c = map (\<lambda>c. of_nat (of_char c)) title"
    using n units_takeWhile [of title "[]"] by (auto simp: new_control_def UTF16FromString_def upto_zero_def)
  then have "windowText hwnd cs1 = UTF16ToString (map (\<lambda>c. of_nat (of_char c)) title @ [0])"
    using windowText_at [of hwnd cs1, OF h at] by simp
  moreover have "UTF16ToString (map (\<lambda>c. of_nat (of_char c)) title @ [0]) = title"
    using n UTF16ToString_units [of title "[]"] by (auto simp: UTF16ToString_def)
  moreover have "\<forall>k. k \<noteq> hwnd \<longrightarrow> cs1 k = cs k" by (simp add: cs1 setChildFont_def)
  ultimately show ?thesis using at by simp
qed

section \<open>Properties\<close>


definition sample_control :: control where
  "sample_control = \<lparr>ct_text = [], ct_check = 0, ct_items = [], ct_cur = -1, ct_extent = 0, ct_font = 0\<rparr>"

definition sample_gdi_env :: gdi_env where
  "sample_gdi_env = \<lparr>gd_getDC = (\<lambda>_. 9), gd_select_ok = (\<lambda>_ _. True), gd_extent = (\<lambda>f us. 7 * int (length us))\<rparr>"

definition sample_gdi :: gdi where "sample_gdi = \<lparr>gs_held = [], gs_font = (\<lambda>_. 13)\<rparr>"


text \<open>(measure_balanced). Measuring a text leaves Windows' drawing state as it found it: the device context is released, and the font
  that was selected is selected again, for every text that can be encoded, given that Windows selects it back; and no other device
  context is touched.\<close>

theorem measure_balanced:
  assumes "List.member txt (CHR 0x00) \<longrightarrow> font = 0"
    and "gs_font g (gd_getDC ge hwnd) \<noteq> 0" and "gd_select_ok ge (gd_getDC ge hwnd) (gs_font g (gd_getDC ge hwnd))"
  shows "snd (measureTextWidth ge hwnd font txt g) = g"
  using assms by (auto simp: measure_defs)

theorem measure_balanced_witness: "snd (measureTextWidth sample_gdi_env 5 17 ''abc'' sample_gdi) = sample_gdi"
  by (rule measure_balanced) (simp_all add: sample_gdi_env_def sample_gdi_def)

text \<open>A text with a NUL, which a key's comment may hold, leaves the dialog's font selected.\<close>

lemma measure_unbalanced:
  "gs_font (snd (measureTextWidth sample_gdi_env 5 17 [CHR 0x00] sample_gdi)) 9 = 17 \<and> gs_font sample_gdi 9 = 13"
  by (simp add: measure_defs sample_gdi_env_def sample_gdi_def)

text \<open>(file_dialog). The file dialog is given a buffer of exactly the size it is told, ended by a zero and showing the suggested name,
  a filter that reads as the strings passed (none empty), and the flag that the file must exist exactly
  when asked; the path it leaves in the buffer is returned as it is, and cancelling returns no path.\<close>

theorem file_dialog:
  assumes "\<forall>p \<in> set filters. p \<noteq> '''' \<and> CHR 0x00 \<notin> set p" and "length name < 32768" and "CHR 0x00 \<notin> set name"
    and "CHR 0x00 \<notin> set path"
    and "dialog (ofn_of owner title dir name filters must) = (r, map (\<lambda>c. of_nat (of_char c)) path @ 0 # rest)"
  shows "(case ofn_of owner title dir name filters must of o1 \<Rightarrow>
      length (of_File o1) = of_MaxFile o1 \<and> of_MaxFile o1 = 32768 \<and> last (of_File o1) = 0 \<and> UTF16ToString (of_File o1) = name \<and>
      multi_strings (of_Filter o1) = filters \<and> (of_Flags o1 AND ofnFileMustExist \<noteq> 0 \<longleftrightarrow> must)) \<and>
    pickOpenFile dialog owner title dir name filters must = (if r = 0 then ('''', False) else (path, True))"
proof -
  have "of_Filter (ofn_of owner title dir name filters must) = utf16Filter filters" by (simp add: ofn_of_def Let_def)
  moreover have "pickOpenFile dialog owner title dir name filters must = (if r = 0 then ('''', False) else (path, True))"
    using pickOpenFile_chosen [where path = path and dialog = dialog and r = r and rest = rest] assms(4,5)
    by (simp add: pickOpenFile_def)
  ultimately show ?thesis
    using ofn_buffer [where owner = owner and title = title and dir = dir and name = name and fs = filters and must = must]
      ofn_must_exist [of owner title dir name filters must]
      multi_strings_filter [OF assms(1)] assms(2,3) by (simp add: maxPathWide_def)
qed

theorem file_dialog_witness:
  "pickOpenFile (\<lambda>_. (1, map (\<lambda>c. of_nat (of_char c)) ''C:k'' @ [0])) 0 ''Add private key'' '''' ''id''
     [''Private key files'', ''*.*''] True = (''C:k'', True)"
  using file_dialog [of "[''Private key files'', ''*.*'']" "''id''" "''C:k''" "\<lambda>_. (1, map (\<lambda>c. of_nat (of_char c)) ''C:k'' @ [0])"
      0 "''Add private key''" "''''" True 1 "[]"] by simp

text \<open>Reading a control gives what was last put into it: the value models of the dialogs are what the windows show.\<close>

lemma controls_read_back:
  assumes "hwnd \<noteq> 0" and "hwnd \<in> dom cs"
  shows "windowText hwnd (win_setWindowText hwnd new cs) = setWindowText (windowText hwnd cs) new"
    and "isChecked hwnd (setChecked hwnd b cs) = b"
    and "0 \<le> i \<Longrightarrow> i < int (combo_size hwnd cs) \<Longrightarrow> combo_size hwnd cs < 100 \<Longrightarrow> comboIndex hwnd (comboSelect hwnd i cs) = i"
  using windowText_set [OF assms] isChecked_set [OF assms(2)] comboIndex_select [OF assms(2), of i] by simp_all



end
