(* ===== verification/Legacy_Proxy.thy ===== *)
theory Legacy_Proxy
  imports Go_Lib
begin

text \<open>
  The WSL2 proxy of the previous program (src/old/cmd/wsl2-ssh-agent-proxy/main.go).  Requests of many
  connections to a Unix socket share one PowerShell process: each is framed with a packet type,
  a channel and a length (\<^verbatim>\<open>WriteChannel\<close>), and the frames that come back are sorted to the
  connections by \<^verbatim>\<open>readLoop\<close>.

  A stream is the bytes that will arrive, then an error, which stays: \<^verbatim>\<open>io.EOF\<close> for an orderly end.
  \<^verbatim>\<open>readLoop\<close> is given twice: as a function of the whole stream, for what is delivered, and
  as a step relation beside the connections' goroutines, for what can go wrong between its lookup
  and its send.
\<close>

section \<open>Streams\<close>

record stream =
  sm_data :: bytes
  sm_end :: goerr

text \<open>\<^verbatim>\<open>io.ReadFull\<close> of \<open>n\<close> bytes: an end inside the bytes is \<^verbatim>\<open>io.ErrUnexpectedEOF\<close>, any other error stays itself.\<close>

definition ReadFull :: "nat \<Rightarrow> stream \<Rightarrow> bytes result \<times> stream" where
  "ReadFull n s =
     (if length (sm_data s) < n then
        (Inl (if sm_end s = EOF \<and> sm_data s \<noteq> [] then ErrUnexpectedEOF else sm_end s), s\<lparr>sm_data := []\<rparr>)
      else (Inr (take n (sm_data s)), s\<lparr>sm_data := drop n (sm_data s)\<rparr>))"

section \<open>Packets\<close>

text \<open>\<^verbatim>\<open>init\<close> chooses the byte order by \<^verbatim>\<open>isLittleEndian\<close>, which writes with the little-endian order itself.\<close>

definition isLittleEndian :: bool where
  "isLittleEndian = (le_put32 0x01020304 ! 0 = 0x04)"

definition PutUint32 :: "u32 \<Rightarrow> bytes" where
  "PutUint32 v = (if isLittleEndian then le_put32 v else be_put32 v)"

definition Uint32 :: "bytes \<Rightarrow> u32 option" where
  "Uint32 b = (if isLittleEndian then le_get32 b else be_get32 b)"

definition HeaderSize :: nat where "HeaderSize = 12"
definition PacketTypeConnectSend :: u32 where "PacketTypeConnectSend = 0"
definition PacketTypeSend :: u32 where "PacketTypeSend = 1"
definition PacketTypeClose :: u32 where "PacketTypeClose = 2"
definition maxAgentResponseBytes :: u32 where "maxAgentResponseBytes = push_bit 20 16"

record Packet =
  pk_PacketType :: u32
  pk_ChannelID :: u32
  pk_Payload :: bytes

text \<open>The buffer \<^verbatim>\<open>WriteChannel\<close> fills and writes at once.\<close>

definition WriteChannel :: "Packet \<Rightarrow> bytes" where
  "WriteChannel p =
     PutUint32 (pk_PacketType p) @ PutUint32 (pk_ChannelID p) @ PutUint32 (of_nat (length (pk_Payload p))) @ pk_Payload p"

text \<open>One round of \<^verbatim>\<open>readLoop\<close> up to the packet; \<open>None\<close> would be a panic on a short header.\<close>

definition read_frame :: "stream \<Rightarrow> (Packet result \<times> stream) option" where
  "read_frame s =
     (case ReadFull HeaderSize s of
        (Inl e, s1) \<Rightarrow> Some (Inl e, s1)
      | (Inr header, s1) \<Rightarrow>
          (case (Uint32 (take 4 header), Uint32 (drop 4 header), Uint32 (drop 8 header)) of
             (Some packetType, Some channelID, Some len) \<Rightarrow>
               (case ReadFull (unat len) s1 of
                  (Inl e, s2) \<Rightarrow> Some (Inl e, s2)
                | (Inr payload, s2) \<Rightarrow>
                    Some (Inr \<lparr>pk_PacketType = packetType, pk_ChannelID = channelID, pk_Payload = payload\<rparr>, s2))
           | _ \<Rightarrow> None))"

text \<open>
  The channels by number, and the payloads each has been sent, oldest first; a closed channel is
  no longer in the map.  \<open>mu_log\<close> are the messages about channels not found.
\<close>

record Multiplexer =
  mu_channels :: "u32 \<rightharpoonup> bytes list"
  mu_closed :: "(u32 \<times> bytes list) list"
  mu_unknown :: "u32 list"

definition NewMultiplexer :: Multiplexer where
  "NewMultiplexer = \<lparr>mu_channels = Map.empty, mu_closed = [], mu_unknown = []\<rparr>"

definition OpenChannel :: "u32 \<Rightarrow> Multiplexer \<Rightarrow> Multiplexer" where
  "OpenChannel ch m = m\<lparr>mu_channels := (mu_channels m)(ch \<mapsto> [])\<rparr>"

definition CloseChannel :: "u32 \<Rightarrow> Multiplexer \<Rightarrow> Multiplexer" where
  "CloseChannel ch m =
     (case mu_channels m ch of
        None \<Rightarrow> m
      | Some q \<Rightarrow> m\<lparr>mu_channels := (mu_channels m)(ch := None), mu_closed := mu_closed m @ [(ch, q)]\<rparr>)"

definition dispatch :: "Packet \<Rightarrow> Multiplexer \<Rightarrow> Multiplexer" where
  "dispatch p m =
     (if pk_PacketType p = PacketTypeSend then
        (case mu_channels m (pk_ChannelID p) of
           Some q \<Rightarrow> m\<lparr>mu_channels := (mu_channels m)(pk_ChannelID p \<mapsto> q @ [pk_Payload p])\<rparr>
         | None \<Rightarrow> m\<lparr>mu_unknown := mu_unknown m @ [pk_ChannelID p]\<rparr>)
      else if pk_PacketType p = PacketTypeClose then CloseChannel (pk_ChannelID p) m
      else m)"

lemma isLittleEndian [simp]: "isLittleEndian"
  by (simp add: isLittleEndian_def le_put32_def)

lemma Uint32_simps [simp]: "Uint32 (PutUint32 v @ bs) = Some v" "length (PutUint32 v) = 4"
  by (simp_all add: Uint32_def PutUint32_def)

lemma Uint32_long: "4 \<le> length b \<Longrightarrow> \<exists>v. Uint32 b = Some v"
  using le_get32_None_iff [of b] by (cases "Uint32 b") (auto simp: Uint32_def)

lemma read_frame_shorter:
  assumes "read_frame s = Some (Inr p, s')"
  shows "length (sm_data s') + HeaderSize + length (pk_Payload p) = length (sm_data s) \<and> sm_end s' = sm_end s"
  using assms by (auto simp: read_frame_def ReadFull_def HeaderSize_def split: if_splits option.splits)

text \<open>
  \<open>ctx k\<close> is what \<^verbatim>\<open>ctx.Err()\<close> gives in round \<open>k\<close>.  The loop ends with the context or with an error of the stream.
\<close>

function readLoop :: "(nat \<Rightarrow> goerr option) \<Rightarrow> nat \<Rightarrow> stream \<Rightarrow> Multiplexer \<Rightarrow> (goerr \<times> Multiplexer) option" where
  "readLoop ctx k s m =
     (case ctx k of
        Some e \<Rightarrow> Some (e, m)
      | None \<Rightarrow>
          (case read_frame s of
             None \<Rightarrow> None
           | Some (Inl e, s1) \<Rightarrow> Some (e, m)
           | Some (Inr p, s1) \<Rightarrow> readLoop ctx (Suc k) s1 (dispatch p m)))"
  by pat_completeness auto
termination
  by (relation "measure (\<lambda>(_, _, s, _). length (sm_data s))") (auto dest!: read_frame_shorter simp: HeaderSize_def)

declare readLoop.simps [simp del]

section \<open>Agent packets\<close>

definition writePacket :: "bytes \<Rightarrow> bytes" where
  "writePacket b = be_put32 (of_nat (length b)) @ b"

definition readPacket :: "stream \<Rightarrow> bytes result \<times> stream" where
  "readPacket s =
     (case ReadFull 4 s of
        (Inl e, s1) \<Rightarrow> (Inl e, s1)
      | (Inr len, s1) \<Rightarrow>
          (let l = the (be_get32 len) in
           if l = 0 then (Inl (ErrNew ''agent: request size is 0''), s1)
           else if l > maxAgentResponseBytes then (Inl (ErrNew ''agent: request too large''), s1)
           else ReadFull (unat l) s1))"

text \<open>
  The goroutine of a connection that reads its requests.  An error other than \<^verbatim>\<open>io.EOF\<close> does not
  end it: an empty packet is forwarded and the loop goes on.  \<open>fuel\<close> bounds the rounds; the flag
  says whether the loop has ended within them, and with it the deferred close packet was written.
\<close>

fun forward :: "nat \<Rightarrow> (nat \<Rightarrow> goerr option) \<Rightarrow> u32 \<Rightarrow> u32 \<Rightarrow> nat \<Rightarrow> stream \<Rightarrow> bool \<times> Packet list" where
  "forward 0 ctx ch ty k s = (False, [])"
| "forward (Suc n) ctx ch ty k s =
     (let done = [\<lparr>pk_PacketType = PacketTypeClose, pk_ChannelID = ch, pk_Payload = []\<rparr>] in
      case readPacket s of
        (r, s1) \<Rightarrow>
          if r = Inl EOF then (True, done)
          else
            (let p = \<lparr>pk_PacketType = ty, pk_ChannelID = ch, pk_Payload = (case r of Inl _ \<Rightarrow> [] | Inr b \<Rightarrow> b)\<rparr> in
             if ctx k \<noteq> None then (True, p # done)
             else (case forward n ctx ch PacketTypeSend (Suc k) s1 of (e, ps) \<Rightarrow> (e, p # ps))))"

definition handleConnection_reads :: "nat \<Rightarrow> (nat \<Rightarrow> goerr option) \<Rightarrow> u32 \<Rightarrow> stream \<Rightarrow> bool \<times> Packet list" where
  "handleConnection_reads fuel ctx ch s = forward fuel ctx ch PacketTypeConnectSend 0 s"

text \<open>The other half of \<^verbatim>\<open>handleConnection\<close>: every message of the channel goes to the connection until a write fails.\<close>

fun handleConnection_writes :: "(nat \<Rightarrow> goerr option) \<Rightarrow> nat \<Rightarrow> bytes list \<Rightarrow> bytes" where
  "handleConnection_writes fault k [] = []"
| "handleConnection_writes fault k (msg # ms) =
     (case fault k of Some e \<Rightarrow> [] | None \<Rightarrow> writePacket msg @ handleConnection_writes fault (Suc k) ms)"

section \<open>Accepting connections\<close>

text \<open>\<open>LAccepted d\<close> is a connection, with what \<^verbatim>\<open>ctx.Err()\<close> gives after it; \<open>LFailed e\<close> an error of \<^verbatim>\<open>Accept\<close>.\<close>

datatype laccept = LAccepted "goerr option" | LFailed goerr

abbreviation "NetErrClosed \<equiv> ErrSentinel ''net.ErrClosed''"

fun listenLoop :: "laccept list \<Rightarrow> u32 \<Rightarrow> u32 list \<Rightarrow> (goerr \<times> u32 list) option" where
  "listenLoop [] ch started = None"
| "listenLoop (LFailed e # xs) ch started =
     (if errors_Is e NetErrClosed then Some (e, started) else listenLoop xs ch started)"
| "listenLoop (LAccepted d # xs) ch started =
     (case d of Some e \<Rightarrow> Some (e, started @ [ch]) | None \<Rightarrow> listenLoop xs (ch + 1) (started @ [ch]))"

section \<open>Starting PowerShell\<close>

fun first_system32 :: "string list \<Rightarrow> string" where
  "first_system32 [] = ''''"
| "first_system32 (p # ps) =
     (if HasPrefix p ''/mnt/'' \<and> HasSuffix p ''/Windows/system32'' then p else first_system32 ps)"

definition getSystem32Path :: "(string \<Rightarrow> string) \<Rightarrow> string" where
  "getSystem32Path getenv = first_system32 (strSplit (getenv ''PATH'') (CHR '':''))"

text \<open>\<^verbatim>\<open>main\<close> up to the socket: which program to start, and the socket path or why there is none.\<close>

definition choose_exe :: "filepath_ops \<Rightarrow> (string \<Rightarrow> bool) \<Rightarrow> (string \<Rightarrow> string) \<Rightarrow> string" where
  "choose_exe fp exists getenv =
     (let dir = getSystem32Path getenv;
          exe = (if dir \<noteq> '''' then fp_Join fp [dir, ''WindowsPowerShell/v1.0/powershell.exe''] else dir) in
      if exists exe then exe else ''powershell.exe'')"

text \<open>\<^verbatim>\<open>strings.Replace(line, "# ", "", 1)\<close>.\<close>

fun drop_first_mark :: "string \<Rightarrow> string" where
  "drop_first_mark [] = []"
| "drop_first_mark (c # cs) = (if HasPrefix (c # cs) ''# '' then drop 2 (c # cs) else c # drop_first_mark cs)"

definition newline :: char where "newline = CHR 0x0A"

definition uncommentWriteLines :: "string \<Rightarrow> string" where
  "uncommentWriteLines script =
     strJoin (map (\<lambda>line. if HasPrefix (TrimSpace line) ''# [Console]::Error.WriteLine('' then drop_first_mark line else line)
       (strSplit script newline)) [newline]"

datatype agent_check = Started | ReadFailed | ExitOne

definition checkStartAgent :: "bytes result \<Rightarrow> agent_check" where
  "checkStartAgent r = (case r of Inl _ \<Rightarrow> ReadFailed | Inr b \<Rightarrow> if b = bytes_of ''startAgent'' then Started else ExitOne)"

text \<open>
  The fields of \<^verbatim>\<open>pwshIOStream\<close> that can be nil: \<^verbatim>\<open>cmd\<close>, \<^verbatim>\<open>cmd.Process\<close> (set by \<^verbatim>\<open>cmd.Start\<close>) and the two
  pipes; and what was done to the process.
\<close>

datatype pwsh_event = SignalTerm | CloseIn | CloseOut | WroteScript string | CancelCalled

record pwshIOStream =
  ps_cmd :: bool
  ps_process :: bool
  ps_in :: bool
  ps_out :: bool
  ps_events :: "pwsh_event list"

definition NewPwshIOStream :: pwshIOStream where
  "NewPwshIOStream = \<lparr>ps_cmd = False, ps_process = False, ps_in = False, ps_out = False, ps_events = []\<rparr>"

text \<open>\<^verbatim>\<open>killPwsh\<close>: None is the panic of a nil \<^verbatim>\<open>cmd\<close> or \<^verbatim>\<open>cmd.Process\<close>.\<close>

definition killPwsh :: "pwshIOStream \<Rightarrow> pwshIOStream option" where
  "killPwsh ps =
     (if ps_cmd ps \<and> ps_process ps
      then Some (ps\<lparr>ps_events := ps_events ps @ [SignalTerm] @ (if ps_in ps then [CloseIn] else []) @
        (if ps_out ps then [CloseOut] else [])\<rparr>)
      else None)"

record pwsh_env =
  pe_stdin :: "goerr option"
  pe_stdout :: "goerr option"
  pe_start :: "goerr option"
  pe_debug :: bool
  pe_script :: string
  pe_first :: "bytes result"
  pe_stream :: stream
  pe_ctx :: "nat \<Rightarrow> goerr option"

datatype pwsh_end = PwshReturned "goerr \<times> Multiplexer option" | PwshRunning | PwshExit1

text \<open>Whatever \<^verbatim>\<open>startPowerShellProces\<close> returns with, it has called \<^verbatim>\<open>cancel\<close>; an \<^verbatim>\<open>os.Exit\<close> runs no deferred call.\<close>

definition startPowerShellProces :: "pwsh_env \<Rightarrow> pwshIOStream \<Rightarrow> pwsh_end \<times> pwshIOStream" where
  "startPowerShellProces env ps =
     (let ps1 = ps\<lparr>ps_cmd := True, ps_process := False\<rparr>;
          leave = (\<lambda>r p. (PwshReturned r, p\<lparr>ps_events := ps_events p @ [CancelCalled]\<rparr>)) in
      case pe_stdin env of
        Some e \<Rightarrow> leave (e, None) (ps1\<lparr>ps_in := False\<rparr>)
      | None \<Rightarrow>
          (let ps2 = ps1\<lparr>ps_in := True\<rparr> in
           case pe_stdout env of
             Some e \<Rightarrow> leave (e, None) (ps2\<lparr>ps_out := False\<rparr>)
           | None \<Rightarrow>
               (let ps3 = ps2\<lparr>ps_out := True\<rparr> in
                case pe_start env of
                  Some e \<Rightarrow> leave (e, None) ps3
                | None \<Rightarrow>
                    (let script = (if pe_debug env then uncommentWriteLines (pe_script env) else pe_script env);
                         ps4 = ps3\<lparr>ps_process := True, ps_events := ps_events ps3 @ [WroteScript script]\<rparr> in
                     if checkStartAgent (pe_first env) = ExitOne then (PwshExit1, ps4)
                     else
                       (case readLoop (pe_ctx env) 0 (pe_stream env) NewMultiplexer of
                          None \<Rightarrow> (PwshRunning, ps4)
                        | Some (e, m) \<Rightarrow> leave (e, Some m) ps4)))))"

text \<open>\<^verbatim>\<open>main\<close> up to its loop.  \<^verbatim>\<open>log.Fatal\<close> exits; a return runs the deferred \<^verbatim>\<open>killPwsh\<close>.\<close>

datatype proxy_end = ProxyFatal string | ProxyListens string string | ProxyReturned pwshIOStream | ProxyPanics

definition proxy_main ::
  "filepath_ops \<Rightarrow> (string \<Rightarrow> bool) \<Rightarrow> (string \<Rightarrow> string) \<Rightarrow> (string \<Rightarrow> goerr option) \<Rightarrow> (string \<Rightarrow> goerr option) \<Rightarrow> proxy_end" where
  "proxy_main fp exists getenv remove listen =
     (let socketPath = getenv ''SSH_AUTH_SOCK'' in
      if socketPath = '''' then ProxyFatal ''env SSH_AUTH_SOCK is not set''
      else if exists socketPath \<and> remove socketPath \<noteq> None then ProxyFatal ''remove old socket''
      else if listen socketPath \<noteq> None
      then (case killPwsh NewPwshIOStream of None \<Rightarrow> ProxyPanics | Some ps \<Rightarrow> ProxyReturned ps)
      else ProxyListens (choose_exe fp exists getenv) socketPath)"

section \<open>The reader beside the connections\<close>

text \<open>
  \<^verbatim>\<open>readLoop\<close> looks a channel up under the lock and sends to it after releasing the lock; the goroutine of a
  connection closes its channel under the same lock.  Channels are objects with a buffer of ten; a
  send to a closed one panics.
\<close>

datatype reader = RIdle | RSending nat bytes

record mux_state =
  ms_channels :: "u32 \<rightharpoonup> nat"
  ms_buffer :: "nat \<Rightarrow> bytes list"
  ms_closed :: "nat \<Rightarrow> bool"
  ms_next :: nat
  ms_reader :: reader
  ms_panicked :: bool

definition mux_init :: mux_state where
  "mux_init = \<lparr>ms_channels = Map.empty, ms_buffer = (\<lambda>_. []), ms_closed = (\<lambda>_. False), ms_next = 0,
     ms_reader = RIdle, ms_panicked = False\<rparr>"

inductive mux_step :: "mux_state \<Rightarrow> mux_state \<Rightarrow> bool" where
  conn_open: "mux_step m (m\<lparr>ms_channels := (ms_channels m)(ch \<mapsto> ms_next m), ms_next := Suc (ms_next m)\<rparr>)"
| conn_close: "ms_channels m ch = Some ob \<Longrightarrow>
    mux_step m (m\<lparr>ms_channels := (ms_channels m)(ch := None), ms_closed := (ms_closed m)(ob := True)\<rparr>)"
| conn_receive: "ms_buffer m ob = msg # rest \<Longrightarrow> mux_step m (m\<lparr>ms_buffer := (ms_buffer m)(ob := rest)\<rparr>)"
| reader_lookup: "ms_reader m = RIdle \<Longrightarrow> \<not> ms_panicked m \<Longrightarrow> ms_channels m ch = Some ob \<Longrightarrow>
    mux_step m (m\<lparr>ms_reader := RSending ob payload\<rparr>)"
| reader_send: "ms_reader m = RSending ob payload \<Longrightarrow> \<not> ms_closed m ob \<Longrightarrow> length (ms_buffer m ob) < 10 \<Longrightarrow>
    mux_step m (m\<lparr>ms_buffer := (ms_buffer m)(ob := ms_buffer m ob @ [payload]), ms_reader := RIdle\<rparr>)"
| reader_panic: "ms_reader m = RSending ob payload \<Longrightarrow> ms_closed m ob \<Longrightarrow>
    mux_step m (m\<lparr>ms_reader := RIdle, ms_panicked := True\<rparr>)"

inductive mux_reach :: "mux_state \<Rightarrow> bool" where
  mux_start: "mux_reach mux_init"
| mux_next: "mux_reach m \<Longrightarrow> mux_step m m' \<Longrightarrow> mux_reach m'"

text \<open>Registered channels are open and distinct, and no buffer overflows: the reader's lookup is sound when it is made.\<close>

definition mux_inv :: "mux_state \<Rightarrow> bool" where
  "mux_inv m \<longleftrightarrow>
     (\<forall>ch ob. ms_channels m ch = Some ob \<longrightarrow> ob < ms_next m \<and> \<not> ms_closed m ob) \<and>
     (\<forall>ob. ms_closed m ob \<longrightarrow> ob < ms_next m) \<and> inj_on (ms_channels m) (dom (ms_channels m)) \<and>
     (\<forall>ob. length (ms_buffer m ob) \<le> 10)"

lemma mux_inv_step: "mux_step m m' \<Longrightarrow> mux_inv m \<Longrightarrow> mux_inv m'"
proof (induction rule: mux_step.induct)
  case (conn_open m ch)
  then have "ms_channels m x \<noteq> Some (ms_next m)" for x by (auto simp: mux_inv_def)
  then show ?case using conn_open by (auto simp: mux_inv_def inj_on_def less_SucI)
next
  case (conn_close m ch ob)
  have only: "x = ch" if "ms_channels m x = Some ob" for x
    using conn_close that inj_onD [of "ms_channels m" "dom (ms_channels m)" x ch] by (auto simp: mux_inv_def)
  have inj: "inj_on ((ms_channels m)(ch := None)) (dom ((ms_channels m)(ch := None)))"
    by (rule inj_on_subset [of _ "dom (ms_channels m) - {ch}"], rule inj_on_cong [THEN iffD1, of _ "ms_channels m"])
      (use conn_close in \<open>auto simp: mux_inv_def intro: inj_on_subset\<close>)
  have old: "ms_channels m x = Some b \<Longrightarrow> b < ms_next m \<and> \<not> ms_closed m b" "ms_closed m b \<Longrightarrow> b < ms_next m"
    "length (ms_buffer m b) \<le> 10" for x b
    using conn_close by (auto simp: mux_inv_def)
  let ?m = "m\<lparr>ms_channels := (ms_channels m)(ch := None), ms_closed := (ms_closed m)(ob := True)\<rparr>"
  have "b < ms_next ?m \<and> \<not> ms_closed ?m b" if "ms_channels ?m x = Some b" for x b
  proof -
    have x: "x \<noteq> ch" "ms_channels m x = Some b" using that by (auto split: if_splits)
    then have "b \<noteq> ob" using only by blast
    then show ?thesis using old(1) [OF x(2)] by simp
  qed
  moreover have "b < ms_next ?m" if "ms_closed ?m b" for b
    using that old(2) [of b] old(1) [OF conn_close.hyps] by (cases "b = ob") simp_all
  ultimately show ?case unfolding mux_inv_def using inj old(3) by simp
next
  case (conn_receive m ob msg rest)
  then have "length (msg # rest) \<le> 10" by (metis mux_inv_def)
  then show ?case using conn_receive by (auto simp: mux_inv_def)
qed (auto simp: mux_inv_def)

lemma mux_reach_inv: "mux_reach m \<Longrightarrow> mux_inv m"
  by (induction rule: mux_reach.induct) (auto simp: mux_inv_step, simp add: mux_inv_def mux_init_def)

section \<open>Framing\<close>

lemma ReadFull_exact: "length a = n \<Longrightarrow> ReadFull n \<lparr>sm_data = a @ b, sm_end = e\<rparr> = (Inr a, \<lparr>sm_data = b, sm_end = e\<rparr>)"
  by (simp add: ReadFull_def)

lemma ReadFull_short:
  "length a < n \<Longrightarrow>
    ReadFull n \<lparr>sm_data = a, sm_end = e\<rparr> = (Inl (if e = EOF \<and> a \<noteq> [] then ErrUnexpectedEOF else e), \<lparr>sm_data = [], sm_end = e\<rparr>)"
  by (simp add: ReadFull_def)

definition small :: "Packet \<Rightarrow> bool" where
  "small p \<longleftrightarrow> length (pk_Payload p) < 2 ^ 32"

lemma unat_small: "small p \<Longrightarrow> unat (of_nat (length (pk_Payload p)) :: u32) = length (pk_Payload p)"
  by (simp add: small_def unat_of_nat)

definition header :: "Packet \<Rightarrow> bytes" where
  "header p = PutUint32 (pk_PacketType p) @ PutUint32 (pk_ChannelID p) @ PutUint32 (of_nat (length (pk_Payload p)))"

lemma WriteChannel_header: "WriteChannel p = header p @ pk_Payload p" "length (header p) = 12"
  by (simp_all add: WriteChannel_def header_def)

lemma header_fields:
  "Uint32 (take 4 (header p)) = Some (pk_PacketType p)" "Uint32 (drop 4 (header p)) = Some (pk_ChannelID p)"
  "Uint32 (drop 8 (header p)) = Some (of_nat (length (pk_Payload p)))"
  using Uint32_simps(1) [of "pk_PacketType p" "[]"] Uint32_simps(1) [of "of_nat (length (pk_Payload p))" "[]"]
  by (simp_all add: header_def)

lemma read_frame_whole:
  assumes "small p"
  shows "read_frame \<lparr>sm_data = WriteChannel p @ rest, sm_end = e\<rparr> = Some (Inr p, \<lparr>sm_data = rest, sm_end = e\<rparr>)"
  using assms by (simp add: read_frame_def HeaderSize_def WriteChannel_header ReadFull_exact header_fields unat_small)

text \<open>The error of a stream cut inside a packet: an orderly end is unexpected except between header and payload.\<close>

definition cut_error :: "nat \<Rightarrow> goerr \<Rightarrow> goerr" where
  "cut_error n e = (if e = EOF \<and> n \<noteq> 0 \<and> n \<noteq> HeaderSize then ErrUnexpectedEOF else e)"

lemma read_frame_cut:
  assumes "small p" and "n < length (WriteChannel p)"
  shows "\<exists>s. read_frame \<lparr>sm_data = take n (WriteChannel p), sm_end = e\<rparr> = Some (Inl (cut_error n e), s)"
proof (cases "n < 12")
  case True
  have "ReadFull 12 \<lparr>sm_data = take n (WriteChannel p), sm_end = e\<rparr> =
      (Inl (if e = EOF \<and> take n (WriteChannel p) \<noteq> [] then ErrUnexpectedEOF else e), \<lparr>sm_data = [], sm_end = e\<rparr>)"
    using True by (intro ReadFull_short) simp
  moreover have "take n (WriteChannel p) \<noteq> [] \<longleftrightarrow> n \<noteq> 0" using assms(2) by (cases n) auto
  ultimately show ?thesis using True by (simp add: read_frame_def HeaderSize_def cut_error_def)
next
  case False
  let ?t = "take (n - 12) (pk_Payload p)"
  have t: "take n (WriteChannel p) = header p @ ?t" using False by (simp add: WriteChannel_header)
  have l: "length ?t < length (pk_Payload p)" using assms(2) False by (simp add: WriteChannel_header)
  have "ReadFull 12 \<lparr>sm_data = header p @ ?t, sm_end = e\<rparr> = (Inr (header p), \<lparr>sm_data = ?t, sm_end = e\<rparr>)"
    by (intro ReadFull_exact) (simp add: WriteChannel_header)
  moreover have "ReadFull (length (pk_Payload p)) \<lparr>sm_data = ?t, sm_end = e\<rparr> =
      (Inl (if e = EOF \<and> ?t \<noteq> [] then ErrUnexpectedEOF else e), \<lparr>sm_data = [], sm_end = e\<rparr>)"
    using l by (rule ReadFull_short)
  moreover have "?t \<noteq> [] \<longleftrightarrow> n \<noteq> 12" using False l by auto
  ultimately show ?thesis using False
    by (simp add: read_frame_def HeaderSize_def header_fields unat_small [OF assms(1)] t cut_error_def)
qed

lemma readLoop_frames:
  assumes "list_all small ps" and "small p" and "n < length (WriteChannel p)"
  shows "readLoop (\<lambda>_. None) k \<lparr>sm_data = concat (map WriteChannel ps) @ take n (WriteChannel p), sm_end = e\<rparr> m =
    Some (cut_error n e, fold dispatch ps m)"
  using assms(1)
proof (induction ps arbitrary: k m)
  case Nil
  from read_frame_cut [OF assms(2,3), of e] obtain s where
    "read_frame \<lparr>sm_data = take n (WriteChannel p), sm_end = e\<rparr> = Some (Inl (cut_error n e), s)" by blast
  then show ?case by (subst readLoop.simps) simp
next
  case (Cons q ps)
  then have "readLoop (\<lambda>_. None) (Suc k) \<lparr>sm_data = concat (map WriteChannel ps) @ take n (WriteChannel p), sm_end = e\<rparr> (dispatch q m) =
    Some (cut_error n e, fold dispatch ps (dispatch q m))" by simp
  then show ?case using Cons.prems by (subst readLoop.simps) (simp add: read_frame_whole)
qed

text \<open>What a channel has been sent.\<close>

definition sent_to :: "u32 \<Rightarrow> Packet list \<Rightarrow> bytes list" where
  "sent_to ch ps = map pk_Payload (filter (\<lambda>p. pk_PacketType p = PacketTypeSend \<and> pk_ChannelID p = ch) ps)"

definition closes_channel :: "u32 \<Rightarrow> Packet \<Rightarrow> bool" where
  "closes_channel ch p \<longleftrightarrow> pk_PacketType p = PacketTypeClose \<and> pk_ChannelID p = ch"

lemma fold_dispatch_channel:
  assumes "mu_channels m ch = Some q" and "list_all (\<lambda>p. \<not> closes_channel ch p) ps"
  shows "mu_channels (fold dispatch ps m) ch = Some (q @ sent_to ch ps)"
  using assms
proof (induction ps arbitrary: m q)
  case Nil
  then show ?case by (simp add: sent_to_def)
next
  case (Cons p ps)
  let ?hit = "pk_PacketType p = PacketTypeSend \<and> pk_ChannelID p = ch"
  have "PacketTypeSend \<noteq> PacketTypeClose" by (simp add: PacketTypeSend_def PacketTypeClose_def)
  then have "mu_channels (dispatch p m) ch = Some (q @ (if ?hit then [pk_Payload p] else []))"
    using Cons.prems by (auto simp: dispatch_def CloseChannel_def closes_channel_def split: option.splits)
  from Cons.IH [OF this] Cons.prems show ?case by (simp add: sent_to_def)
qed

section \<open>Properties\<close>


definition send_packet :: "u32 \<Rightarrow> bytes \<Rightarrow> Packet" where
  "send_packet ch b = \<lparr>pk_PacketType = PacketTypeSend, pk_ChannelID = ch, pk_Payload = b\<rparr>"


text \<open>(mux_close_race). The lookup and the send of \<^verbatim>\<open>readLoop\<close> are not one step: although every registered channel is
  open, a connection can close its channel between them, and the send then panics and takes the
  proxy down with it.\<close>

theorem mux_close_race: "\<exists>m. mux_reach m \<and> ms_panicked m"
proof -
  let ?m1 = "mux_init\<lparr>ms_channels := (ms_channels mux_init)(1 \<mapsto> ms_next mux_init), ms_next := Suc (ms_next mux_init)\<rparr>"
  let ?m2 = "?m1\<lparr>ms_reader := RSending 0 []\<rparr>"
  let ?m3 = "?m2\<lparr>ms_channels := (ms_channels ?m2)(1 := None), ms_closed := (ms_closed ?m2)(0 := True)\<rparr>"
  let ?m4 = "?m3\<lparr>ms_reader := RIdle, ms_panicked := True\<rparr>"
  have "mux_step mux_init ?m1" by (rule conn_open)
  moreover have "mux_step ?m1 ?m2" by (rule reader_lookup [of _ 1]) (simp_all add: mux_init_def)
  moreover have "mux_step ?m2 ?m3" by (rule conn_close) (simp add: mux_init_def)
  moreover have "mux_step ?m3 ?m4" by (rule reader_panic [of _ 0 "[]"]) simp_all
  ultimately have "mux_reach ?m4" by (meson mux_start mux_next)
  moreover have "ms_panicked ?m4" by simp
  ultimately show ?thesis by blast
qed

text \<open>Requests on a connection.\<close>

definition request_ok :: "bytes \<Rightarrow> bool" where
  "request_ok b \<longleftrightarrow> b \<noteq> [] \<and> length b \<le> 16 * 2 ^ 20"

lemma readPacket_write:
  assumes "request_ok b"
  shows "readPacket \<lparr>sm_data = writePacket b @ rest, sm_end = e\<rparr> = (Inr b, \<lparr>sm_data = rest, sm_end = e\<rparr>)"
proof -
  have len: "unat (of_nat (length b) :: u32) = length b" "maxAgentResponseBytes = 16777216"
    using assms by (auto simp: request_ok_def unat_of_nat maxAgentResponseBytes_def push_bit_eq_mult)
  have "be_get32 (be_put32 (of_nat (length b))) = Some (of_nat (length b))"
    using be_get32_put [of "of_nat (length b)" "[]"] by simp
  moreover have "(of_nat (length b) :: u32) \<noteq> 0" using len(1) assms by (auto simp: request_ok_def)
  moreover have "\<not> (of_nat (length b) :: u32) > maxAgentResponseBytes"
    using assms by (simp add: word_less_nat_alt len request_ok_def)
  ultimately show ?thesis using ReadFull_exact [of b "length b" rest e]
    by (simp add: readPacket_def writePacket_def ReadFull_exact len(1))
qed

lemma readPacket_end: "readPacket \<lparr>sm_data = [], sm_end = e\<rparr> = (Inl e, \<lparr>sm_data = [], sm_end = e\<rparr>)"
  by (simp add: readPacket_def ReadFull_def)

fun frames_of :: "u32 \<Rightarrow> u32 \<Rightarrow> bytes list \<Rightarrow> Packet list" where
  "frames_of ch ty [] = []"
| "frames_of ch ty (b # bs) = \<lparr>pk_PacketType = ty, pk_ChannelID = ch, pk_Payload = b\<rparr> # frames_of ch PacketTypeSend bs"

lemma forward_requests:
  "list_all request_ok bs \<Longrightarrow>
    forward (length bs + n) (\<lambda>_. None) ch ty k \<lparr>sm_data = concat (map writePacket bs), sm_end = e\<rparr> =
    apsnd (\<lambda>ps. frames_of ch ty bs @ ps)
      (forward n (\<lambda>_. None) ch (if bs = [] then ty else PacketTypeSend) (k + length bs) \<lparr>sm_data = [], sm_end = e\<rparr>)"
proof (induction bs arbitrary: ty k)
  case Nil
  then show ?case by (simp add: apsnd_def map_prod_def split: prod.split)
next
  case (Cons b bs)
  then show ?case by (simp add: readPacket_write split_beta apsnd_def map_prod_def)
qed

text \<open>(proxy_forwards). On a connection that sends well-formed requests and then ends in an orderly way, the proxy
  forwards each request once and in order, the first as the one that opens the channel, and then
  closes the channel; one round more than there are requests is enough.\<close>

theorem proxy_forwards:
  assumes "list_all request_ok bs"
  shows "handleConnection_reads (Suc (length bs)) (\<lambda>_. None) ch \<lparr>sm_data = concat (map writePacket bs), sm_end = EOF\<rparr> =
    (True, frames_of ch PacketTypeConnectSend bs @ [\<lparr>pk_PacketType = PacketTypeClose, pk_ChannelID = ch, pk_Payload = []\<rparr>])"
  using forward_requests [OF assms, of 1] by (simp add: handleConnection_reads_def readPacket_end)

theorem proxy_forwards_witness:
  "handleConnection_reads 3 (\<lambda>_. None) 5 \<lparr>sm_data = writePacket [11] @ writePacket [13, 1], sm_end = EOF\<rparr> =
    (True, [\<lparr>pk_PacketType = PacketTypeConnectSend, pk_ChannelID = 5, pk_Payload = [11]\<rparr>,
            \<lparr>pk_PacketType = PacketTypeSend, pk_ChannelID = 5, pk_Payload = [13, 1]\<rparr>,
            \<lparr>pk_PacketType = PacketTypeClose, pk_ChannelID = 5, pk_Payload = []\<rparr>])"
proof -
  have "list_all request_ok [[11], [13, 1]]" by (simp add: request_ok_def)
  from proxy_forwards [OF this, of 5] show ?thesis by (simp add: eval_nat_numeral)
qed

lemma forward_spins:
  "e \<noteq> EOF \<Longrightarrow> forward n (\<lambda>_. None) ch PacketTypeSend k \<lparr>sm_data = [], sm_end = e\<rparr> =
    (False, replicate n (send_packet ch []))"
  by (induction n arbitrary: k) (simp_all add: readPacket_end send_packet_def)

text \<open>(proxy_spins). When a connection ends in an error other than \<^verbatim>\<open>io.EOF\<close> (a reset, say), the goroutine reading it
  never ends: after the requests, however many rounds it is given, it has forwarded one more empty packet in each and
  neither closed the channel nor stopped.\<close>

theorem proxy_spins:
  assumes "list_all request_ok bs" and "e \<noteq> EOF" and "bs \<noteq> []"
  shows "handleConnection_reads (length bs + n) (\<lambda>_. None) ch \<lparr>sm_data = concat (map writePacket bs), sm_end = e\<rparr> =
    (False, frames_of ch PacketTypeConnectSend bs @ replicate n (send_packet ch []))"
  using forward_requests [OF assms(1), of n] assms(3) forward_spins [OF assms(2)]
  by (simp add: handleConnection_reads_def)

theorem proxy_spins_witness:
  "handleConnection_reads 1000 (\<lambda>_. None) 5 \<lparr>sm_data = writePacket [11], sm_end = ErrErrno 104\<rparr> =
    (False, \<lparr>pk_PacketType = PacketTypeConnectSend, pk_ChannelID = 5, pk_Payload = [11]\<rparr> # replicate 999 (send_packet 5 []))"
  using proxy_spins [of "[[11]]" "ErrErrno 104" 999 5] by (simp add: request_ok_def)

text \<open>Channel numbers.\<close>

lemma listenLoop_ids:
  "listenLoop xs ch acc = Some (e, ids) \<Longrightarrow> \<exists>n. ids = acc @ map (\<lambda>i. ch + of_nat i) [0..<n]"
proof (induction xs ch acc rule: listenLoop.induct)
  case (2 e' xs ch acc)
  then show ?case by (auto split: if_splits intro: exI [of _ 0])
next
  case (3 d xs ch acc)
  show ?case
  proof (cases d)
    case (Some e')
    then show ?thesis using 3 by (intro exI [of _ 1]) simp
  next
    case None
    then obtain n where "ids = (acc @ [ch]) @ map (\<lambda>i. ch + 1 + of_nat i) [0..<n]" using 3 by auto
    moreover have "map (\<lambda>i. ch + of_nat i) [0..<Suc n] = ch # map (\<lambda>i. ch + 1 + of_nat i) [0..<n]"
      by (subst upt_conv_Cons) (simp_all add: map_Suc_upt [symmetric] comp_def ac_simps del: upt_Suc)
    ultimately show ?thesis by (intro exI [of _ "Suc n"]) simp
  qed
qed simp

text \<open>(channel_numbers). The accept loop numbers its connections from one upwards; no two of the first 2 to the 32
  share a number, and the one after them reuses the first.\<close>

theorem channel_numbers:
  assumes "listenLoop xs 1 [] = Some (e, ids)"
  shows "(\<forall>i < length ids. ids ! i = of_nat (Suc i)) \<and>
    (if length ids \<le> 2 ^ 32 then distinct ids else ids ! (2 ^ 32) = ids ! 0)"
proof -
  obtain n where n: "ids = map (\<lambda>i. 1 + of_nat i) [0..<n]" using listenLoop_ids [OF assms] by auto
  have "inj_on (\<lambda>i. 1 + of_nat i :: u32) {0..<n}" if "n \<le> 2 ^ 32"
  proof (rule inj_onI)
    fix i j assume ij: "i \<in> {0..<n}" "j \<in> {0..<n}" "1 + of_nat i = (1 + of_nat j :: u32)"
    then have "unat (of_nat i :: u32) = unat (of_nat j :: u32)" by simp
    then show "i = j" using ij that by (simp add: unat_of_nat)
  qed
  moreover have "ids ! (2 ^ 32) = ids ! 0" if "2 ^ 32 < n"
    using that by (simp add: n)
  ultimately show ?thesis by (auto simp: n distinct_map)
qed

theorem channel_numbers_witness:
  "listenLoop [LAccepted None, LFailed (ErrErrno 24), LAccepted (Some Canceled)] 1 [] = Some (Canceled, [1, 2]) \<and> distinct [1, 2 :: u32]"
proof -
  have "listenLoop [LAccepted None, LFailed (ErrErrno 24), LAccepted (Some Canceled)] 1 [] = Some (Canceled, [1, 2])" by simp
  from channel_numbers [OF this] this show ?thesis by simp
qed

text \<open>(proxy_process_lifecycle). A start of the PowerShell process that returns has cancelled the context, so that the
  accept loop ends and starts another; \<^verbatim>\<open>killPwsh\<close> then panics exactly when the process was never started, also
  before the first start, and otherwise signals it and closes both pipes.\<close>

theorem proxy_process_lifecycle:
  assumes "startPowerShellProces env ps = (PwshReturned r, ps1)"
  shows "last (ps_events ps1) = CancelCalled \<and> killPwsh NewPwshIOStream = None \<and>
    killPwsh ps1 =
      (if pe_stdin env = None \<and> pe_stdout env = None \<and> pe_start env = None
       then Some (ps1\<lparr>ps_events := ps_events ps1 @ [SignalTerm, CloseIn, CloseOut]\<rparr>) else None)"
  using assms
  by (auto simp: startPowerShellProces_def killPwsh_def NewPwshIOStream_def Let_def split: option.splits if_splits prod.splits)

definition sample_pwsh_env :: pwsh_env where
  "sample_pwsh_env =
     \<lparr>pe_stdin = None, pe_stdout = None, pe_start = Some (ErrErrno 2), pe_debug = False, pe_script = ''s'',
      pe_first = Inr (bytes_of ''startAgent''), pe_stream = \<lparr>sm_data = [], sm_end = EOF\<rparr>, pe_ctx = \<lambda>_. None\<rparr>"

theorem proxy_process_lifecycle_witness:
  "killPwsh (snd (startPowerShellProces sample_pwsh_env NewPwshIOStream)) = None"
proof -
  have "startPowerShellProces sample_pwsh_env NewPwshIOStream =
      (PwshReturned (ErrErrno 2, None), snd (startPowerShellProces sample_pwsh_env NewPwshIOStream))"
    by (simp add: startPowerShellProces_def sample_pwsh_env_def Let_def)
  from proxy_process_lifecycle [OF this] show ?thesis by (simp add: sample_pwsh_env_def)
qed

lemma proxy_listen_panics:
  "proxy_main fp exists getenv remove listen = ProxyPanics \<longleftrightarrow>
     getenv ''SSH_AUTH_SOCK'' \<noteq> '''' \<and> \<not> (exists (getenv ''SSH_AUTH_SOCK'') \<and> remove (getenv ''SSH_AUTH_SOCK'') \<noteq> None) \<and>
     listen (getenv ''SSH_AUTH_SOCK'') \<noteq> None"
  by (simp add: proxy_main_def killPwsh_def NewPwshIOStream_def Let_def)

end
