(* ===== verification/Legacy_Supervisor.thy ===== *)
theory Legacy_Supervisor
  imports Legacy_Proxy
begin

text \<open>
  The loop of \<^verbatim>\<open>main\<close> of src/old/cmd/wsl2-ssh-agent-proxy/main.go once it listens, with the goroutines it starts: one for each PowerShell
  process, one for each connection and \<^verbatim>\<open>sigStopWorker\<close>.  They share the fields of \<^verbatim>\<open>pwshIOStream\<close> without a lock.
\<close>

section \<open>The goroutines\<close>

text \<open>
  A process's goroutine: not yet run; its command made; the process started; the multiplexer made; returned, with
  the context cancelled.  \<^verbatim>\<open>main\<close> is in \<^verbatim>\<open>Accept\<close> or at the \<^verbatim>\<open>select\<close> after it.
\<close>

datatype proc = Spawned | Creating | Launched | Serving | Ended

datatype main_pc = Accepting | Selecting

datatype fate = Up | CrashNilMultiplexer | CrashNilProcess | Exit0 | Exit1

text \<open>
  \<open>sr_procs\<close> are the goroutines of the rounds of the loop, the last that of the present one; \<open>sr_mux\<close> the round whose multiplexer \<^verbatim>\<open>ps\<close> holds,
  \<open>sr_process\<close> whether \<^verbatim>\<open>ps.cmd.Process\<close> is set; \<open>sr_pending\<close> the connections accepted whose goroutine has not yet
  opened its channel, \<open>sr_conns\<close> those that have, with the round of their multiplexer.
\<close>

record supervisor =
  sr_procs :: "proc list"
  sr_pc :: main_pc
  sr_mux :: "nat option"
  sr_process :: bool
  sr_channel :: u32
  sr_pending :: "u32 list"
  sr_conns :: "(u32 \<times> nat) list"
  sr_fate :: fate

definition sup_start :: supervisor where
  "sup_start =
     \<lparr>sr_procs = [Spawned], sr_pc = Accepting, sr_mux = None, sr_process = False, sr_channel = 1, sr_pending = [], sr_conns = [],
      sr_fate = Up\<rparr>"

definition cancelled :: "supervisor \<Rightarrow> nat \<Rightarrow> bool" where
  "cancelled s r \<longleftrightarrow> sr_procs s ! r = Ended"

text \<open>\<^verbatim>\<open>sigStopWorker\<close> on a signal: \<^verbatim>\<open>killPwsh\<close> dereferences the process, then the program exits.\<close>

definition sigStopWorker :: "bool \<Rightarrow> fate" where
  "sigStopWorker process = (if process then Exit0 else CrashNilProcess)"

text \<open>
  A process can end in any phase: a pipe that cannot be made, a start that fails, the end of its output.  A first output
  other than the expected one ends the program.
\<close>

inductive sup_step :: "supervisor \<Rightarrow> supervisor \<Rightarrow> bool" where
  make: "sr_fate s = Up \<Longrightarrow> r < length (sr_procs s) \<Longrightarrow> sr_procs s ! r = Spawned \<Longrightarrow>
    sup_step s (s\<lparr>sr_procs := (sr_procs s)[r := Creating], sr_process := False\<rparr>)"
| launch: "sr_fate s = Up \<Longrightarrow> r < length (sr_procs s) \<Longrightarrow> sr_procs s ! r = Creating \<Longrightarrow>
    sup_step s (s\<lparr>sr_procs := (sr_procs s)[r := Launched], sr_process := True\<rparr>)"
| serve: "sr_fate s = Up \<Longrightarrow> r < length (sr_procs s) \<Longrightarrow> sr_procs s ! r = Launched \<Longrightarrow>
    sup_step s (s\<lparr>sr_procs := (sr_procs s)[r := Serving], sr_mux := Some r\<rparr>)"
| ends: "sr_fate s = Up \<Longrightarrow> r < length (sr_procs s) \<Longrightarrow> sr_procs s ! r \<in> {Creating, Serving} \<Longrightarrow>
    sup_step s (s\<lparr>sr_procs := (sr_procs s)[r := Ended]\<rparr>)"
| wrong_output: "sr_fate s = Up \<Longrightarrow> r < length (sr_procs s) \<Longrightarrow> sr_procs s ! r = Serving \<Longrightarrow> sup_step s (s\<lparr>sr_fate := Exit1\<rparr>)"
| accept: "sr_fate s = Up \<Longrightarrow> sr_pc s = Accepting \<Longrightarrow>
    sup_step s (s\<lparr>sr_pc := Selecting, sr_pending := sr_pending s @ [sr_channel s], sr_channel := sr_channel s + 1\<rparr>)"
| go_on: "sr_fate s = Up \<Longrightarrow> sr_pc s = Selecting \<Longrightarrow> \<not> cancelled s (length (sr_procs s) - 1) \<Longrightarrow>
    sup_step s (s\<lparr>sr_pc := Accepting\<rparr>)"
| restart: "sr_fate s = Up \<Longrightarrow> sr_pc s = Selecting \<Longrightarrow> cancelled s (length (sr_procs s) - 1) \<Longrightarrow>
    sup_step s (s\<lparr>sr_pc := Accepting, sr_procs := sr_procs s @ [Spawned], sr_channel := 1\<rparr>)"
| open_channel: "sr_fate s = Up \<Longrightarrow> sr_pending s = xs @ c # ys \<Longrightarrow> sr_mux s = Some r \<Longrightarrow>
    sup_step s (s\<lparr>sr_pending := xs @ ys, sr_conns := sr_conns s @ [(c, r)]\<rparr>)"
| open_nil: "sr_fate s = Up \<Longrightarrow> sr_pending s \<noteq> [] \<Longrightarrow> sr_mux s = None \<Longrightarrow> sup_step s (s\<lparr>sr_fate := CrashNilMultiplexer\<rparr>)"
| signalled: "sr_fate s = Up \<Longrightarrow> sup_step s (s\<lparr>sr_fate := sigStopWorker (sr_process s)\<rparr>)"

inductive sup_run :: "supervisor \<Rightarrow> supervisor \<Rightarrow> bool" for s0 where
  start: "sup_run s0 s0"
| step: "sup_run s0 s \<Longrightarrow> sup_step s s1 \<Longrightarrow> sup_run s0 s1"

section \<open>Lemmas\<close>

text \<open>
  Only the last round's process may be running; the multiplexer of \<^verbatim>\<open>ps\<close> is that of a round whose process was
  started, and every open channel is on the multiplexer of such a round.
\<close>

definition was_serving :: "proc list \<Rightarrow> nat \<Rightarrow> bool" where
  "was_serving ps r \<longleftrightarrow> r < length ps \<and> ps ! r \<in> {Serving, Ended}"

definition sup_inv :: "supervisor \<Rightarrow> bool" where
  "sup_inv s \<longleftrightarrow> sr_procs s \<noteq> [] \<and> (\<forall>r. Suc r < length (sr_procs s) \<longrightarrow> sr_procs s ! r = Ended) \<and>
     (\<forall>r. sr_mux s = Some r \<longrightarrow> was_serving (sr_procs s) r) \<and>
     (\<forall>(c, r) \<in> set (sr_conns s). was_serving (sr_procs s) r)"

lemma was_serving_append: "was_serving ps r \<Longrightarrow> was_serving (ps @ [p]) r"
  by (auto simp: was_serving_def nth_append)

lemma was_serving_update:
  "was_serving ps r \<Longrightarrow> p \<in> {Serving, Ended} \<or> ps ! k \<notin> {Serving, Ended} \<Longrightarrow> was_serving (ps[k := p]) r"
  by (cases "r = k") (auto simp: was_serving_def)

lemma was_serving_self: "k < length ps \<Longrightarrow> was_serving (ps[k := Serving]) k"
  by (simp add: was_serving_def)

lemma last_running:
  assumes "sup_inv s" and "r < length (sr_procs s)" and "sr_procs s ! r \<noteq> Ended"
  shows "Suc r = length (sr_procs s)"
  using assms unfolding sup_inv_def by (metis Suc_lessI)

lemma sup_inv_update:
  assumes "sup_inv s" and "r < length (sr_procs s)" and "sr_procs s ! r \<noteq> Ended"
    and "p \<in> {Serving, Ended} \<or> sr_procs s ! r \<notin> {Serving, Ended}"
    and "s1 = s\<lparr>sr_procs := (sr_procs s)[r := p], sr_process := b\<rparr>"
  shows "sup_inv s1"
proof -
  have l: "Suc r = length (sr_procs s)" by (rule last_running) (use assms in simp_all)
  have w: "was_serving ((sr_procs s)[r := p]) k" if "was_serving (sr_procs s) k" for k
    using that assms(4) by (intro was_serving_update) auto
  have "\<forall>k. Suc k < length (sr_procs s) \<longrightarrow> (sr_procs s)[r := p] ! k = Ended"
  proof (intro allI impI)
    fix k assume k: "Suc k < length (sr_procs s)"
    then have "k \<noteq> r" using l by simp
    then show "(sr_procs s)[r := p] ! k = Ended" using assms(1) k by (simp add: sup_inv_def)
  qed
  moreover have "\<forall>k. sr_mux s = Some k \<longrightarrow> was_serving ((sr_procs s)[r := p]) k"
    using assms(1) w by (simp add: sup_inv_def)
  moreover have "\<forall>(c, k) \<in> set (sr_conns s). was_serving ((sr_procs s)[r := p]) k"
    using assms(1) w by (fastforce simp: sup_inv_def)
  ultimately show ?thesis using assms(2,5) by (auto simp: sup_inv_def)
qed

lemma sup_step_inv:
  assumes "sup_step s s1" and "sup_inv s"
  shows "sup_inv s1"
  using assms(1)
proof cases
  case (make r)
  show ?thesis by (rule sup_inv_update [of s r Creating s1 False]) (use make assms(2) in simp_all)
next
  case (launch r)
  show ?thesis by (rule sup_inv_update [of s r Launched s1 True]) (use launch assms(2) in simp_all)
next
  case (serve r)
  have "sup_inv (s\<lparr>sr_procs := (sr_procs s)[r := Serving], sr_process := sr_process s\<rparr>)"
    by (rule sup_inv_update [of s r Serving _ "sr_process s"]) (use serve assms(2) in simp_all)
  moreover have "was_serving ((sr_procs s)[r := Serving]) r" using serve by (intro was_serving_self)
  ultimately show ?thesis using serve by (auto simp: sup_inv_def split: option.splits)
next
  case (ends r)
  have e: "sr_procs s ! r \<noteq> Ended" using ends(4) by auto
  show ?thesis by (rule sup_inv_update [of s r Ended s1 "sr_process s"]) (use ends e assms(2) in simp_all)
next
  case restart
  have "\<forall>r. Suc r < length (sr_procs s @ [Spawned]) \<longrightarrow> (sr_procs s @ [Spawned]) ! r = Ended"
  proof (intro allI impI)
    fix r assume r: "Suc r < length (sr_procs s @ [Spawned])"
    show "(sr_procs s @ [Spawned]) ! r = Ended"
    proof (cases "Suc r < length (sr_procs s)")
      case True
      then show ?thesis using assms(2) by (simp add: sup_inv_def nth_append)
    next
      case False
      then have "r = length (sr_procs s) - 1" "r < length (sr_procs s)" using r by auto
      then show ?thesis using restart by (simp add: cancelled_def nth_append)
    qed
  qed
  then show ?thesis using restart assms(2)
    by (auto simp: sup_inv_def was_serving_append split: option.splits)
next
  case (open_channel xs c ys r)
  then show ?thesis using assms(2) by (auto simp: sup_inv_def)
qed (use assms(2) in \<open>simp_all add: sup_inv_def\<close>)

lemma sup_run_inv: "sup_run s0 s \<Longrightarrow> sup_inv s0 \<Longrightarrow> sup_inv s"
  by (induction rule: sup_run.induct) (auto intro: sup_step_inv)

lemma sup_start_inv [simp]: "sup_inv sup_start"
  by (simp add: sup_inv_def sup_start_def)

lemma sup_run_trans: "sup_run s1 s2 \<Longrightarrow> sup_run s0 s1 \<Longrightarrow> sup_run s0 s2"
  by (induction rule: sup_run.induct) (auto intro: sup_run.step)

section \<open>Properties\<close>



text \<open>
  (proxy_restart_gaps). A connection accepted before the first process serves crashes the proxy, as does a signal before that process was started; and a
  connection that comes when the process has ended is opened on the multiplexer of the ended process before another is started.\<close>

theorem proxy_restart_gaps:
  "(\<exists>s. sup_run sup_start s \<and> sr_fate s = CrashNilMultiplexer) \<and>
   (\<exists>s. sup_run sup_start s \<and> sr_fate s = CrashNilProcess) \<and>
   (\<exists>s. sup_run sup_start s \<and> sr_procs s = [Ended, Spawned] \<and> sr_conns s = [(1, 0)] \<and> sr_fate s = Up)"
proof (intro conjI)
  let ?s1 = "sup_start\<lparr>sr_pc := Selecting, sr_pending := [1], sr_channel := 2\<rparr>"
  have "sup_step sup_start ?s1" using sup_step.accept [of sup_start] by (simp add: sup_start_def)
  moreover have "sup_step ?s1 (?s1\<lparr>sr_fate := CrashNilMultiplexer\<rparr>)" by (rule sup_step.open_nil) (simp_all add: sup_start_def)
  ultimately show "\<exists>s. sup_run sup_start s \<and> sr_fate s = CrashNilMultiplexer"
    using sup_run.step [OF sup_run.step [OF sup_run.start]] by fastforce
  have "sup_step sup_start (sup_start\<lparr>sr_fate := CrashNilProcess\<rparr>)" using sup_step.signalled [of sup_start] by (simp add: sup_start_def sigStopWorker_def)
  then show "\<exists>s. sup_run sup_start s \<and> sr_fate s = CrashNilProcess"
    using sup_run.step [OF sup_run.start] by fastforce
next
  let ?a = "sup_start\<lparr>sr_procs := [Creating], sr_process := False\<rparr>"
  let ?b = "sup_start\<lparr>sr_procs := [Launched], sr_process := True\<rparr>"
  let ?c = "sup_start\<lparr>sr_procs := [Serving], sr_process := True, sr_mux := Some 0\<rparr>"
  let ?d = "sup_start\<lparr>sr_procs := [Ended], sr_process := True, sr_mux := Some 0\<rparr>"
  let ?e = "?d\<lparr>sr_pc := Selecting, sr_pending := [1], sr_channel := 2\<rparr>"
  let ?f = "?e\<lparr>sr_pending := [], sr_conns := [(1, 0)]\<rparr>"
  let ?g = "?f\<lparr>sr_pc := Accepting, sr_procs := [Ended, Spawned], sr_channel := 1\<rparr>"
  have "sup_step sup_start ?a" using sup_step.make [of sup_start 0] by (simp add: sup_start_def)
  moreover have "sup_step ?a ?b" using sup_step.launch [of ?a 0] by (simp add: sup_start_def)
  moreover have "sup_step ?b ?c" using sup_step.serve [of ?b 0] by (simp add: sup_start_def)
  moreover have "sup_step ?c ?d" using sup_step.ends [of ?c 0] by (simp add: sup_start_def)
  moreover have "sup_step ?d ?e" using sup_step.accept [of ?d] by (simp add: sup_start_def)
  moreover have "sup_step ?e ?f" using sup_step.open_channel [of ?e "[]" 1 "[]" 0] by (simp add: sup_start_def)
  moreover have "sup_step ?f ?g" using sup_step.restart [of ?f] by (simp add: sup_start_def cancelled_def)
  ultimately have "sup_run sup_start ?g" by (meson sup_run.intros)
  then show "\<exists>s. sup_run sup_start s \<and> sr_procs s = [Ended, Spawned] \<and> sr_conns s = [(1, 0)] \<and> sr_fate s = Up"
    by (intro exI [of _ ?g] conjI) (simp_all add: sup_start_def)
qed

end
