(* ===== verification/Legacy_Keyring.thy ===== *)
theory Legacy_Keyring
  imports Component
begin

text \<open>
  The keys of the previous program: the settings file (src/old/pkg/store/store.go), the records of
  key files (sshkey/sshkey.go), the key ring that wraps an agent (sshutil/sshutil.go), the client
  for another agent's pipe (namedpipe/client.go) and the operations of the window on them (src/old/app.go).

  The credential store of the operating system, UUIDs, JSON, the parsers of private keys and the fingerprints are
  parameters.  A nil pointer that is dereferenced and a negative capacity panic.
\<close>

section \<open>sshkey.go and store.go\<close>

record KeyInfo =
  sk_MD5 :: string
  sk_SHA256 :: string
  sk_Type :: string
  sk_Comment :: string
  sk_String :: string

record PrivateKeyFile =
  pf_ID :: string
  pf_Name :: string
  pf_FilePath :: string
  pf_FileType :: string
  pf_StoreType :: string
  pf_Encryption :: bool
  pf_Passphrase :: string
  pf_PublicKey :: KeyInfo

record SaveData =
  sd_Keys :: "PrivateKeyFile list"
  sd_StartHidden :: bool
  sd_PageantAgent :: bool
  sd_NamedPipeAgent :: bool
  sd_UnixSocketAgent :: bool
  sd_CygWinAgent :: bool
  sd_ShowBalloon :: bool
  sd_UnixSocketPath :: string
  sd_CygWinSocketPath :: string
  sd_ProxyModeOfNamedPipe :: bool
  sd_DebugLog :: bool

text \<open>\<open>sv_get\<close>, \<open>sv_set\<close> and \<open>sv_remove\<close> say which calls of the credential store fail, by key.\<close>

record store_env =
  sv_fp :: filepath_ops
  sv_os :: os_env
  sv_getenv :: "string \<Rightarrow> string"
  sv_isDir :: "string \<Rightarrow> bool"
  sv_Marshal :: "SaveData \<Rightarrow> bytes result"
  sv_Unmarshal :: "bytes \<Rightarrow> SaveData result"
  sv_AppName :: string
  sv_get :: "string \<Rightarrow> goerr option"
  sv_set :: "string \<Rightarrow> goerr option"
  sv_remove :: "string \<Rightarrow> goerr option"

record store_state =
  so_data :: SaveData
  so_secrets :: "string \<rightharpoonup> string"
  so_os :: world

text \<open>\<open>stat\<close> is the error of \<^verbatim>\<open>os.Stat\<close>, or whether it found a directory; \<open>sv_isDir\<close> above is this function.\<close>

definition isDir :: "(string \<Rightarrow> bool result) \<Rightarrow> string \<Rightarrow> bool" where
  "isDir stat dir = (case stat dir of Inl _ \<Rightarrow> False | Inr d \<Rightarrow> d)"

definition NewSettings :: "string \<Rightarrow> store_env \<Rightarrow> store_env" where
  "NewSettings appName se = se\<lparr>sv_AppName := appName\<rparr>"

text \<open>\<^verbatim>\<open>initSetting\<close>: \<^verbatim>\<open>os.UserHomeDir\<close> is \<^verbatim>\<open>USERPROFILE\<close>, its error ignored.\<close>

definition initSetting :: "store_env \<Rightarrow> SaveData" where
  "initSetting se =
     (let home = sv_getenv se ''USERPROFILE'' in
      \<lparr>sd_Keys = [], sd_StartHidden = False, sd_PageantAgent = True, sd_NamedPipeAgent = True, sd_UnixSocketAgent = True,
       sd_CygWinAgent = True, sd_ShowBalloon = True,
       sd_UnixSocketPath = fp_Join (sv_fp se) [home, ''OmniSSHAgent.sock''],
       sd_CygWinSocketPath = fp_Join (sv_fp se) [home, ''OmniSSHCygwin.sock''],
       sd_ProxyModeOfNamedPipe = False, sd_DebugLog = False\<rparr>)"

text \<open>\<^verbatim>\<open>os.WriteFile\<close> truncates the file first, then writes and closes it.\<close>

definition os_WriteFile :: "os_env \<Rightarrow> string \<Rightarrow> bytes \<Rightarrow> world \<Rightarrow> goerr option \<times> world" where
  "os_WriteFile env p d w =
     (case fault_of env (CallOpen p) w of
        Some e \<Rightarrow> (Some e, record_call (CallOpen p) (w_files w) w)
      | None \<Rightarrow>
          (let w1 = record_call (CallOpen p) ((w_files w)(p \<mapsto> \<lparr>f_data = [], f_regular = True, f_attrs = 0\<rparr>)) w in
           case os_Write env p d w1 of (r, w2) \<Rightarrow>
             (case os_plain env (CallClose p) w2 of (c, w3) \<Rightarrow> (if r = None then c else r, w3))))"

definition settings_path :: "store_env \<Rightarrow> string \<Rightarrow> string" where
  "settings_path se dir = fp_Join (sv_fp se) [dir, sv_AppName se, ''settings.json'']"

definition Settings_Save :: "store_env \<Rightarrow> store_state \<Rightarrow> goerr option \<times> store_state" where
  "Settings_Save se s =
     (case UserConfigDir (sv_getenv se) of
        Inl e \<Rightarrow> (Some e, s)
      | Inr conf \<Rightarrow>
          (let dir = fp_Join (sv_fp se) [conf, sv_AppName se];
               mk = (if sv_isDir se dir then (None, so_os s) else os_plain (sv_os se) (CallMkdirAll dir) (so_os s)) in
           case mk of
             (Some e, w1) \<Rightarrow> (Some (ErrWrap ''mkdir'' e), s\<lparr>so_os := w1\<rparr>)
           | (None, w1) \<Rightarrow>
               (case sv_Marshal se (so_data s) of
                  Inl e \<Rightarrow> (Some e, s\<lparr>so_os := w1\<rparr>)
                | Inr b \<Rightarrow>
                    (case os_WriteFile (sv_os se) (settings_path se conf) b w1 of (r, w2) \<Rightarrow> (r, s\<lparr>so_os := w2\<rparr>)))))"

text \<open>\<^verbatim>\<open>Load\<close>: whatever the error of reading, the settings become the defaults and are saved.\<close>

definition Settings_Load :: "store_env \<Rightarrow> store_state \<Rightarrow> goerr option \<times> store_state" where
  "Settings_Load se s =
     (case UserConfigDir (sv_getenv se) of
        Inl e \<Rightarrow> (Some e, s)
      | Inr conf \<Rightarrow>
          (case os_ReadFile (sv_os se) (settings_path se conf) (so_os s) of
             (Inl e, w1) \<Rightarrow> Settings_Save se (s\<lparr>so_data := initSetting se, so_os := w1\<rparr>)
           | (Inr b, w1) \<Rightarrow>
               (case sv_Unmarshal se b of
                  Inl e \<Rightarrow> (Some e, s\<lparr>so_os := w1\<rparr>)
                | Inr d \<Rightarrow> (None, s\<lparr>so_data := d, so_os := w1\<rparr>))))"

definition secret_Get :: "store_env \<Rightarrow> string \<Rightarrow> store_state \<Rightarrow> string result" where
  "secret_Get se key s =
     (case sv_get se key of
        Some e \<Rightarrow> Inl e
      | None \<Rightarrow> (case so_secrets s key of Some v \<Rightarrow> Inr v | None \<Rightarrow> Inl (ErrSentinel ''keyring.ErrNotFound'')))"

definition secret_Set :: "store_env \<Rightarrow> string \<Rightarrow> string \<Rightarrow> store_state \<Rightarrow> goerr option \<times> store_state" where
  "secret_Set se key v s =
     (case sv_set se key of Some e \<Rightarrow> (Some e, s) | None \<Rightarrow> (None, s\<lparr>so_secrets := (so_secrets s)(key \<mapsto> v)\<rparr>))"

definition secret_Remove :: "store_env \<Rightarrow> string \<Rightarrow> store_state \<Rightarrow> goerr option \<times> store_state" where
  "secret_Remove se key s =
     (case sv_remove se key of Some e \<Rightarrow> (Some e, s) | None \<Rightarrow> (None, s\<lparr>so_secrets := (so_secrets s)(key := None)\<rparr>))"

section \<open>sshutil.go: key files\<close>

record puttyKey =
  pu_Algo :: string
  pu_Encryption :: string
  pu_Comment :: string
  pu_Parse :: "string \<Rightarrow> bytes result"

record key_ops =
  ko_putty :: "string \<Rightarrow> puttyKey result"
  ko_ParseRaw :: "bytes \<Rightarrow> bytes result"
  ko_ParseWith :: "bytes \<Rightarrow> string \<Rightarrow> bytes result"
  ko_missing :: "goerr \<Rightarrow> bool"
  ko_Signer :: "bytes \<Rightarrow> PublicKey result"
  ko_ParsePublicKey :: "bytes \<Rightarrow> PublicKey result"
  ko_MD5 :: "PublicKey \<Rightarrow> string"
  ko_SHA256 :: "PublicKey \<Rightarrow> string"
  ko_base64 :: "bytes \<Rightarrow> string"

text \<open>Hashes are a parameter, of any length; the text is hexadecimal.  A value that cannot be encoded is dumped as nothing.\<close>

definition fpMD5 :: "(bytes \<Rightarrow> bytes) \<Rightarrow> bytes \<Rightarrow> string" where
  "fpMD5 md5Sum blob = hex_EncodeToString (md5Sum blob)"

definition fpSHA256 :: "(bytes \<Rightarrow> bytes) \<Rightarrow> bytes \<Rightarrow> string" where
  "fpSHA256 sha256Sum blob = hex_EncodeToString (sha256Sum blob)"

definition JSONDump :: "bytes result \<Rightarrow> string" where
  "JSONDump marshalled = (case marshalled of Inl _ \<Rightarrow> '''' | Inr b \<Rightarrow> string_of b)"

definition generatePrivateKey :: "'k result \<Rightarrow> ('k \<Rightarrow> goerr option) \<Rightarrow> 'k result" where
  "generatePrivateKey generated validate =
     (case generated of
        Inl e \<Rightarrow> Inl e
      | Inr k \<Rightarrow> (case validate k of Some e \<Rightarrow> Inl e | None \<Rightarrow> Inr k))"

definition LocalStore :: string where "LocalStore = ''LocalStore''"

definition publicKeyString :: "key_ops \<Rightarrow> PublicKey \<Rightarrow> string \<Rightarrow> string" where
  "publicKeyString ko k comment =
     pk_Type k @ '' '' @ ko_base64 ko (pk_Blob k) @ (if 0 < length comment then '' '' @ comment else '''')"

definition getkeyInfo :: "key_ops \<Rightarrow> PublicKey \<Rightarrow> string \<Rightarrow> KeyInfo" where
  "getkeyInfo ko pub comment =
     \<lparr>sk_MD5 = ko_MD5 ko pub, sk_SHA256 = ko_SHA256 ko pub, sk_Type = pk_Type pub, sk_Comment = comment,
      sk_String = publicKeyString ko pub comment\<rparr>"

definition no_info :: KeyInfo where
  "no_info = \<lparr>sk_MD5 = '''', sk_SHA256 = '''', sk_Type = '''', sk_Comment = '''', sk_String = ''''\<rparr>"

definition key_file :: "string \<Rightarrow> string \<Rightarrow> KeyInfo \<Rightarrow> bool \<Rightarrow> PrivateKeyFile" where
  "key_file path fileType info enc =
     \<lparr>pf_ID = '''', pf_Name = '''', pf_FilePath = path, pf_FileType = fileType, pf_StoreType = LocalStore,
      pf_Encryption = enc, pf_Passphrase = '''', pf_PublicKey = info\<rparr>"

definition plain_added :: "bytes \<Rightarrow> string \<Rightarrow> AddedKey" where
  "plain_added key comment =
     \<lparr>add_PrivateKey = key, add_Comment = comment, add_LifetimeSecs = 0, add_ConfirmBeforeUse = False\<rparr>"

text \<open>\<^verbatim>\<open>LoadKeyfile\<close>: the key to add is nil, without an error, for an encrypted key and no passphrase.\<close>

definition LoadKeyfile ::
  "key_ops \<Rightarrow> os_env \<Rightarrow> string \<Rightarrow> string \<Rightarrow> world \<Rightarrow> (PrivateKeyFile \<times> AddedKey option) result \<times> world" where
  "LoadKeyfile ko env path pass w =
     (case ko_putty ko path of
        Inr pu \<Rightarrow>
          (let enc = (pu_Encryption pu \<noteq> ''none'') in
           (if pass = '''' \<and> enc then Inr (key_file path ''ppk'' (no_info\<lparr>sk_Type := pu_Algo pu\<rparr>) enc, None)
            else
              (case pu_Parse pu pass of
                 Inl _ \<Rightarrow> Inl (ErrNew ''faild decrypto'')
               | Inr pk \<Rightarrow>
                   rbind (ko_Signer ko pk) (\<lambda>signer.
                     Inr (key_file path ''ppk'' (getkeyInfo ko signer (pu_Comment pu)) enc, Some (plain_added pk (pu_Comment pu)))))),
            w)
      | Inl _ \<Rightarrow>
          (case os_ReadFile env path w of
             (Inl e, w1) \<Rightarrow> (Inl e, w1)
           | (Inr pem, w1) \<Rightarrow>
               (if pass = '''' then
                  (case ko_ParseRaw ko pem of
                     Inr key \<Rightarrow>
                       rbind (ko_Signer ko key) (\<lambda>signer.
                         Inr (key_file path ''OpenSSH'' (getkeyInfo ko signer '''') False, Some (plain_added key '''')))
                   | Inl e \<Rightarrow> if ko_missing ko e then Inr (key_file path ''OpenSSH'' no_info True, None) else Inl e)
                else
                  rbind (ko_ParseWith ko pem pass) (\<lambda>key.
                  rbind (ko_Signer ko key) (\<lambda>signer.
                    Inr (key_file path ''OpenSSH'' (getkeyInfo ko signer '''') True, Some (plain_added key '''')))),
                w1)))"

definition CheckKeyType :: "key_ops \<Rightarrow> os_env \<Rightarrow> string \<Rightarrow> string \<Rightarrow> world \<Rightarrow> PrivateKeyFile result \<times> world" where
  "CheckKeyType ko env path pass w =
     (case LoadKeyfile ko env path pass w of (r, w1) \<Rightarrow> (rbind r (\<lambda>x. Inr (fst x)), w1))"

section \<open>sshutil.go: the key ring\<close>

text \<open>
  The ring's own state beside the agent it wraps: the notices its callback was given, in the order they were started.
\<close>

record 's ring =
  rg_agent :: 's
  rg_callback :: bool
  rg_notices :: "string list"

definition notice :: "string \<Rightarrow> 's ring \<Rightarrow> 's ring" where
  "notice action r = (if rg_callback r then r\<lparr>rg_notices := rg_notices r @ [action]\<rparr> else r)"

text \<open>The body of the wrapped methods: a notice, the agent's method, a deferred notice.\<close>

definition noticed :: "string \<Rightarrow> string \<Rightarrow> ('s \<Rightarrow> 'a result \<times> 's) \<Rightarrow> 's ring \<Rightarrow> 'a result \<times> 's ring" where
  "noticed before after f r =
     (case f (rg_agent (notice before r)) of (x, s) \<Rightarrow> (x, notice after ((notice before r)\<lparr>rg_agent := s\<rparr>)))"

definition ring_agent :: "'s ExtendedAgent \<Rightarrow> 's ring ExtendedAgent" where
  "ring_agent a =
     \<lparr>ag_List = noticed ''List'' ''Listed'' (ag_List a),
      ag_SignWithFlags = (\<lambda>k d f. noticed ''SignWithFlags'' ''SignedWithFlags'' (ag_SignWithFlags a k d f)),
      ag_Sign = (\<lambda>k d. noticed ''Sign'' ''Signed'' (ag_Sign a k d)),
      ag_Add = (\<lambda>k. noticed ''Add'' ''Added'' (ag_Add a k)),
      ag_Remove = (\<lambda>k. noticed ''Remove'' ''Removed'' (ag_Remove a k)),
      ag_RemoveAll = noticed ''RemoveAll'' ''RemovedAll'' (ag_RemoveAll a),
      ag_Lock = (\<lambda>p. noticed ''Lock'' ''Locked'' (ag_Lock a p)),
      ag_Unlock = (\<lambda>p. noticed ''UnLock'' ''UnLocked'' (ag_Unlock a p)),
      ag_Signers = noticed ''Signers'' ''Signers'' (ag_Signers a),
      ag_Extension = (\<lambda>t d r. case ag_Extension a t d (rg_agent r) of (x, s) \<Rightarrow> (x, (notice ''Extension'' r)\<lparr>rg_agent := s\<rparr>))\<rparr>"

text \<open>\<^verbatim>\<open>extendedKeyringWrapper\<close>: an agent without the extended methods.\<close>

definition wrapped_keyring :: "'s ExtendedAgent \<Rightarrow> 's ExtendedAgent" where
  "wrapped_keyring a =
     a\<lparr>ag_SignWithFlags := (\<lambda>k d _. ag_Sign a k d), ag_Extension := (\<lambda>_ _ s. (Inl (ErrNew ''extension not supported''), s))\<rparr>"

text \<open>\<^verbatim>\<open>NewKeyRing\<close>: the pipe client in proxy mode, else the keyring, wrapped if it is not an extended agent.\<close>

definition NewKeyRing :: "SaveData \<Rightarrow> 's ExtendedAgent \<Rightarrow> bool \<Rightarrow> 's ExtendedAgent \<Rightarrow> 's ExtendedAgent" where
  "NewKeyRing d keyring extended pipe =
     (if sd_ProxyModeOfNamedPipe d then pipe else if extended then keyring else wrapped_keyring keyring)"

definition public_of :: "AgentKey \<Rightarrow> PublicKey" where
  "public_of k = \<lparr>pk_Type = ak_Format k, pk_Blob = ak_Blob k\<rparr>"

definition listed_info :: "key_ops \<Rightarrow> AgentKey \<Rightarrow> KeyInfo" where
  "listed_info ko k =
     \<lparr>sk_MD5 = ko_MD5 ko (public_of k), sk_SHA256 = ko_SHA256 ko (public_of k), sk_Type = ak_Format k,
      sk_Comment = ak_Comment k, sk_String = ak_Format k @ '' '' @ ko_base64 ko (ak_Blob k) @
        (if ak_Comment k \<noteq> '''' then '' '' @ ak_Comment k else '''')\<rparr>"

text \<open>What the operations below run in: the ring beside the store.\<close>

record 's keyring_state =
  kr_ring :: "'s ring"
  kr_store :: store_state
  kr_uuids :: nat

record 's keyring_env =
  kv_agent :: "'s ExtendedAgent"
  kv_store :: store_env
  kv_keys :: key_ops
  kv_uuid :: "nat \<Rightarrow> string result"

definition on_ring :: "('s ring \<Rightarrow> 'a \<times> 's ring) \<Rightarrow> 's keyring_state \<Rightarrow> 'a \<times> 's keyring_state" where
  "on_ring f s = (case f (kr_ring s) of (x, r) \<Rightarrow> (x, s\<lparr>kr_ring := r\<rparr>))"

definition listPublickeys :: "'s keyring_env \<Rightarrow> 's keyring_state \<Rightarrow> KeyInfo list result \<times> 's keyring_state" where
  "listPublickeys kv s =
     (case on_ring (ag_List (ring_agent (kv_agent kv))) s of (r, s1) \<Rightarrow>
        (rbind r (\<lambda>ks. Inr (map (listed_info (kv_keys kv)) ks)), s1))"

definition stored_keys :: "'s keyring_state \<Rightarrow> PrivateKeyFile list" where
  "stored_keys s = sd_Keys (so_data (kr_store s))"

definition set_keys :: "PrivateKeyFile list \<Rightarrow> 's keyring_state \<Rightarrow> 's keyring_state" where
  "set_keys ks s = s\<lparr>kr_store := (kr_store s)\<lparr>so_data := (so_data (kr_store s))\<lparr>sd_Keys := ks\<rparr>\<rparr>\<rparr>"

definition AddKeySettings :: "'s keyring_env \<Rightarrow> PrivateKeyFile \<Rightarrow> 's keyring_state \<Rightarrow> string result \<times> 's keyring_state" where
  "AddKeySettings kv key s =
     (case kv_uuid kv (kr_uuids s) of
        Inl e \<Rightarrow> (Inl e, s\<lparr>kr_uuids := Suc (kr_uuids s)\<rparr>)
      | Inr kid \<Rightarrow>
          (let s1 = set_keys (stored_keys s @ [key\<lparr>pf_ID := kid, pf_Passphrase := ''''\<rparr>]) (s\<lparr>kr_uuids := Suc (kr_uuids s)\<rparr>) in
           case secret_Set (kv_store kv) kid (pf_Passphrase key) (kr_store s1) of
             (Some e, st) \<Rightarrow> (Inl e, s1\<lparr>kr_store := st\<rparr>)
           | (None, st) \<Rightarrow>
               (case Settings_Save (kv_store kv) st of
                  (Some e, st2) \<Rightarrow> (Inl e, s1\<lparr>kr_store := st2\<rparr>)
                | (None, st2) \<Rightarrow> (Inr kid, s1\<lparr>kr_store := st2\<rparr>))))"

text \<open>
  \<^verbatim>\<open>DeleteKeySettings\<close>: the identifier of the last key with the hash, and the keys without it.  The
  slice is made with a capacity one below the number of keys, which panics for none.
\<close>

fun last_id :: "string \<Rightarrow> PrivateKeyFile list \<Rightarrow> string \<Rightarrow> string" where
  "last_id sha [] i = i"
| "last_id sha (k # ks) i = last_id sha ks (if sk_SHA256 (pf_PublicKey k) = sha then pf_ID k else i)"

definition DeleteKeySettings :: "'s keyring_env \<Rightarrow> string \<Rightarrow> 's keyring_state \<Rightarrow> goerr option outcome \<times> 's keyring_state" where
  "DeleteKeySettings kv sha s =
     (if stored_keys s = [] then (Panicked ''makeslice: cap out of range'', s)
      else
        (let kid = last_id sha (stored_keys s) '''';
             s1 = set_keys (filter (\<lambda>k. sk_SHA256 (pf_PublicKey k) \<noteq> sha) (stored_keys s)) s in
         if kid = '''' then (Returned None, s1)
         else
           (case Settings_Save (kv_store kv) (snd (secret_Remove (kv_store kv) kid (kr_store s1))) of
              (r, st) \<Rightarrow> (Returned r, s1\<lparr>kr_store := st\<rparr>))))"

fun getKey_id :: "string \<Rightarrow> PrivateKeyFile list \<Rightarrow> PrivateKeyFile option" where
  "getKey_id i [] = None"
| "getKey_id i (k # ks) = (if pf_ID k = i then Some k else getKey_id i ks)"

definition AddKey :: "'s keyring_env \<Rightarrow> string \<Rightarrow> 's keyring_state \<Rightarrow> goerr option outcome \<times> 's keyring_state" where
  "AddKey kv keyID s =
     (case getKey_id keyID (stored_keys s) of
        None \<Rightarrow> (Returned (Some (ErrNew (''Not found key ID:'' @ keyID))), s)
      | Some pkf \<Rightarrow>
          (case listPublickeys kv s of
             (Inl e, s1) \<Rightarrow> (Returned (Some e), s1)
           | (Inr infos, s1) \<Rightarrow>
               if list_ex (\<lambda>i. sk_SHA256 (pf_PublicKey pkf) = sk_SHA256 i) infos then (Returned None, s1)
               else
                 (case secret_Get (kv_store kv) keyID (kr_store s1) of
                    Inl e \<Rightarrow> (Returned (Some e), s1)
                  | Inr pf \<Rightarrow>
                      (case LoadKeyfile (kv_keys kv) (sv_os (kv_store kv)) (pf_FilePath pkf) pf (so_os (kr_store s1)) of
                         (r, w) \<Rightarrow>
                           (let s2 = s1\<lparr>kr_store := (kr_store s1)\<lparr>so_os := w\<rparr>\<rparr> in
                            case r of
                              Inl e \<Rightarrow> (Returned (Some e), s2)
                            | Inr (_, None) \<Rightarrow> (Panicked ''nil pointer dereference'', s2)
                            | Inr (_, Some key) \<Rightarrow>
                                (case on_ring (ag_Add (ring_agent (kv_agent kv)) key) s2 of (x, s3) \<Rightarrow> (Returned (err_of x), s3)))))))"

text \<open>\<^verbatim>\<open>AddKeys\<close> stops at the first error; a panic ends it too.\<close>

fun AddKeys_from :: "'s keyring_env \<Rightarrow> PrivateKeyFile list \<Rightarrow> 's keyring_state \<Rightarrow> goerr option outcome \<times> 's keyring_state" where
  "AddKeys_from kv [] s = (Returned None, s)"
| "AddKeys_from kv (k # ks) s =
     (case AddKey kv (pf_ID k) s of
        (Returned None, s1) \<Rightarrow> AddKeys_from kv ks s1
      | (r, s1) \<Rightarrow> (r, s1))"

definition AddKeys :: "'s keyring_env \<Rightarrow> 's keyring_state \<Rightarrow> goerr option outcome \<times> 's keyring_state" where
  "AddKeys kv s = AddKeys_from kv (stored_keys s) s"

fun find_sha :: "key_ops \<Rightarrow> string \<Rightarrow> AgentKey list \<Rightarrow> AgentKey option" where
  "find_sha ko sha [] = None"
| "find_sha ko sha (k # ks) = (if ko_SHA256 ko (public_of k) = sha then Some k else find_sha ko sha ks)"

definition RemoveKey :: "'s keyring_env \<Rightarrow> string \<Rightarrow> 's keyring_state \<Rightarrow> goerr option \<times> 's keyring_state" where
  "RemoveKey kv sha s =
     (case on_ring (ag_List (ring_agent (kv_agent kv))) s of
        (Inl e, s1) \<Rightarrow> (Some e, s1)
      | (Inr ks, s1) \<Rightarrow>
          (case find_sha (kv_keys kv) sha ks of
             None \<Rightarrow> (None, s1)
           | Some k \<Rightarrow>
               (case ko_ParsePublicKey (kv_keys kv) (ak_Blob k) of
                  Inl e \<Rightarrow> (Some e, s1)
                | Inr pub \<Rightarrow> (case on_ring (ag_Remove (ring_agent (kv_agent kv)) pub) s1 of (r, s2) \<Rightarrow> (err_of r, s2)))))"

fun getKey :: "PrivateKeyFile list \<Rightarrow> KeyInfo \<Rightarrow> PrivateKeyFile option" where
  "getKey [] pub = None"
| "getKey (k # ks) pub = (if sk_SHA256 (pf_PublicKey k) = sk_SHA256 pub then Some k else getKey ks pub)"

definition hasKey :: "KeyInfo list \<Rightarrow> PrivateKeyFile \<Rightarrow> bool" where
  "hasKey pubs pkf = list_ex (\<lambda>p. sk_SHA256 p = sk_SHA256 (pf_PublicKey pkf)) pubs"

definition agent_only :: "KeyInfo \<Rightarrow> PrivateKeyFile" where
  "agent_only info =
     \<lparr>pf_ID = '''', pf_Name = '''', pf_FilePath = '''', pf_FileType = '''', pf_StoreType = '''', pf_Encryption = False,
      pf_Passphrase = '''', pf_PublicKey = info\<rparr>"

definition mergeKeyList :: "PrivateKeyFile list \<Rightarrow> KeyInfo list \<Rightarrow> PrivateKeyFile list" where
  "mergeKeyList keys agentKeys =
     map (\<lambda>a. case getKey keys a of None \<Rightarrow> agent_only a | Some k \<Rightarrow> k) agentKeys @
     filter (\<lambda>k. \<not> hasKey agentKeys k) keys"

definition KeyList :: "'s keyring_env \<Rightarrow> 's keyring_state \<Rightarrow> PrivateKeyFile list result \<times> 's keyring_state" where
  "KeyList kv s =
     (case listPublickeys kv s of (r, s1) \<Rightarrow> (rbind r (\<lambda>infos. Inr (mergeKeyList (stored_keys s1) infos)), s1))"

definition FindPrivKey :: "'s keyring_env \<Rightarrow> PublicKey \<Rightarrow> 's keyring_state \<Rightarrow> PrivateKeyFile option \<times> 's keyring_state" where
  "FindPrivKey kv pub s =
     (case KeyList kv s of
        (Inl e, s1) \<Rightarrow> (None, s1)
      | (Inr ks, s1) \<Rightarrow> (find (\<lambda>k. sk_SHA256 (pf_PublicKey k) = ko_SHA256 (kv_keys kv) pub) ks, s1))"

section \<open>namedpipe/client.go\<close>

text \<open>
  \<open>np_conn\<close> is the connection the client keeps; every method closes it when it returns, so that it
  dials anew each time.  \<open>dial n\<close> is the error of the n-th dial.
\<close>

record 's pipe_client =
  np_conn :: "nat option"
  np_dials :: nat
  np_remote :: 's
  np_closed :: "nat list"

definition np_dial :: "(nat \<Rightarrow> goerr option) \<Rightarrow> 's pipe_client \<Rightarrow> goerr option \<times> 's pipe_client" where
  "np_dial dial c =
     (case np_conn c of
        Some _ \<Rightarrow> (None, c)
      | None \<Rightarrow>
          (let n = np_dials c; c1 = c\<lparr>np_dials := Suc n\<rparr> in
           case dial n of
             Some e \<Rightarrow> (Some (ErrWrap ''Failed open named-pipe'' e), c1\<lparr>np_conn := None\<rparr>)
           | None \<Rightarrow> (None, c1\<lparr>np_conn := Some n\<rparr>)))"

definition np_Close :: "'s pipe_client \<Rightarrow> 's pipe_client" where
  "np_Close c = (case np_conn c of None \<Rightarrow> c | Some n \<Rightarrow> c\<lparr>np_conn := None, np_closed := np_closed c @ [n]\<rparr>)"

definition np_call :: "(nat \<Rightarrow> goerr option) \<Rightarrow> ('s \<Rightarrow> 'a result \<times> 's) \<Rightarrow> 's pipe_client \<Rightarrow> 'a result \<times> 's pipe_client" where
  "np_call dial f c =
     (case np_dial dial c of
        (Some e, c1) \<Rightarrow> (Inl e, c1)
      | (None, c1) \<Rightarrow> (case f (np_remote c1) of (r, s) \<Rightarrow> (r, np_Close (c1\<lparr>np_remote := s\<rparr>))))"

definition np_agent :: "(nat \<Rightarrow> goerr option) \<Rightarrow> 's ExtendedAgent \<Rightarrow> 's pipe_client ExtendedAgent" where
  "np_agent dial a =
     \<lparr>ag_List = np_call dial (ag_List a),
      ag_SignWithFlags = (\<lambda>k d f. np_call dial (ag_SignWithFlags a k d f)),
      ag_Sign = (\<lambda>k d. np_call dial (ag_Sign a k d)),
      ag_Add = (\<lambda>k. np_call dial (ag_Add a k)),
      ag_Remove = (\<lambda>k. np_call dial (ag_Remove a k)),
      ag_RemoveAll = np_call dial (ag_RemoveAll a),
      ag_Lock = (\<lambda>p. np_call dial (ag_Lock a p)),
      ag_Unlock = (\<lambda>p. np_call dial (ag_Unlock a p)),
      ag_Signers = np_call dial (ag_Signers a),
      ag_Extension = (\<lambda>t d. np_call dial (ag_Extension a t d))\<rparr>"

section \<open>app.go\<close>

definition AddLocalFile ::
  "'s keyring_env \<Rightarrow> PrivateKeyFile \<Rightarrow> 's keyring_state \<Rightarrow> goerr option outcome \<times> 's keyring_state" where
  "AddLocalFile kv pk s =
     (case AddKeySettings kv (pk\<lparr>pf_Name := fp_Base (sv_fp (kv_store kv)) (pf_FilePath pk), pf_StoreType := LocalStore\<rparr>) s of
        (Inl e, s1) \<Rightarrow> (Returned (Some e), s1)
      | (Inr kid, s1) \<Rightarrow> AddKey kv kid s1)"

text \<open>\<open>answer\<close> is that of the confirmation dialog.\<close>

definition DeleteKey ::
  "'s keyring_env \<Rightarrow> string result \<Rightarrow> string \<Rightarrow> 's keyring_state \<Rightarrow> goerr option outcome \<times> 's keyring_state" where
  "DeleteKey kv answer sha s =
     (case answer of
        Inl e \<Rightarrow> (Returned (Some e), s)
      | Inr c \<Rightarrow>
          if c \<noteq> ''Yes'' then (Returned (Some (ErrNew ''cancel'')), s)
          else
            (case RemoveKey kv sha s of
               (Some e, s1) \<Rightarrow> (Returned (Some e), s1)
             | (None, s1) \<Rightarrow> DeleteKeySettings kv sha s1))"

text \<open>\<^verbatim>\<open>App.Save\<close>: every field but the keys, then the file.\<close>

definition app_Save :: "store_env \<Rightarrow> SaveData \<Rightarrow> store_state \<Rightarrow> goerr option \<times> store_state" where
  "app_Save se d s =
     Settings_Save se
       (s\<lparr>so_data := (so_data s)\<lparr>sd_DebugLog := sd_DebugLog d, sd_StartHidden := sd_StartHidden d,
            sd_PageantAgent := sd_PageantAgent d, sd_NamedPipeAgent := sd_NamedPipeAgent d,
            sd_UnixSocketAgent := sd_UnixSocketAgent d, sd_UnixSocketPath := sd_UnixSocketPath d,
            sd_CygWinAgent := sd_CygWinAgent d, sd_ShowBalloon := sd_ShowBalloon d,
            sd_CygWinSocketPath := sd_CygWinSocketPath d, sd_ProxyModeOfNamedPipe := sd_ProxyModeOfNamedPipe d\<rparr>\<rparr>)"

definition truncateString :: "string \<Rightarrow> string" where
  "truncateString s = (if length s \<le> 16 then s else take 16 s @ ''...'')"

text \<open>\<^verbatim>\<open>onSign\<close>: the notification to show, if any.\<close>

definition onSign :: "'s keyring_env \<Rightarrow> PublicKey \<Rightarrow> 's keyring_state \<Rightarrow> string option result \<times> 's keyring_state" where
  "onSign kv pub s =
     (case FindPrivKey kv pub s of
        (None, s1) \<Rightarrow> (Inl (ErrNew ''private key not found''), s1)
      | (Some k, s1) \<Rightarrow>
          (let comment = sk_Comment (pf_PublicKey k);
               name = (if comment = '''' then truncateString (sk_SHA256 (pf_PublicKey k)) else comment) in
           (Inr (if sd_ShowBalloon (so_data (kr_store s1)) then Some (''SSH Key '' @ [CHR 0x27] @ name @ [CHR 0x27] @ '' was used'') else None), s1)))"

text \<open>The agents \<^verbatim>\<open>startup\<close> runs, in order, with the path each is given.\<close>

definition startup_agents :: "SaveData \<Rightarrow> (string \<times> string) list" where
  "startup_agents d =
     (if sd_PageantAgent d then [(''pageant'', '''')] else []) @
     (if sd_NamedPipeAgent d then [(''namedpipe'', '''')] else []) @
     (if sd_UnixSocketAgent d then [(''unix'', sd_UnixSocketPath d)] else []) @
     (if sd_CygWinAgent d then [(''cygwin'', sd_CygWinSocketPath d)] else [])"

section \<open>The ring and the client as agents\<close>

lemma notice_agent [simp]: "rg_agent (notice a r) = rg_agent r"
  by (simp add: notice_def)

lemma noticed_agent: "f (rg_agent r) = apsnd rg_agent (noticed b a f r)"
  by (simp add: noticed_def split: prod.split)

lemma lift_reply_apsnd: "lift_reply k (apsnd g x) = apsnd g (lift_reply k x)"
  by (cases x) (simp add: lift_reply_def split: sum.split)

lemma lift_noticed: "apsnd rg_agent (lift_reply k (noticed b a f r)) = lift_reply k (f (rg_agent r))"
  by (metis lift_reply_apsnd noticed_agent)

lemma lift_extension:
  "apsnd rg_agent (lift_reply k (case f (rg_agent r) of (x, s) \<Rightarrow> (x, (notice b r)\<lparr>rg_agent := s\<rparr>))) = lift_reply k (f (rg_agent r))"
  by (simp add: lift_reply_def split: prod.split sum.split)

interpretation ring_ref: agent_refinement a "ring_agent a" rg_agent "\<lambda>_ _. True"
  for a
proof
  fix t q
  show "handle_request a q (rg_agent t) = apsnd rg_agent (handle_request (ring_agent a) q t)"
    by (cases q) (simp_all add: ring_agent_def lift_noticed lift_extension)
qed

definition np_dials_ok :: "(nat \<Rightarrow> goerr option) \<Rightarrow> 's pipe_client \<Rightarrow> request \<Rightarrow> bool" where
  "np_dials_ok dial c q \<longleftrightarrow> np_conn c = None \<and> dial (np_dials c) = None"

lemma np_call_ok:
  "np_conn c = None \<Longrightarrow> dial (np_dials c) = None \<Longrightarrow> f (np_remote c) = apsnd np_remote (np_call dial f c)"
  by (simp add: np_call_def np_dial_def np_Close_def Let_def split: prod.split)

lemma lift_np_call:
  "np_dials_ok dial c q \<Longrightarrow> apsnd np_remote (lift_reply k (np_call dial f c)) = lift_reply k (f (np_remote c))"
  by (metis lift_reply_apsnd np_call_ok np_dials_ok_def)

interpretation np_ref: agent_refinement a "np_agent dial a" np_remote "np_dials_ok dial"
  for a :: "'s ExtendedAgent" and dial
proof
  fix c :: "'s pipe_client" and q assume "np_dials_ok dial c q"
  then show "handle_request a q (np_remote c) = apsnd np_remote (handle_request (np_agent dial a) q c)"
    by (cases q) (simp_all add: np_agent_def lift_np_call)
qed

section \<open>Frames\<close>

lemma on_ring_store [simp]:
  "kr_store (snd (on_ring f s)) = kr_store s" "stored_keys (snd (on_ring f s)) = stored_keys s"
  by (simp_all add: on_ring_def stored_keys_def split: prod.splits)

lemma on_ring_eq: "on_ring f s = (x, s1) \<Longrightarrow> kr_store s1 = kr_store s \<and> stored_keys s1 = stored_keys s"
  by (metis on_ring_store snd_conv)

lemma listPublickeys_store [simp]: "kr_store (snd (listPublickeys kv s)) = kr_store s"
  by (auto simp: listPublickeys_def dest: on_ring_eq split: prod.split)

lemma RemoveKey_store [simp]: "kr_store (snd (RemoveKey kv sha s)) = kr_store s"
  by (auto simp: RemoveKey_def dest!: on_ring_eq split: sum.split option.split prod.split)

lemma Settings_Save_data [simp]: "so_data (snd (Settings_Save se s)) = so_data s"
  by (auto simp: Settings_Save_def Let_def split: sum.splits prod.splits option.splits)

lemma secret_data [simp]:
  "so_data (snd (secret_Set se k v s)) = so_data s" "so_data (snd (secret_Remove se k s)) = so_data s"
  by (simp_all add: secret_Set_def secret_Remove_def split: option.splits)

lemma set_keys_simps [simp]: "stored_keys (set_keys ks s) = ks" "kr_ring (set_keys ks s) = kr_ring s"
  by (simp_all add: set_keys_def stored_keys_def)

text \<open>No passphrase in what is saved.\<close>

definition no_passphrase :: "'s keyring_state \<Rightarrow> bool" where
  "no_passphrase s \<longleftrightarrow> list_all (\<lambda>k. pf_Passphrase k = '''') (stored_keys s)"

lemma AddKeySettings_keys:
  "stored_keys (snd (AddKeySettings kv key s)) = stored_keys s @
     (case kv_uuid kv (kr_uuids s) of Inl _ \<Rightarrow> [] | Inr kid \<Rightarrow> [key\<lparr>pf_ID := kid, pf_Passphrase := ''''\<rparr>])"
proof (cases "kv_uuid kv (kr_uuids s)")
  case (Inl e)
  then show ?thesis by (simp add: AddKeySettings_def stored_keys_def)
next
  case (Inr kid)
  let ?s1 = "set_keys (stored_keys s @ [key\<lparr>pf_ID := kid, pf_Passphrase := ''''\<rparr>]) (s\<lparr>kr_uuids := Suc (kr_uuids s)\<rparr>)"
  obtain e st where a: "secret_Set (kv_store kv) kid (pf_Passphrase key) (kr_store ?s1) = (e, st)" by fastforce
  obtain e2 st2 where b: "Settings_Save (kv_store kv) st = (e2, st2)" by fastforce
  have "so_data st = so_data (kr_store ?s1)" "so_data st2 = so_data st"
    using secret_data(1) [of "kv_store kv" kid "pf_Passphrase key" "kr_store ?s1"] Settings_Save_data [of "kv_store kv" st] a b by simp_all
  then have "sd_Keys (so_data st) = stored_keys ?s1" "sd_Keys (so_data st2) = stored_keys ?s1"
    by (simp_all add: stored_keys_def)
  then show ?thesis using Inr a b
    by (auto simp: AddKeySettings_def Let_def stored_keys_def [of "_\<lparr>kr_store := _\<rparr>"] split: option.splits)
qed

lemma AddKey_keys [simp]: "stored_keys (snd (AddKey kv kid s)) = stored_keys s"
proof -
  obtain r s1 where l: "listPublickeys kv s = (r, s1)" by fastforce
  then have "kr_store s1 = kr_store s" using listPublickeys_store by (metis snd_conv)
  then have "stored_keys s1 = stored_keys s" by (simp add: stored_keys_def)
  moreover have "stored_keys (s1\<lparr>kr_store := (kr_store s1)\<lparr>so_os := w\<rparr>\<rparr>) = stored_keys s1" for w by (simp add: stored_keys_def)
  ultimately show ?thesis
    by (auto simp: AddKey_def l Let_def dest!: on_ring_eq split: option.split sum.split prod.split)
qed

lemma AddKeys_from_keys [simp]: "stored_keys (snd (AddKeys_from kv ks s)) = stored_keys s"
proof (induction ks arbitrary: s)
  case (Cons k ks)
  obtain r s1 where a: "AddKey kv (pf_ID k) s = (r, s1)" by fastforce
  then have "stored_keys s1 = stored_keys s" using AddKey_keys by (metis snd_conv)
  then show ?case using Cons a by (simp split: outcome.splits option.splits)
qed simp

lemma DeleteKeySettings_keys:
  "stored_keys (snd (DeleteKeySettings kv sha s)) = filter (\<lambda>k. sk_SHA256 (pf_PublicKey k) \<noteq> sha) (stored_keys s)"
proof -
  let ?s1 = "set_keys (filter (\<lambda>k. sk_SHA256 (pf_PublicKey k) \<noteq> sha) (stored_keys s)) s"
  let ?i = "last_id sha (stored_keys s) ''''"
  obtain e st where b: "Settings_Save (kv_store kv) (snd (secret_Remove (kv_store kv) ?i (kr_store ?s1))) = (e, st)" by fastforce
  have "so_data st = so_data (kr_store ?s1)"
    using Settings_Save_data [of "kv_store kv" "snd (secret_Remove (kv_store kv) ?i (kr_store ?s1))"] b by simp
  then have "sd_Keys (so_data st) = stored_keys ?s1" by (simp add: stored_keys_def)
  then show ?thesis using b by (auto simp: DeleteKeySettings_def Let_def stored_keys_def [of "_\<lparr>kr_store := _\<rparr>"])
qed

lemma DeleteKey_keys:
  "stored_keys (snd (DeleteKey kv answer sha s)) \<in>
     {stored_keys s, filter (\<lambda>k. sk_SHA256 (pf_PublicKey k) \<noteq> sha) (stored_keys s)}"
proof -
  obtain r s1 where a: "RemoveKey kv sha s = (r, s1)" by fastforce
  then have "kr_store s1 = kr_store s" using RemoveKey_store by (metis snd_conv)
  then have "stored_keys s1 = stored_keys s" by (simp add: stored_keys_def)
  then show ?thesis using DeleteKeySettings_keys [of kv sha s1] a
    by (simp add: DeleteKey_def split: sum.splits option.splits)
qed

text \<open>The operations of the window, in any order.\<close>

datatype key_op = OpAddFile PrivateKeyFile | OpDelete "string result" string | OpAddKeys | OpRemove string

fun key_step :: "'s keyring_env \<Rightarrow> key_op \<Rightarrow> 's keyring_state \<Rightarrow> 's keyring_state" where
  "key_step kv (OpAddFile pk) s = snd (AddLocalFile kv pk s)"
| "key_step kv (OpDelete answer sha) s = snd (DeleteKey kv answer sha s)"
| "key_step kv OpAddKeys s = snd (AddKeys kv s)"
| "key_step kv (OpRemove sha) s = snd (RemoveKey kv sha s)"

lemma key_step_no_passphrase: "no_passphrase s \<Longrightarrow> no_passphrase (key_step kv op s)"
proof (cases op)
  case (OpAddFile pk)
  let ?pk = "pk\<lparr>pf_Name := fp_Base (sv_fp (kv_store kv)) (pf_FilePath pk), pf_StoreType := LocalStore\<rparr>"
  obtain r s1 where a: "AddKeySettings kv ?pk s = (r, s1)" by fastforce
  then have "stored_keys s1 = stored_keys s @ (case kv_uuid kv (kr_uuids s) of Inl _ \<Rightarrow> [] | Inr kid \<Rightarrow> [?pk\<lparr>pf_ID := kid, pf_Passphrase := ''''\<rparr>])"
    using AddKeySettings_keys [of kv ?pk s] by simp
  moreover assume "no_passphrase s"
  ultimately have "no_passphrase s1" by (auto simp: no_passphrase_def split: sum.splits)
  then show ?thesis using OpAddFile a by (simp add: AddLocalFile_def no_passphrase_def split: sum.splits)
next
  case (OpDelete answer sha)
  assume "no_passphrase s"
  then show ?thesis using OpDelete DeleteKey_keys [of kv answer sha s] by (auto simp: no_passphrase_def list_all_iff)
next
  case OpAddKeys
  assume "no_passphrase s"
  then show ?thesis using OpAddKeys by (simp add: no_passphrase_def AddKeys_def)
next
  case (OpRemove sha)
  assume "no_passphrase s"
  then show ?thesis using OpRemove RemoveKey_store [of kv sha s] by (simp add: no_passphrase_def stored_keys_def)
qed

section \<open>Further lemmas\<close>

lemma admitted_run_True: "admitted_run (\<lambda>_ _. True) b qs t"
  by (induction qs arbitrary: t) simp_all

lemma handle_np_client:
  assumes "np_conn c = None"
  shows "handle_request (np_agent dial a) q c =
    (case dial (np_dials c) of
       Some e \<Rightarrow> (Inl (ErrWrap ''Failed open named-pipe'' e), c\<lparr>np_dials := Suc (np_dials c)\<rparr>)
     | None \<Rightarrow>
         (case handle_request a q (np_remote c) of
            (r, s) \<Rightarrow> (r, c\<lparr>np_dials := Suc (np_dials c), np_closed := np_closed c @ [np_dials c], np_remote := s\<rparr>)))"
  using assms
  by (cases q)
    (simp_all add: np_agent_def np_call_def np_dial_def np_Close_def lift_reply_def Let_def split: option.split prod.split sum.split)

lemma LoadKeyfile_nil: "LoadKeyfile ko env path pass w = (Inr (i, None), w1) \<Longrightarrow> pass = '''' \<and> pf_Encryption i"
  by (auto simp: LoadKeyfile_def key_file_def Let_def rbind_def split: sum.splits if_splits prod.splits)

lemma getKey_sha: "getKey keys a = Some k \<Longrightarrow> sk_SHA256 (pf_PublicKey k) = sk_SHA256 a"
  by (induction keys) (auto split: if_splits)

lemma os_WriteFile_written:
  assumes "os_WriteFile env p d w = (None, w2)"
  shows "map_option f_data (w_files w2 p) = Some d"
  using assms by (auto simp: os_WriteFile_def os_Write_def os_plain_def record_call_def Let_def split: option.splits prod.splits if_splits)

lemma Settings_Save_written:
  assumes "Settings_Save se s = (None, s1)" and "UserConfigDir (sv_getenv se) = Inr conf"
  obtains b where "sv_Marshal se (so_data s) = Inr b"
    and "map_option f_data (w_files (so_os s1) (settings_path se conf)) = Some b"
  using assms by (auto simp: Settings_Save_def Let_def split: sum.splits prod.splits option.splits if_splits dest!: os_WriteFile_written)

section \<open>Properties\<close>

definition sample_store_env :: store_env where
  "sample_store_env =
     \<lparr>sv_fp = sample_fp, sv_os = \<lparr>oe_fault = \<lambda>_ _. None, oe_temp = \<lambda>_ _ _. '''', oe_short = \<lambda>_. 0\<rparr>,
      sv_getenv = (\<lambda>v. if v = ''APPDATA'' then ''C'' else ''H''), sv_isDir = (\<lambda>_. True),
      sv_Marshal = (\<lambda>d. Inr (if sd_DebugLog d then [1] else [0])),
      sv_Unmarshal = (\<lambda>b. Inr
        \<lparr>sd_Keys = [], sd_StartHidden = False, sd_PageantAgent = True, sd_NamedPipeAgent = True, sd_UnixSocketAgent = True,
         sd_CygWinAgent = True, sd_ShowBalloon = True, sd_UnixSocketPath = ''u'', sd_CygWinSocketPath = ''c'',
         sd_ProxyModeOfNamedPipe = False, sd_DebugLog = b = [1]\<rparr>),
      sv_AppName = ''Omni'', sv_get = \<lambda>_. None, sv_set = \<lambda>_. None, sv_remove = \<lambda>_. None\<rparr>"

definition sample_data :: SaveData where
  "sample_data =
     \<lparr>sd_Keys = [], sd_StartHidden = False, sd_PageantAgent = True, sd_NamedPipeAgent = True, sd_UnixSocketAgent = True,
      sd_CygWinAgent = True, sd_ShowBalloon = True, sd_UnixSocketPath = ''u'', sd_CygWinSocketPath = ''c'',
      sd_ProxyModeOfNamedPipe = False, sd_DebugLog = True\<rparr>"

definition sample_store :: store_state where
  "sample_store = \<lparr>so_data = sample_data, so_secrets = Map.empty, so_os = \<lparr>w_files = Map.empty, w_trace = []\<rparr>\<rparr>"


text \<open>(pipe_client_no_leak).
  A pipe client with no open connection dials once for each request and has closed every connection it opened,
  and no other, whichever dials fail; a request whose dial fails is answered by that error.\<close>

theorem pipe_client_no_leak:
  assumes "np_conn c = None"
  shows "case run_requests (np_agent dial a) qs c of (rs, c1) \<Rightarrow>
    np_conn c1 = None \<and> np_dials c1 = np_dials c + length qs \<and>
    np_closed c1 = np_closed c @ filter (\<lambda>n. dial n = None) [np_dials c..<np_dials c + length qs] \<and>
    length rs = length qs \<and>
    list_all2 (\<lambda>n r. dial n = None \<or> r = Inl (ErrWrap ''Failed open named-pipe'' (the (dial n))))
      [np_dials c..<np_dials c + length qs] rs"
  using assms
proof (induction qs arbitrary: c)
  case (Cons q qs)
  let ?r = "fst (handle_request (np_agent dial a) q c)" and ?c = "snd (handle_request (np_agent dial a) q c)"
  have n: "np_conn ?c = None" "np_dials ?c = Suc (np_dials c)"
    "np_closed ?c = np_closed c @ filter (\<lambda>n. dial n = None) [np_dials c]"
    "dial (np_dials c) = None \<or> ?r = Inl (ErrWrap ''Failed open named-pipe'' (the (dial (np_dials c))))"
    using Cons.prems by (auto simp: handle_np_client split: option.split prod.split)
  have up: "[np_dials c..<Suc (np_dials c + length qs)] = np_dials c # [Suc (np_dials c)..<Suc (np_dials c + length qs)]"
    by (rule upt_conv_Cons) simp
  obtain rs c1 where run: "run_requests (np_agent dial a) qs ?c = (rs, c1)" by fastforce
  then have "run_requests (np_agent dial a) (q # qs) c = (?r # rs, c1)" by (simp add: split_beta)
  then show ?case using Cons.IH [OF n(1)] n(2-4) run by (simp add: up del: upt_Suc upt_conv_Cons)
qed simp

theorem pipe_client_no_leak_witness:
  "np_closed (snd (run_requests (np_agent (\<lambda>n. if n = 0 then Some EOF else None) counting_agent) [ReqList, ReqRemoveAll]
     \<lparr>np_conn = None, np_dials = 0, np_remote = 0, np_closed = []\<rparr>)) = [1]"
  using pipe_client_no_leak [where c = "\<lparr>np_conn = None, np_dials = 0, np_remote = 0, np_closed = []\<rparr>"
    and dial = "\<lambda>n. if n = 0 then Some EOF else None" and a = counting_agent and qs = "[ReqList, ReqRemoveAll]"]
  by (simp add: upt_rec split: prod.splits)

text \<open>C35 (legacy_no_plain_passphrase).
  Adding key files, loading the stored keys, deleting and removing keys, in any order and with any error,
  leave no passphrase in the settings that are written to the file.\<close>

theorem legacy_no_plain_passphrase:
  assumes "no_passphrase s"
  shows "no_passphrase (fold (key_step kv) ops s)"
  using assms by (induction ops arbitrary: s) (simp_all add: key_step_no_passphrase)

definition sample_key_ops :: key_ops where
  "sample_key_ops =
     \<lparr>ko_putty = \<lambda>_. Inl EOF, ko_ParseRaw = \<lambda>b. if b = [9] then Inl EOF else Inr b, ko_ParseWith = \<lambda>b _. Inr b,
      ko_missing = \<lambda>_. True, ko_Signer = (\<lambda>b. Inr \<lparr>pk_Type = ''t'', pk_Blob = b\<rparr>),
      ko_ParsePublicKey = (\<lambda>b. Inr \<lparr>pk_Type = ''t'', pk_Blob = b\<rparr>), ko_MD5 = \<lambda>_. ''m'', ko_SHA256 = \<lambda>_. ''s'',
      ko_base64 = \<lambda>_. ''b''\<rparr>"

definition sample_keyring_env :: "nat keyring_env" where
  "sample_keyring_env =
     \<lparr>kv_agent = counting_agent, kv_store = sample_store_env, kv_keys = sample_key_ops, kv_uuid = \<lambda>_. Inr ''id''\<rparr>"

definition sample_keyring :: "nat keyring_state" where
  "sample_keyring =
     \<lparr>kr_ring = \<lparr>rg_agent = 0, rg_callback = True, rg_notices = []\<rparr>,
      kr_store = sample_store\<lparr>so_os := \<lparr>w_files = [''k'' \<mapsto> \<lparr>f_data = [9], f_regular = True, f_attrs = 0\<rparr>], w_trace = []\<rparr>\<rparr>,
      kr_uuids = 0\<rparr>"

theorem legacy_no_plain_passphrase_witness:
  "no_passphrase (fold (key_step sample_keyring_env) [OpAddFile ((agent_only no_info)\<lparr>pf_Passphrase := ''p''\<rparr>)] sample_keyring)"
  by (rule legacy_no_plain_passphrase)
    (simp add: no_passphrase_def stored_keys_def sample_keyring_def sample_store_def sample_data_def)

text \<open>(merge_complete).
  The list the window shows has, by fingerprint, first the agent's keys in the agent's order and
  then the stored keys that are not loaded; each entry of a loaded key that has a stored file is that file's record.\<close>

theorem merge_complete:
  "map (\<lambda>k. sk_SHA256 (pf_PublicKey k)) (mergeKeyList keys loaded) =
     map sk_SHA256 loaded @ filter (\<lambda>h. h \<notin> sk_SHA256 ` set loaded) (map (\<lambda>k. sk_SHA256 (pf_PublicKey k)) keys) \<and>
   set (mergeKeyList keys loaded) =
     {k \<in> set keys. sk_SHA256 (pf_PublicKey k) \<notin> sk_SHA256 ` set loaded} \<union>
     (\<lambda>a. case getKey keys a of None \<Rightarrow> agent_only a | Some k \<Rightarrow> k) ` set loaded"
proof
  have "sk_SHA256 (pf_PublicKey (case getKey keys a of None \<Rightarrow> agent_only a | Some k \<Rightarrow> k)) = sk_SHA256 a" for a
    by (simp add: agent_only_def getKey_sha split: option.split)
  moreover have has: "hasKey loaded k \<longleftrightarrow> sk_SHA256 (pf_PublicKey k) \<in> sk_SHA256 ` set loaded" for k
    by (metis (mono_tags, lifting) hasKey_def image_iff list_ex_iff)
  ultimately show "map (\<lambda>k. sk_SHA256 (pf_PublicKey k)) (mergeKeyList keys loaded) =
     map sk_SHA256 loaded @ filter (\<lambda>h. h \<notin> sk_SHA256 ` set loaded) (map (\<lambda>k. sk_SHA256 (pf_PublicKey k)) keys)"
    by (simp add: mergeKeyList_def filter_map comp_def)
  show "set (mergeKeyList keys loaded) =
     {k \<in> set keys. sk_SHA256 (pf_PublicKey k) \<notin> sk_SHA256 ` set loaded} \<union>
     (\<lambda>a. case getKey keys a of None \<Rightarrow> agent_only a | Some k \<Rightarrow> k) ` set loaded"
    by (auto simp: mergeKeyList_def has)
qed

text \<open>(legacy_delete_panics).
  A confirmed deletion panics exactly when the agent's key was removed, or not loaded, without an error
  and no key file is stored: the deletion of a key another client added.\<close>

theorem legacy_delete_panics:
  "(\<exists>p. fst (DeleteKey kv answer sha s) = Panicked p) \<longleftrightarrow>
     answer = Inr ''Yes'' \<and> fst (RemoveKey kv sha s) = None \<and> stored_keys s = []"
proof -
  obtain r s1 where a: "RemoveKey kv sha s = (r, s1)" by fastforce
  then have "stored_keys s1 = stored_keys s" using RemoveKey_store [of kv sha s] by (simp add: stored_keys_def)
  then show ?thesis using a
    by (auto simp: DeleteKey_def DeleteKeySettings_def Let_def split: sum.split option.split prod.split)
qed

text \<open>(legacy_add_panics).
  Loading a stored key panics exactly when the key is not loaded yet, its stored passphrase is empty and its file is
  an encrypted key: \<^verbatim>\<open>LoadKeyfile\<close> then gives no key and no error, and \<^verbatim>\<open>AddKey\<close> dereferences it.\<close>

theorem legacy_add_panics:
  "(\<exists>p. fst (AddKey kv kid s) = Panicked p) \<longleftrightarrow>
     (\<exists>pkf infos i. getKey_id kid (stored_keys s) = Some pkf \<and> fst (listPublickeys kv s) = Inr infos \<and>
        sk_SHA256 (pf_PublicKey pkf) \<notin> sk_SHA256 ` set infos \<and>
        secret_Get (kv_store kv) kid (kr_store s) = Inr '''' \<and>
        fst (LoadKeyfile (kv_keys kv) (sv_os (kv_store kv)) (pf_FilePath pkf) '''' (so_os (kr_store s))) = Inr (i, None) \<and>
        pf_Encryption i)"
proof (cases "getKey_id kid (stored_keys s)")
  case None
  then show ?thesis by (simp add: AddKey_def)
next
  case (Some pkf)
  obtain r s1 where l: "listPublickeys kv s = (r, s1)" by fastforce
  then have "kr_store s1 = kr_store s" using listPublickeys_store [of kv s] by simp
  with Some l show ?thesis
    by (auto simp: AddKey_def Let_def list_ex_iff image_iff dest: LoadKeyfile_nil split: sum.splits prod.splits option.splits)
      (use LoadKeyfile_nil in force)
qed

lemma encrypted_key_panics:
  "fst (AddLocalFile sample_keyring_env ((agent_only no_info)\<lparr>pf_FilePath := ''k''\<rparr>) sample_keyring) =
     Panicked ''nil pointer dereference''"
  by code_simp

text \<open>(legacy_load_overwrites).
  When the settings file cannot be read, for any reason and not only when it does not exist, the
  settings become the defaults, without keys, and a save that succeeds has replaced the file by them.\<close>

theorem legacy_load_overwrites:
  assumes "UserConfigDir (sv_getenv se) = Inr conf"
    and "os_ReadFile (sv_os se) (settings_path se conf) (so_os s) = (Inl e, w)"
    and "Settings_Load se s = (None, s1)"
  shows "so_data s1 = initSetting se \<and> sd_Keys (so_data s1) = [] \<and>
    (\<exists>b. sv_Marshal se (initSetting se) = Inr b \<and>
      map_option f_data (w_files (so_os s1) (settings_path se conf)) = Some b)"
proof -
  from assms have sv: "Settings_Save se (s\<lparr>so_data := initSetting se, so_os := w\<rparr>) = (None, s1)"
    by (simp add: Settings_Load_def)
  moreover have "so_data s1 = initSetting se"
    using Settings_Save_data [of se "s\<lparr>so_data := initSetting se, so_os := w\<rparr>"] sv by simp
  moreover have "sd_Keys (initSetting se) = []" by (simp add: initSetting_def Let_def)
  ultimately show ?thesis using Settings_Save_written [OF sv assms(1)] by fastforce
qed

theorem legacy_load_overwrites_witness:
  "\<exists>s1. Settings_Load sample_store_env sample_store = (None, s1) \<and> sd_Keys (so_data s1) = [] \<and>
     map_option f_data (w_files (so_os s1) (settings_path sample_store_env ''C'')) = Some [0]"
proof -
  obtain s1 where l: "Settings_Load sample_store_env sample_store = (None, s1)"
    by (simp add: sample_store_env_def sample_store_def sample_data_def Settings_Load_def Settings_Save_def UserConfigDir_def Let_def
      os_ReadFile_def os_WriteFile_def os_Write_def os_plain_def fault_of_def record_call_def)
  have "UserConfigDir (sv_getenv sample_store_env) = Inr ''C''"
    by (simp add: sample_store_env_def UserConfigDir_def)
  moreover have "os_ReadFile (sv_os sample_store_env) (settings_path sample_store_env ''C'') (so_os sample_store) =
      (Inl ErrNotExist, snd (os_ReadFile (sv_os sample_store_env) (settings_path sample_store_env ''C'') (so_os sample_store)))"
    by (simp add: sample_store_env_def sample_store_def os_ReadFile_def fault_of_def Let_def)
  moreover have "sv_Marshal sample_store_env (initSetting sample_store_env) = Inr [0]"
    by (simp add: sample_store_env_def initSetting_def Let_def)
  ultimately show ?thesis using legacy_load_overwrites [OF _ _ l] l by fastforce
qed

text \<open>(legacy_settings_roundtrip).
  Settings that were saved without an error are what the next load gives, if it can read the file
  and the encoding of those settings decodes to them.\<close>

theorem legacy_settings_roundtrip:
  assumes "UserConfigDir (sv_getenv se) = Inr conf"
    and "Settings_Save se s = (None, s1)"
    and "fault_of (sv_os se) (CallReadFile (settings_path se conf)) (so_os s1) = None"
    and "rbind (sv_Marshal se (so_data s)) (sv_Unmarshal se) = Inr (so_data s)"
    and "so_os t = so_os s1"
  shows "fst (Settings_Load se t) = None \<and> so_data (snd (Settings_Load se t)) = so_data s"
proof -
  obtain b where "sv_Marshal se (so_data s) = Inr b"
    and "map_option f_data (w_files (so_os s1) (settings_path se conf)) = Some b"
    using Settings_Save_written [OF assms(2,1)] .
  then show ?thesis using assms by (auto simp: Settings_Load_def os_ReadFile_def Let_def)
qed

theorem legacy_settings_roundtrip_witness:
  "so_data (snd (Settings_Load sample_store_env (snd (Settings_Save sample_store_env sample_store)))) = sample_data"
  using legacy_settings_roundtrip [of sample_store_env "[CHR 0x43]" sample_store "snd (Settings_Save sample_store_env sample_store)"
    "snd (Settings_Save sample_store_env sample_store)"]
  by (simp add: sample_store_env_def sample_store_def sample_data_def Settings_Save_def UserConfigDir_def Let_def
      os_WriteFile_def os_Write_def os_plain_def fault_of_def record_call_def)

end
