(* ===== verification/Legacy_Agents.thy ===== *)
theory Legacy_Agents
  imports Pageant Cygwin Legacy_Keyring
begin

text \<open>
  The agents of the previous program: the accept loop they share (src/old/pkg/agentlistener), the
  named pipe (namedpipe/namedpipe.go), the Unix socket (unix/unix.go), the Cygwin socket
  (cygwinsocket/cygwinsocket.go) and the Pageant window with its client (pageant/pageant.go, pageant/client.go).

  What they have in common with the agents of the present program is stated against those: the text of
  the socket, the handshake and the reply to a Pageant request.
\<close>

section \<open>agentlistener\<close>

text \<open>\<^verbatim>\<open>Serve\<close>: its result and the number of handlers started.  A list that ends first is a loop still waiting.\<close>

fun Serve :: "accept list \<Rightarrow> nat \<Rightarrow> (goerr option \<times> nat) option" where
  "Serve [] n = None"
| "Serve (Accepted # xs) n = Serve xs (Suc n)"
| "Serve (AcceptFailed e stopped # xs) n = Some (if stopped then None else if e = EOF then None else Some e, n)"

section \<open>Named pipe and Unix socket\<close>

record legacy_env =
  lg_os :: os_env
  lg_fp :: filepath_ops
  lg_home :: "string result"
  lg_Listen :: "string \<Rightarrow> goerr option"
  lg_ListenTcp :: "int result"
  lg_uuid :: "bytes result"
  lg_UTF16 :: "string \<Rightarrow> goerr option"
  lg_pid :: int

record legacy_world =
  lw_os :: world
  lw_path :: string
  lw_listening :: "string option"
  lw_handlers :: nat

definition pipe_prefix :: string where
  "pipe_prefix = [bslash, bslash] @ ''.'' @ [bslash] @ ''pipe'' @ [bslash]"

definition legacy_pipePath :: "string \<Rightarrow> string" where
  "legacy_pipePath name = pipe_prefix @ (if length name = 0 then ''openssh-ssh-agent'' else name)"

text \<open>From the listener on: serve, close the listener, wrap the error.\<close>

definition serve_and_close :: "string \<Rightarrow> string \<Rightarrow> accept list \<Rightarrow> legacy_world \<Rightarrow> (goerr option \<times> legacy_world) option" where
  "serve_and_close what addr accepts w =
     map_option (\<lambda>(r, n). (map_option (ErrWrap what) r, w\<lparr>lw_listening := None, lw_handlers := n\<rparr>))
       (Serve accepts (lw_handlers w))"

definition NamedPipe_RunAgent :: "legacy_env \<Rightarrow> string \<Rightarrow> accept list \<Rightarrow> legacy_world \<Rightarrow> (goerr option \<times> legacy_world) option" where
  "NamedPipe_RunAgent le name accepts w =
     (let pipePath = legacy_pipePath name in
      case lg_Listen le pipePath of
        Some e \<Rightarrow> Some (Some (ErrWrap ''Failed open named-pipe'' e), w)
      | None \<Rightarrow> serve_and_close ''pipe.Accept'' pipePath accepts (w\<lparr>lw_listening := Some pipePath\<rparr>))"

text \<open>
  \<^verbatim>\<open>handle\<close> of the pipe and of the Unix socket: what is logged, the bytes sent and the agent's state; the connection is
  closed on every path, and by the context.
\<close>

definition plain_handle :: "string \<Rightarrow> 's serve_agent \<Rightarrow> bytes \<Rightarrow> 's \<Rightarrow> (string list \<times> bytes) outcome \<times> 's" where
  "plain_handle what serve input s =
     (case serve s input of
        (ServePanic m, s1) \<Rightarrow> (Panicked m, s1)
      | (Served err out, s1) \<Rightarrow>
          (Returned (case err of None \<Rightarrow> [] | Some e \<Rightarrow> if e = EOF then [] else [what @ '' agent.ServeAgent err''], out), s1))"

definition NamedPipe_handle :: "'s serve_agent \<Rightarrow> bytes \<Rightarrow> 's \<Rightarrow> (string list \<times> bytes) outcome \<times> 's" where
  "NamedPipe_handle = plain_handle ''NamedPipe''"

definition DomainSock_handle :: "'s serve_agent \<Rightarrow> bytes \<Rightarrow> 's \<Rightarrow> (string list \<times> bytes) outcome \<times> 's" where
  "DomainSock_handle = plain_handle ''DomainSock''"

text \<open>The path of a socket, \<^verbatim>\<open>home\<close> joined with \<open>name\<close> if none is set.\<close>

definition socket_path :: "legacy_env \<Rightarrow> string \<Rightarrow> string \<Rightarrow> string result" where
  "socket_path le name path =
     (if length path = 0
      then (case lg_home le of Inl e \<Rightarrow> Inl (ErrWrap ''userHomeDir'' e) | Inr home \<Rightarrow> Inr (fp_Join (lg_fp le) [home, name]))
      else Inr path)"

text \<open>The old socket is removed if \<^verbatim>\<open>Stat\<close> finds it, or fails in any way but that it does not exist.\<close>

definition remove_old :: "legacy_env \<Rightarrow> string \<Rightarrow> world \<Rightarrow> goerr option \<times> world" where
  "remove_old le path w =
     (case os_Stat (lg_os le) path w of (st, w1) \<Rightarrow>
        if is_err (err_of st) ErrNotExist then (None, w1)
        else (case os_Remove (lg_os le) path w1 of
                (Some e, w2) \<Rightarrow> (Some (ErrWrap ''Failed remove socket'' e), w2)
              | (None, w2) \<Rightarrow> (None, w2)))"

definition DomainSock_RunAgent :: "legacy_env \<Rightarrow> accept list \<Rightarrow> legacy_world \<Rightarrow> (goerr option \<times> legacy_world) option" where
  "DomainSock_RunAgent le accepts w =
     (case socket_path le ''OmniSSHAgent.sock'' (lw_path w) of
        Inl e \<Rightarrow> Some (Some e, w)
      | Inr path \<Rightarrow>
          (let w1 = w\<lparr>lw_path := path\<rparr> in
           case remove_old le path (lw_os w1) of
             (Some e, o1) \<Rightarrow> Some (Some e, w1\<lparr>lw_os := o1\<rparr>)
           | (None, o1) \<Rightarrow>
               (let w2 = w1\<lparr>lw_os := o1\<rparr> in
                case lg_Listen le path of
                  Some e \<Rightarrow> Some (Some (ErrWrap ''Failed open named unix domain socket'' e), w2)
                | None \<Rightarrow> serve_and_close ''pipe.Accept'' path accepts (w2\<lparr>lw_listening := Some path\<rparr>))))"

section \<open>Cygwin socket\<close>

text \<open>\<^verbatim>\<open>nonce2s\<close>: groups of four bytes, each reversed; a rest of one to three bytes is an index out of range.\<close>

fun nonce_groups :: "bytes \<Rightarrow> string list option" where
  "nonce_groups [] = Some []"
| "nonce_groups (a # b # c # d # rest) = map_option (\<lambda>ws. hex_EncodeToString [d, c, b, a] # ws) (nonce_groups rest)"
| "nonce_groups _ = None"

definition nonce2s :: "bytes \<Rightarrow> string option" where
  "nonce2s buf = map_option (\<lambda>ws. strJoin ws ''-'') (nonce_groups buf)"

definition makeSocket :: "legacy_env \<Rightarrow> string \<Rightarrow> int \<Rightarrow> world \<Rightarrow> bytes result outcome \<times> world" where
  "makeSocket le path port w =
     (case lg_uuid le of
        Inl e \<Rightarrow> (Returned (Inl e), w)
      | Inr nonce \<Rightarrow>
          (case nonce2s nonce of
             None \<Rightarrow> (Panicked ''index out of range'', w)
           | Some t \<Rightarrow>
               (case os_WriteFile (lg_os le) path (bytes_of (''!<socket >'' @ Itoa port @ '' s '' @ t)) w of
                  (Some e, w1) \<Rightarrow> (Returned (Inl e), w1)
                | (None, w1) \<Rightarrow>
                    (case lg_UTF16 le path of
                       Some e \<Rightarrow> (Returned (Inl e), w1)
                     | None \<Rightarrow>
                         (case SetFileAttributes (lg_os le) path (or FILE_ATTRIBUTE_SYSTEM FILE_ATTRIBUTE_READONLY) w1 of
                            (Some e, w2) \<Rightarrow> (Returned (Inl e), w2)
                          | (None, w2) \<Rightarrow> (Returned (Inr nonce), w2))))))"

text \<open>\<^verbatim>\<open>RunAgent\<close>: the deferred close of the listener comes after \<^verbatim>\<open>makeSocket\<close>.\<close>

definition loopback :: string where "loopback = ''127.0.0.1:''"

definition CygwinSock_RunAgent ::
  "legacy_env \<Rightarrow> accept list \<Rightarrow> legacy_world \<Rightarrow> (goerr option outcome \<times> legacy_world) option" where
  "CygwinSock_RunAgent le accepts w =
     (case socket_path le ''OmniSSHcygwin.sock'' (lw_path w) of
        Inl e \<Rightarrow> Some (Returned (Some e), w)
      | Inr path \<Rightarrow>
          (let w1 = w\<lparr>lw_path := path\<rparr> in
           case remove_old le path (lw_os w1) of
             (Some e, o1) \<Rightarrow> Some (Returned (Some e), w1\<lparr>lw_os := o1\<rparr>)
           | (None, o1) \<Rightarrow>
               (let w2 = w1\<lparr>lw_os := o1\<rparr> in
                case lg_ListenTcp le of
                  Inl e \<Rightarrow> Some (Returned (Some (ErrWrap ''net.Listen'' e)), w2)
                | Inr port \<Rightarrow>
                    (let w3 = w2\<lparr>lw_listening := Some loopback\<rparr> in
                     case makeSocket le path port (lw_os w3) of
                       (Panicked m, o2) \<Rightarrow> Some (Panicked m, w3\<lparr>lw_os := o2\<rparr>)
                     | (Returned (Inl e), o2) \<Rightarrow> Some (Returned (Some e), w3\<lparr>lw_os := o2\<rparr>)
                     | (Returned (Inr nonce), o2) \<Rightarrow>
                         map_option (apfst Returned)
                           (serve_and_close ''listener.Accept'' loopback accepts (w3\<lparr>lw_os := o2\<rparr>))))))"

text \<open>
  A connection that gives its bytes in pieces: one \<^verbatim>\<open>Read\<close> returns at most one piece, and the buffer keeps
  zeros where nothing was read.  Writes go to the connection \<open>lc_conn\<close>.
\<close>

record lconn =
  lc_pieces :: "bytes list"
  lc_conn :: conn

definition conn_Read :: "nat \<Rightarrow> lconn \<Rightarrow> bytes option \<times> lconn" where
  "conn_Read n c =
     (case lc_pieces c of
        [] \<Rightarrow> (None, c)
      | p # ps \<Rightarrow>
          (Some (take n p @ replicate (n - length p) 0), c\<lparr>lc_pieces := (if n < length p then drop n p # ps else ps)\<rparr>))"

definition lconn_Write :: "bytes \<Rightarrow> lconn \<Rightarrow> bool \<times> lconn" where
  "lconn_Write d c = (case conn_Write d (lc_conn c) of (ok, cn) \<Rightarrow> (ok, c\<lparr>lc_conn := cn\<rparr>))"

definition legacy_handshake :: "int \<Rightarrow> bytes \<Rightarrow> lconn \<Rightarrow> bool \<times> lconn" where
  "legacy_handshake pid nonce c0 =
     (case conn_Read 16 (c0\<lparr>lc_conn := (lc_conn c0)\<lparr>cn_deadline := True\<rparr>\<rparr>) of
        (None, c1) \<Rightarrow> (False, c1)
      | (Some nonceR, c1) \<Rightarrow>
          if nonce \<noteq> nonceR then (False, c1)
          else
            (case lconn_Write nonce c1 of
               (False, c2) \<Rightarrow> (False, c2)
             | (True, c2) \<Rightarrow>
                 (case conn_Read 12 c2 of
                    (None, c3) \<Rightarrow> (False, c3)
                  | (Some buf, c3) \<Rightarrow> lconn_Write (le_put32 (word_of_int pid) @ drop 4 buf) c3)))"

definition CygwinSock_handle ::
  "'s serve_agent \<Rightarrow> int \<Rightarrow> bytes \<Rightarrow> lconn \<Rightarrow> 's \<Rightarrow> bool outcome \<times> lconn \<times> 's" where
  "CygwinSock_handle serve pid nonce c0 s =
     (case legacy_handshake pid nonce c0 of
        (False, c1) \<Rightarrow> (Returned False, c1\<lparr>lc_conn := (lc_conn c1)\<lparr>cn_closed := True\<rparr>\<rparr>, s)
      | (True, c1) \<Rightarrow>
          (case serve s (concat (lc_pieces c1)) of
             (ServePanic m, s1) \<Rightarrow> (Panicked m, c1\<lparr>lc_conn := (lc_conn c1)\<lparr>cn_closed := True\<rparr>\<rparr>, s1)
           | (Served err out, s1) \<Rightarrow>
               (Returned (err = None \<or> err = Some EOF),
                c1\<lparr>lc_pieces := [], lc_conn := (lc_conn c1)\<lparr>cn_out := cn_out (lc_conn c1) @ out, cn_closed := True\<rparr>\<rparr>, s1)))"

section \<open>Lemmas\<close>

lemma serve_and_close_listening: "serve_and_close what addr accepts w = Some (r, w1) \<Longrightarrow> lw_listening w1 = None"
  by (auto simp: serve_and_close_def)

lemma nonce2s_nonceText: "length nonce = 16 \<Longrightarrow> nonce2s nonce = Some (nonceText nonce)"
  by (erule nonce_16) (simp add: nonce2s_def nonceText_def del: hex_EncodeToString.simps)

lemma makeSocket_text:
  assumes "lg_uuid le = Inr nonce" and "length nonce = 16"
  shows "makeSocket le path port w =
    (case os_WriteFile (lg_os le) path (bytes_of (socket_text port nonce)) w of
       (Some e, w1) \<Rightarrow> (Returned (Inl e), w1)
     | (None, w1) \<Rightarrow>
         (case lg_UTF16 le path of
            Some e \<Rightarrow> (Returned (Inl e), w1)
          | None \<Rightarrow>
              (case SetFileAttributes (lg_os le) path (or FILE_ATTRIBUTE_SYSTEM FILE_ATTRIBUTE_READONLY) w1 of
                 (Some e, w2) \<Rightarrow> (Returned (Inl e), w2)
               | (None, w2) \<Rightarrow> (Returned (Inr nonce), w2))))"
  using assms by (simp add: makeSocket_def nonce2s_nonceText socket_text_def)

lemma conn_Read_whole: "length p = n \<Longrightarrow> lc_pieces c = p # ps \<Longrightarrow> conn_Read n c = (Some p, c\<lparr>lc_pieces := ps\<rparr>)"
  by (simp add: conn_Read_def)

lemma legacy_handshake_whole:
  assumes "length a = 16" and "length b = 12" and "lc_pieces c = a # b # ps" and "cn_in (lc_conn c) = a @ b @ concat ps"
  shows "fst (legacy_handshake pid nonce c) = fst (handshake pid nonce (lc_conn c)) \<and>
    cn_out (lc_conn (snd (legacy_handshake pid nonce c))) = cn_out (snd (handshake pid nonce (lc_conn c)))"
  using assms
  by (auto simp: legacy_handshake_def handshake_def conn_Read_def io_ReadFull_def lconn_Write_def conn_Write_def
      split: option.split)

lemma legacy_handshake_split:
  assumes "lc_pieces c = a # ps" and "length a < length nonce" and "length nonce = 16" and "last nonce \<noteq> 0"
  shows "\<not> fst (legacy_handshake pid nonce c) \<and> cn_out (lc_conn (snd (legacy_handshake pid nonce c))) = cn_out (lc_conn c)"
proof -
  have "last (a @ replicate (16 - length a) 0) = 0" using assms by simp
  then have "nonce \<noteq> take 16 a @ replicate (16 - length a) 0" using assms by auto
  then show ?thesis using assms by (simp add: legacy_handshake_def conn_Read_def)
qed

section \<open>Properties\<close>



text \<open>(legacy_listeners_closed).
  The pipe and the Unix socket agents that have returned have closed their listener; the Cygwin agent has, unless
  the socket file could not be made after the listener was opened: then the listener stays open with nobody to accept.\<close>

theorem legacy_listeners_closed:
  assumes "lw_listening w = None"
  shows "(\<forall>r w1. NamedPipe_RunAgent le name accepts w = Some (r, w1) \<longrightarrow> lw_listening w1 = None) \<and>
    (\<forall>r w1. DomainSock_RunAgent le accepts w = Some (r, w1) \<longrightarrow> lw_listening w1 = None) \<and>
    (\<forall>r w1. CygwinSock_RunAgent le accepts w = Some (r, w1) \<longrightarrow>
       (lw_listening w1 = None) =
         (\<forall>path port. socket_path le ''OmniSSHcygwin.sock'' (lw_path w) = Inr path \<and> fst (remove_old le path (lw_os w)) = None \<and>
            lg_ListenTcp le = Inr port \<longrightarrow>
              (\<exists>nonce. fst (makeSocket le path port (snd (remove_old le path (lw_os w)))) = Returned (Inr nonce))))"
proof (intro conjI allI impI)
  fix r w1 assume "NamedPipe_RunAgent le name accepts w = Some (r, w1)"
  then show "lw_listening w1 = None" using assms
    by (auto simp: NamedPipe_RunAgent_def Let_def dest: serve_and_close_listening split: option.splits)
next
  fix r w1 assume "DomainSock_RunAgent le accepts w = Some (r, w1)"
  then show "lw_listening w1 = None" using assms
    by (auto simp: DomainSock_RunAgent_def Let_def dest: serve_and_close_listening split: option.splits sum.splits prod.splits)
next
  fix r w1 assume "CygwinSock_RunAgent le accepts w = Some (r, w1)"
  then show "(lw_listening w1 = None) =
         (\<forall>path port. socket_path le ''OmniSSHcygwin.sock'' (lw_path w) = Inr path \<and> fst (remove_old le path (lw_os w)) = None \<and>
            lg_ListenTcp le = Inr port \<longrightarrow>
              (\<exists>nonce. fst (makeSocket le path port (snd (remove_old le path (lw_os w)))) = Returned (Inr nonce)))"
    using assms
    by (auto simp: CygwinSock_RunAgent_def Let_def loopback_def dest: serve_and_close_listening
        split: option.splits sum.splits prod.splits outcome.splits)
qed

definition sample_legacy_env :: legacy_env where
  "sample_legacy_env =
     \<lparr>lg_os = quiet_env, lg_fp = sample_fp, lg_home = Inr ''H'', lg_Listen = \<lambda>_. None, lg_ListenTcp = Inr 50000,
      lg_uuid = Inl (ErrErrno 5), lg_UTF16 = \<lambda>_. None, lg_pid = 7\<rparr>"

definition sample_legacy_world :: legacy_world where
  "sample_legacy_world = \<lparr>lw_os = empty_world, lw_path = ''p'', lw_listening = None, lw_handlers = 0\<rparr>"

lemma sample_remove_old: "fst (remove_old sample_legacy_env ''p'' empty_world) = None"
  by (simp add: remove_old_def sample_legacy_env_def os_Stat_def fault_of_def quiet_env_def empty_world_def Let_def errors_Is_def)

theorem legacy_listeners_closed_witness:
  "\<exists>r w1. CygwinSock_RunAgent sample_legacy_env [] sample_legacy_world = Some (r, w1) \<and> lw_listening w1 \<noteq> None"
proof -
  obtain o1 where o: "remove_old sample_legacy_env ''p'' empty_world = (None, o1)" using sample_remove_old by (metis prod.collapse)
  have m: "makeSocket sample_legacy_env ''p'' 50000 o1 = (Returned (Inl (ErrErrno 5)), o1)"
    by (simp add: makeSocket_def sample_legacy_env_def)
  have p: "socket_path sample_legacy_env ''OmniSSHcygwin.sock'' ''p'' = Inr ''p''" by (simp add: socket_path_def)
  have t: "lg_ListenTcp sample_legacy_env = Inr 50000" by (simp add: sample_legacy_env_def)
  obtain r w1 where r: "CygwinSock_RunAgent sample_legacy_env [] sample_legacy_world = Some (r, w1)"
    using o m p t by (simp add: CygwinSock_RunAgent_def sample_legacy_world_def Let_def)
  have "lw_listening sample_legacy_world = None" by (simp add: sample_legacy_world_def)
  from legacy_listeners_closed [OF this, of sample_legacy_env "[]" "[]"] r o m p t
  show ?thesis by (auto simp: sample_legacy_world_def)
qed

text \<open>(legacy_socket_left).
  The socket file of the legacy agent names its port and nonce in the form the present program
  reads, with the same attributes.  The legacy agent never removes it, and at the same path the
  present program, finding no owner marker beside it, reports a conflict and leaves the file as it is.\<close>

theorem legacy_socket_left:
  assumes "lg_uuid le = Inr nonce" and "length nonce = 16" and "0 \<le> port" and "port < 65536"
    and "makeSocket le (cyg_path c) port w = (Returned (Inr nonce), w1)"
    and "quiet_os ce" and "w_files w1 (owner_path c) = None"
  shows "(\<exists>n. w_files w1 (cyg_path c) = Some n \<and> parseSocketNonce (string_of (f_data n)) = Some nonce \<and>
      f_attrs n = FILE_ATTRIBUTE_SYSTEM + FILE_ATTRIBUTE_READONLY) \<and>
    fst (prepareExisting ce c w1) = Some (ErrNew ''Cygwin socket conflict: socket and owner marker must both exist'') \<and>
    w_files (snd (prepareExisting ce c w1)) = w_files w1"
proof -
  let ?d = "bytes_of (socket_text port nonce)"
  obtain wa where wa: "os_WriteFile (lg_os le) (cyg_path c) ?d w = (None, wa)"
    and at: "SetFileAttributes (lg_os le) (cyg_path c) (or FILE_ATTRIBUTE_SYSTEM FILE_ATTRIBUTE_READONLY) wa = (None, w1)"
    using assms(5) unfolding makeSocket_text [OF assms(1,2)] by (auto split: option.splits prod.splits)
  obtain n where n: "w_files wa (cyg_path c) = Some n" "f_data n = ?d"
    using os_WriteFile_written [OF wa] by auto
  have f: "w_files w1 (cyg_path c) = Some (n\<lparr>f_attrs := FILE_ATTRIBUTE_SYSTEM + FILE_ATTRIBUTE_READONLY\<rparr>)"
    using at n by (auto simp: SetFileAttributes_def record_call_def Let_def FILE_ATTRIBUTE_SYSTEM_def FILE_ATTRIBUTE_READONLY_def
        split: option.splits)
  have "fst (prepareExisting ce c w1) = Some (ErrNew ''Cygwin socket conflict: socket and owner marker must both exist'') \<and>
    w_files (snd (prepareExisting ce c w1)) = w_files w1"
    using f assms(6,7) by (simp add: prepareExisting_def os_Stat_def record_call_def Let_def)
  then show ?thesis using f n parse_socket_text [of nonce port] assms(2-4) by simp
qed

definition sample_legacy_full :: legacy_env where
  "sample_legacy_full = sample_legacy_env\<lparr>lg_uuid := Inr sample_nonce\<rparr>"

theorem legacy_socket_left_witness:
  "fst (prepareExisting sample_cyg_env sample_cyg (snd (makeSocket sample_legacy_full (cyg_path sample_cyg) 50000 empty_world))) =
     Some (ErrNew ''Cygwin socket conflict: socket and owner marker must both exist'')"
proof -
  have l: "length sample_nonce = 16" by (simp add: sample_nonce_def)
  have u: "lg_uuid sample_legacy_full = Inr sample_nonce" by (simp add: sample_legacy_full_def)
  have m: "makeSocket sample_legacy_full (cyg_path sample_cyg) 50000 empty_world =
      (Returned (Inr sample_nonce), snd (makeSocket sample_legacy_full (cyg_path sample_cyg) 50000 empty_world))"
    unfolding makeSocket_text [OF u l]
    by (simp add: sample_legacy_full_def sample_legacy_env_def os_WriteFile_def os_defs fault_of_def quiet_env_def Let_def)
  have "w_files (snd (makeSocket sample_legacy_full (cyg_path sample_cyg) 50000 empty_world)) (owner_path sample_cyg) = None"
    unfolding makeSocket_text [OF u l]
    by (simp add: sample_legacy_full_def sample_legacy_env_def os_WriteFile_def os_defs fault_of_def quiet_env_def empty_world_def Let_def)
  from legacy_socket_left [OF u l _ _ m sample_quiet this] show ?thesis by simp
qed

end
