(* ===== verification/Legacy_Pageant.thy ===== *)
theory Legacy_Pageant
  imports Pageant
begin

text \<open>
  The Pageant window of the previous program (src/old/pkg/pageant/pageant.go), its client that asks whether
  another instance is running (client.go) and \<^verbatim>\<open>checkAlreadyRunning\<close> of src/old/main.go.

  The world and the Windows calls are those of the present Pageant interface, so that the two can be compared;
  the log also records that \<^verbatim>\<open>CheckFunc\<close>, which shows the window, was called.
  The legacy code makes slices of the length the request claims; \<open>Outside\<close> is a request or a reply that does not fit the
  view: memory the mapping does not have is read or written, and the model says nothing beyond that.
\<close>

section \<open>pageant.go\<close>

definition checkID :: u64 where "checkID = 0x02e08fc7"

datatype copied = Copied "goerr option" | CopyPanic string | Outside

text \<open>\<^verbatim>\<open>int32\<close>: the length as the legacy code reads it.\<close>

definition message_len :: "u32 \<Rightarrow> int" where "message_len n = sint n + 4"

text \<open>\<^verbatim>\<open>copy(m, out.Bytes())\<close> to the start of the view.\<close>

definition put_reply :: "u64 \<Rightarrow> bytes \<Rightarrow> 's pworld \<Rightarrow> copied \<times> 's pworld" where
  "put_reply address out w =
     (let mapped = pw_region w address in
      if length out \<le> length mapped
      then (Copied None, w\<lparr>pw_region := (pw_region w)(address := out @ drop (length out) mapped)\<rparr>)
      else (Outside, w))"

definition check_reply :: "string \<Rightarrow> bytes" where
  "check_reply appName = be_put32 (of_nat (length appName)) @ bytes_of appName"

definition legacy_view :: "'s pageant_env \<Rightarrow> string \<Rightarrow> bool \<Rightarrow> u64 \<Rightarrow> 's pworld \<Rightarrow> copied \<times> 's pworld" where
  "legacy_view env appName checkMode address w =
     (let mapped = pw_region w address in
      case be_get32 mapped of
        None \<Rightarrow> (Outside, w)
      | Some n \<Rightarrow>
          if checkMode then put_reply address (check_reply appName) (w\<lparr>pw_log := pw_log w @ [''CheckFunc'']\<rparr>)
          else if message_len n > int (length mapped) then (Outside, w)
          else
            (case pe_ServeAgent env (pw_agent w) (take (nat (message_len n)) mapped) of
               (ServePanic m, s) \<Rightarrow> (CopyPanic m, w\<lparr>pw_agent := s\<rparr>)
             | (Served err out, s) \<Rightarrow>
                 if err \<noteq> None \<and> err \<noteq> Some EOF then (Copied (map_option (ErrWrap ''ServeAgent'') err), w\<lparr>pw_agent := s\<rparr>)
                 else put_reply address out (w\<lparr>pw_agent := s\<rparr>)))"

text \<open>The view is mapped and never unmapped; the handle is closed on every path.\<close>

definition handleCopyMessage :: "'s pageant_env \<Rightarrow> string \<Rightarrow> copyDataStruct \<Rightarrow> 's pworld \<Rightarrow> copied \<times> 's pworld" where
  "handleCopyMessage env appName d w =
     (if cd_Data d \<noteq> copyDataID \<and> cd_Data d \<noteq> checkID then (Copied (Some (ErrNew ''ID is different'')), w)
      else
        (let mapname = string_of (memoryAt (pe_memory env) (cd_Pointer d) (unat (cd_Size d - 1))) in
         if pe_UTF16PtrFromString env mapname \<noteq> None then (CopyPanic ''syscall: string with NUL passed to StringToUTF16'', w)
         else
           (case pe_OpenFileMapping env mapname of (h, _) \<Rightarrow>
              if h = 0 then (Copied (Some (ErrNew ''err:OpenFileMappingW'')), w)
              else
                (let w1 = pg_emit (EvOpenFileMapping h) w;
                     (r, w2) =
                       (case pe_MapViewOfFile env h of (addr, errno) \<Rightarrow>
                          if addr = 0 then (Copied (Some (ErrNew ''Failed: MapViewOfFile'')), w1)
                          else legacy_view env appName (cd_Data d = checkID) addr (pg_emit (EvMapView addr) w1)) in
                 (r, pg_emit (EvCloseHandle h) w2)))))"

definition wndProc :: "'s pageant_env \<Rightarrow> string \<Rightarrow> message \<Rightarrow> 's pworld \<Rightarrow> u64 option \<times> 's pworld" where
  "wndProc env appName m w =
     (if msg_Message m = wmCopyData
      then (case handleCopyMessage env appName (copyData_at (pe_memory env) (msg_LParam m)) w of
              (Copied None, w1) \<Rightarrow> (Some 1, w1)
            | (Copied (Some _), w1) \<Rightarrow> (Some 0, w1\<lparr>pw_log := pw_log w1 @ [''err'']\<rparr>)
            | (_, w1) \<Rightarrow> (None, w1))
      else (Some (pe_DefWindowProc env m), w))"

section \<open>client.go and checkAlreadyRunning\<close>

definition legacyMaxMessageLen :: nat where "legacyMaxMessageLen = 8192"

definition mkMsg :: "bytes \<Rightarrow> bytes" where
  "mkMsg req = be_put32 (of_nat (length req)) @ req"

abbreviation "ErrPageantNotFound \<equiv> ErrNew ''pageant process not found''"
abbreviation "ErrSendMessage \<equiv> ErrNew ''error sending message''"

text \<open>
  \<open>window\<close> is the window found, \<open>create\<close> and \<open>view\<close> the errors of making and mapping the shared memory, \<open>send\<close> what the window
  answers and leaves in the memory.
\<close>

definition AlreadyRunning ::
  "u64 \<Rightarrow> goerr option \<Rightarrow> goerr option \<Rightarrow> (bytes \<Rightarrow> u64 \<times> bytes) \<Rightarrow> bytes result outcome" where
  "AlreadyRunning window create view send =
     (if window = 0 then Returned (Inl ErrPageantNotFound)
      else
        (case create of
           Some e \<Rightarrow> Returned (Inl e)
         | None \<Rightarrow>
             (case view of
                Some e \<Rightarrow> Returned (Inl e)
              | None \<Rightarrow>
                  (let msg = mkMsg [11];
                       mm = msg @ replicate (legacyMaxMessageLen + 4 - length msg) 0;
                       (resp, mm1) = send mm; mmSlice = take legacyMaxMessageLen mm1 in
                   if resp = 0 then Returned (Inl ErrSendMessage)
                   else
                     (case be_get32 mmSlice of
                        None \<Rightarrow> Panicked ''index out of range''
                      | Some respLen \<Rightarrow>
                          if unat respLen > legacyMaxMessageLen - 4 then Returned (Inl ErrSendMessage)
                          else Returned (Inr (take (unat respLen + 4) mmSlice)))))))"

text \<open>Whether the program exits.\<close>

definition checkAlreadyRunning :: "bytes result outcome \<Rightarrow> bool" where
  "checkAlreadyRunning r = (case r of Returned (Inr b) \<Rightarrow> string_of (drop 4 b) = ''OmniSSHAgent'' | _ \<Rightarrow> False)"

section \<open>Lemmas\<close>

lemma memoryAt_init: "take (n - Suc 0) (memoryAt mem p n) = memoryAt mem p (n - Suc 0)"
  by (cases n) (simp_all add: memoryAt_def)

lemma be_get32_take: "be_get32 (take 4 bs) = be_get32 bs"
  by (cases bs rule: be_get32.cases) simp_all

lemma unat_minus_one: "2 \<le> sz \<Longrightarrow> unat (sz - 1 :: u32) = unat sz - 1"
  by (rule unat_minus_one) (auto simp: word_le_nat_alt)

lemma message_len_small:
  assumes "uint n \<le> MaxMessageLen"
  shows "message_len n = uint n + 4"
proof -
  have "uint n < 2 ^ 31" using assms by (simp add: MaxMessageLen_def)
  moreover have "- (2 ^ 31) \<le> uint n" by (rule order_trans [OF _ uint_ge_0]) simp
  ultimately have "sint n = uint n" using signed_take_bit_int_eq_self [of 31 "uint n"] by (simp add: sint_uint)
  then show ?thesis by (simp add: message_len_def)
qed

text \<open>A request the present interface answered: the handle, the view and what \<^verbatim>\<open>handle_view\<close> made of it.\<close>

lemma handle_answered:
  assumes "handle env (Some d) w = (Returned None, w1)"
  obtains h e a e2 w2 where "cd_Data d = copyDataID" and "2 \<le> cd_Size d"
    and "pe_UTF16PtrFromString env (string_of (memoryAt (pe_memory env) (cd_Pointer d) (unat (cd_Size d - 1)))) = None"
    and "pe_OpenFileMapping env (string_of (memoryAt (pe_memory env) (cd_Pointer d) (unat (cd_Size d - 1)))) = (h, e)"
    and "h \<noteq> 0" and "pe_MapViewOfFile env h = (a, e2)" and "a \<noteq> 0"
    and "handle_view env a (pg_emit (EvMapView a) (pg_emit (EvOpenFileMapping h) w)) = (Returned None, w2)"
    and "w1 = pg_emit (EvCloseHandle h) (pg_emit (EvUnmapView a) w2)"
  using assms
  by (auto simp: handle_def handle_mapping_def Let_def memoryAt_init unat_minus_one not_less split: if_splits option.splits prod.splits)

lemma legacy_view_answered:
  assumes "handle_view env a w = (Returned None, w2)"
    and "\<And>s req err out s1. pe_ServeAgent env s req = (Served err out, s1) \<Longrightarrow> err = None \<or> err = Some EOF"
  shows "legacy_view env appName False a w = (Copied None, w2)"
proof -
  obtain n err out s where n: "be_get32 (pw_region w a) = Some n" "uint n \<le> MaxMessageLen" "uint n + 4 \<le> int (length (pw_region w a))"
    and sv: "pe_ServeAgent env (pw_agent w) (take (nat (uint n + 4)) (pw_region w a)) = (Served err out, s)"
    and r: "length (if serve_failed err then failure_reply else out) \<le> length (pw_region w a)"
    and w2: "w2 = w\<lparr>pw_agent := s, pw_region := (pw_region w)(a := (if serve_failed err then failure_reply else out) @
        drop (length (if serve_failed err then failure_reply else out)) (pw_region w a))\<rparr>"
    using assms(1)
    by (auto simp: handle_view_def Let_def be_get32_take not_less split: option.splits if_splits prod.splits served.splits)
  have e: "err = None \<or> err = Some EOF" by (rule assms(2) [OF sv])
  then have "\<not> serve_failed err" by (auto simp: serve_failed_def errors_Is_def)
  with e show ?thesis using n sv r w2
    by (auto simp: legacy_view_def put_reply_def message_len_small Let_def)
qed

section \<open>Properties\<close>



text \<open>
  The window's answer to the client of another instance: the client's message is in the mapping \<open>a\<close> when the
  window gets it, and the client reads what the window left there.
\<close>

definition window_answer :: "'s pageant_env \<Rightarrow> string \<Rightarrow> u64 \<Rightarrow> u64 \<Rightarrow> 's pworld \<Rightarrow> bytes \<Rightarrow> u64 \<times> bytes" where
  "window_answer env appName a lp w mm =
     (case wndProc env appName \<lparr>msg_Window = 1, msg_Message = wmCopyData, msg_WParam = 0, msg_LParam = lp\<rparr>
         (w\<lparr>pw_region := (pw_region w)(a := mm)\<rparr>) of
        (r, w1) \<Rightarrow> ((case r of None \<Rightarrow> 0 | Some x \<Rightarrow> x), pw_region w1 a))"

lemma length_check_reply [simp]: "length (check_reply appName) = 4 + length appName"
  by (simp add: check_reply_def be_put32_def)

lemma window_answer_check:
  assumes "cd_Data (copyData_at (pe_memory env) lp) = checkID"
    and "pe_UTF16PtrFromString env name = None" and "pe_OpenFileMapping env name = (h, e)" and "h \<noteq> 0"
    and "pe_MapViewOfFile env h = (a, e2)" and "a \<noteq> 0"
    and "name = string_of (memoryAt (pe_memory env) (cd_Pointer (copyData_at (pe_memory env) lp))
      (unat (cd_Size (copyData_at (pe_memory env) lp) - 1)))"
    and "be_get32 mm = Some n" and "length appName + 4 \<le> length mm"
  shows "window_answer env appName a lp w mm = (1, check_reply appName @ drop (length appName + 4) mm)"
  using assms
  by (simp add: window_answer_def wndProc_def handleCopyMessage_def legacy_view_def put_reply_def pg_emit_def Let_def add.commute)

text \<open>(legacy_instance_found).
  An instance that asks the window of a running one gets the running program's name, whole, if the shared memory can be opened
  and mapped on both sides; so it exits exactly when the window belongs to the program itself, not to another Pageant that
  answers the question.\<close>

theorem legacy_instance_found:
  assumes "cd_Data (copyData_at (pe_memory env) lp) = checkID"
    and "pe_UTF16PtrFromString env name = None" and "pe_OpenFileMapping env name = (h, e)" and "h \<noteq> 0"
    and "pe_MapViewOfFile env h = (a, e2)" and "a \<noteq> 0"
    and "name = string_of (memoryAt (pe_memory env) (cd_Pointer (copyData_at (pe_memory env) lp))
      (unat (cd_Size (copyData_at (pe_memory env) lp) - 1)))"
    and "window \<noteq> 0" and "length appName \<le> 8188"
  shows "AlreadyRunning window None None (window_answer env appName a lp w) = Returned (Inr (check_reply appName)) \<and>
    checkAlreadyRunning (AlreadyRunning window None None (window_answer env appName a lp w)) = (appName = ''OmniSSHAgent'')"
proof -
  let ?mm = "mkMsg [11] @ replicate (legacyMaxMessageLen + 4 - length (mkMsg [11])) 0"
  have mm: "be_get32 ?mm = Some 1" "length ?mm = 8196"
    by (simp_all add: mkMsg_def legacyMaxMessageLen_def)
  have "window_answer env appName a lp w ?mm = (1, check_reply appName @ drop (length appName + 4) ?mm)"
    by (rule window_answer_check [OF assms(1-7) mm(1)]) (use assms(9) mm(2) in linarith)
  moreover have "be_get32 (check_reply appName @ xs) = Some (of_nat (length appName))" for xs
    by (simp add: check_reply_def)
  moreover have "unat (of_nat (length appName) :: u32) = length appName" using assms(9) by (simp add: unat_of_nat)
  ultimately have r: "AlreadyRunning window None None (window_answer env appName a lp w) = Returned (Inr (check_reply appName))"
    using assms(8,9) by (simp add: AlreadyRunning_def legacyMaxMessageLen_def Let_def add.commute)
  have "drop 4 (check_reply appName) = bytes_of appName" by (simp add: check_reply_def be_put32_def)
  then show ?thesis using r by (simp add: checkAlreadyRunning_def)
qed

definition check_memory :: "u64 \<Rightarrow> byte" where
  "check_memory a =
     (if 2000 \<le> a \<and> a < 2024
      then [0xc7, 0x8f, 0xe0, 2, 0, 0, 0, 0, 15, 0, 0, 0, 0, 0, 0, 0, 0xe8, 3, 0, 0, 0, 0, 0, 0] ! unat (a - 2000)
      else sample_memory a)"

theorem legacy_instance_found_witness:
  "checkAlreadyRunning (AlreadyRunning 5 None None
     (window_answer (sample_pageant_env\<lparr>pe_memory := check_memory\<rparr>) ''OmniSSHAgent'' 9 2000 sample_pworld))"
proof -
  let ?env = "sample_pageant_env\<lparr>pe_memory := check_memory\<rparr>"
  have d: "cd_Data (copyData_at check_memory 2000) = checkID" by code_simp
  have m: "pe_memory ?env = check_memory" by simp
  have "checkAlreadyRunning (AlreadyRunning 5 None None (window_answer ?env ''OmniSSHAgent'' 9 2000 sample_pworld)) =
      (''OmniSSHAgent'' = ''OmniSSHAgent'')"
    by (rule conjunct2 [OF legacy_instance_found [OF _ _ _ _ _ _ refl]])
      (simp_all add: d sample_pageant_env_def, code_simp+)
  then show ?thesis by simp
qed

end
