(* ===== verification/Legacy_Tray.thy ===== *)
theory Legacy_Tray
  imports Component
begin

text \<open>
  The tray icon of the previous program (src/old/pkg/wintray/wintray.go, menuitem.go) and the part of src/old/app.go that
  drives it.

  Other goroutines change the tray only by commands on a channel of 128, which the tray's thread runs
  when it gets the message posted with each.  A command that updates a menu item holds the item by reference: what
  it shows are the item's fields when it runs, so items are kept in a heap by identifier.

  Windows menus are maps from a menu and an identifier to what is shown; the order of the items is not
  modelled.  \<^verbatim>\<open>SetMenuItemInfo\<close> succeeds if the menu has the item.  \<open>we_fail\<close> says which of the other calls fail, by
  number; \<open>we_utf16\<close> is \<^verbatim>\<open>windows.StringToUTF16\<close>, which panics (None) for a text with a NUL.
\<close>

section \<open>State\<close>

type_synonym u16 = "16 word"

record MenuItem =
  mi_title :: string
  mi_tooltip :: string
  mi_disabled :: bool
  mi_checked :: bool
  mi_isCheckable :: bool
  mi_parent :: "u32 option"

datatype tray_cmd = CmdSetIcon | CmdTooltip string | CmdBalloon string string | CmdUpdate u32 | CmdSeparator u32

datatype shell_note = NoteAdd | NoteModify | NoteDelete | NoteIcon | NoteTip "u16 list" | NoteInfo "u16 list" "u16 list"

record shown =
  sh_title :: string
  sh_disabled :: bool
  sh_checked :: bool
  sh_separator :: bool
  sh_submenu :: "nat option"

record TrayIcon =
  wt_hwnd :: nat
  wt_currentMenuID :: u32
  wt_heap :: "u32 \<rightharpoonup> MenuItem"
  wt_maps :: bool
  wt_menuItems :: "u32 set"
  wt_menus :: "u32 \<rightharpoonup> nat"
  wt_menuOf :: "u32 \<rightharpoonup> nat"
  wt_content :: "nat \<times> u32 \<rightharpoonup> shown"
  wt_ch :: "tray_cmd list"
  wt_shuttingDown :: bool
  wt_posted :: nat
  wt_notes :: "shell_note list"
  wt_calls :: nat

record wt_env =
  we_utf16 :: "string \<Rightarrow> u16 list option"
  we_fail :: "nat \<Rightarrow> bool"
  we_handle :: "nat \<Rightarrow> nat"

definition NewTrayIcon :: TrayIcon where
  "NewTrayIcon =
     \<lparr>wt_hwnd = 0, wt_currentMenuID = 0, wt_heap = Map.empty, wt_maps = False, wt_menuItems = {}, wt_menus = Map.empty,
      wt_menuOf = Map.empty, wt_content = Map.empty, wt_ch = [], wt_shuttingDown = False, wt_posted = 0, wt_notes = [],
      wt_calls = 0\<rparr>"

text \<open>One Windows call: whether it failed.\<close>

definition wt_call :: "wt_env \<Rightarrow> TrayIcon \<Rightarrow> bool \<times> TrayIcon" where
  "wt_call we ti = (we_fail we (wt_calls ti), ti\<lparr>wt_calls := Suc (wt_calls ti)\<rparr>)"

section \<open>The command channel\<close>

definition tray_capacity :: nat where "tray_capacity = 128"

text \<open>\<^verbatim>\<open>enqueueCommand\<close>: None is a caller that blocks on the full channel.\<close>

definition enqueueCommand :: "tray_cmd \<Rightarrow> TrayIcon \<Rightarrow> TrayIcon option" where
  "enqueueCommand cmd ti =
     (if wt_shuttingDown ti then Some ti
      else if length (wt_ch ti) < tray_capacity
      then Some (ti\<lparr>wt_ch := wt_ch ti @ [cmd], wt_posted := (if wt_hwnd ti \<noteq> 0 then Suc (wt_posted ti) else wt_posted ti)\<rparr>)
      else None)"

definition stopCommandQueue :: "TrayIcon \<Rightarrow> TrayIcon" where
  "stopCommandQueue ti = ti\<lparr>wt_shuttingDown := True\<rparr>"

definition SetTooltip :: "string \<Rightarrow> TrayIcon \<Rightarrow> TrayIcon option" where
  "SetTooltip tooltip = enqueueCommand (CmdTooltip tooltip)"

definition SetIcon :: "TrayIcon \<Rightarrow> TrayIcon option" where
  "SetIcon = enqueueCommand CmdSetIcon"

definition ShowBalloonNotification :: "string \<Rightarrow> string \<Rightarrow> TrayIcon \<Rightarrow> TrayIcon option" where
  "ShowBalloonNotification title txt = enqueueCommand (CmdBalloon title txt)"

section \<open>Menu items\<close>

definition newMenuItem :: "string \<Rightarrow> string \<Rightarrow> u32 option \<Rightarrow> bool \<Rightarrow> bool \<Rightarrow> TrayIcon \<Rightarrow> u32 \<times> TrayIcon" where
  "newMenuItem title tooltip parent checkable checked ti =
     (let i = wt_currentMenuID ti + 1 in
      (i, ti\<lparr>wt_currentMenuID := i,
             wt_heap := (wt_heap ti)(i \<mapsto> \<lparr>mi_title = title, mi_tooltip = tooltip, mi_disabled = False, mi_checked = checked,
               mi_isCheckable = checkable, mi_parent = parent\<rparr>)\<rparr>))"

definition item_update :: "u32 \<Rightarrow> TrayIcon \<Rightarrow> TrayIcon option" where
  "item_update i = enqueueCommand (CmdUpdate i)"

definition set_item :: "(MenuItem \<Rightarrow> MenuItem) \<Rightarrow> u32 \<Rightarrow> TrayIcon \<Rightarrow> TrayIcon option" where
  "set_item f i ti = item_update i (ti\<lparr>wt_heap := (wt_heap ti)(i := map_option f (wt_heap ti i))\<rparr>)"

definition item_Enable :: "u32 \<Rightarrow> TrayIcon \<Rightarrow> TrayIcon option" where
  "item_Enable = set_item (\<lambda>it. it\<lparr>mi_disabled := False\<rparr>)"

definition item_Disable :: "u32 \<Rightarrow> TrayIcon \<Rightarrow> TrayIcon option" where
  "item_Disable = set_item (\<lambda>it. it\<lparr>mi_disabled := True\<rparr>)"

definition item_Check :: "u32 \<Rightarrow> TrayIcon \<Rightarrow> TrayIcon option" where
  "item_Check = set_item (\<lambda>it. it\<lparr>mi_checked := True\<rparr>)"

definition item_Uncheck :: "u32 \<Rightarrow> TrayIcon \<Rightarrow> TrayIcon option" where
  "item_Uncheck = set_item (\<lambda>it. it\<lparr>mi_checked := False\<rparr>)"

definition AddMenuItem :: "string \<Rightarrow> string \<Rightarrow> TrayIcon \<Rightarrow> (u32 \<times> TrayIcon) option" where
  "AddMenuItem title tooltip ti =
     (case newMenuItem title tooltip None False False ti of (i, ti1) \<Rightarrow> map_option (Pair i) (item_update i ti1))"

definition AddMenuItemCheckbox :: "string \<Rightarrow> string \<Rightarrow> bool \<Rightarrow> TrayIcon \<Rightarrow> (u32 \<times> TrayIcon) option" where
  "AddMenuItemCheckbox title tooltip checked ti =
     (case newMenuItem title tooltip None True checked ti of (i, ti1) \<Rightarrow> map_option (Pair i) (item_update i ti1))"

definition item_Disabled :: "u32 \<Rightarrow> TrayIcon \<Rightarrow> bool option" where
  "item_Disabled i ti = map_option mi_disabled (wt_heap ti i)"

definition item_Checked :: "u32 \<Rightarrow> TrayIcon \<Rightarrow> bool option" where
  "item_Checked i ti = map_option mi_checked (wt_heap ti i)"

definition newSeparatorMenuItem :: "u32 option \<Rightarrow> TrayIcon \<Rightarrow> TrayIcon option" where
  "newSeparatorMenuItem parent = enqueueCommand (CmdSeparator (case parent of None \<Rightarrow> 0 | Some p \<Rightarrow> p))"

definition AddSeparator :: "TrayIcon \<Rightarrow> TrayIcon option" where
  "AddSeparator = newSeparatorMenuItem None"

section \<open>On the tray's thread\<close>

definition parentID :: "MenuItem \<Rightarrow> u32" where
  "parentID it = (case mi_parent it of None \<Rightarrow> 0 | Some p \<Rightarrow> p)"

definition shown_of :: "MenuItem \<Rightarrow> nat option \<Rightarrow> shown" where
  "shown_of it sub =
     \<lparr>sh_title = mi_title it, sh_disabled = mi_disabled it, sh_checked = mi_checked it, sh_separator = False, sh_submenu = sub\<rparr>"

text \<open>\<^verbatim>\<open>updateSubMenuItem\<close>: a menu for the item \<open>parent\<close>; a missing entry of \<^verbatim>\<open>menuOf\<close> is the null menu.\<close>

definition updateSubMenuItem :: "wt_env \<Rightarrow> u32 option \<Rightarrow> TrayIcon \<Rightarrow> nat option \<times> TrayIcon" where
  "updateSubMenuItem we parent ti =
     (case wt_call we ti of
        (True, ti1) \<Rightarrow> (None, ti1)
      | (False, ti1) \<Rightarrow>
          (let menu = we_handle we (wt_calls ti); itemID = (case parent of None \<Rightarrow> 0 | Some p \<Rightarrow> p);
               hMenu = (case wt_menuOf ti1 itemID of None \<Rightarrow> 0 | Some h \<Rightarrow> h) in
           case wt_content ti1 (hMenu, itemID) of
             None \<Rightarrow> (None, ti1)
           | Some sh \<Rightarrow>
               (Some menu, ti1\<lparr>wt_content := (wt_content ti1)((hMenu, itemID) \<mapsto> sh\<lparr>sh_submenu := Some menu\<rparr>),
                               wt_menus := (wt_menus ti1)(itemID \<mapsto> menu)\<rparr>)))"

definition insert_item :: "wt_env \<Rightarrow> nat \<Rightarrow> u32 \<Rightarrow> MenuItem \<Rightarrow> TrayIcon \<Rightarrow> TrayIcon" where
  "insert_item we menu i it ti =
     (case wt_call we ti of
        (True, ti1) \<Rightarrow> ti1
      | (False, ti1) \<Rightarrow>
          ti1\<lparr>wt_content := (wt_content ti1)((menu, i) \<mapsto> shown_of it (wt_menus ti1 i)), wt_menuOf := (wt_menuOf ti1)(i \<mapsto> menu)\<rparr>)"

definition updateMenuItem :: "wt_env \<Rightarrow> u32 \<Rightarrow> MenuItem \<Rightarrow> TrayIcon \<Rightarrow> TrayIcon" where
  "updateMenuItem we i it ti =
     (case wt_call we ti of
        (True, ti1) \<Rightarrow> ti1
      | (False, ti1) \<Rightarrow>
          (case wt_menus ti1 (parentID it) of
             Some menu \<Rightarrow>
               (case wt_content ti1 (menu, i) of
                  Some sh \<Rightarrow> ti1\<lparr>wt_content := (wt_content ti1)((menu, i) \<mapsto> shown_of it (sh_submenu sh))\<rparr>
                | None \<Rightarrow> insert_item we menu i it ti1)
           | None \<Rightarrow>
               (case updateSubMenuItem we (mi_parent it) ti1 of
                  (None, ti2) \<Rightarrow> ti2
                | (Some menu, ti2) \<Rightarrow> insert_item we menu i it (ti2\<lparr>wt_menus := (wt_menus ti2)(parentID it \<mapsto> menu)\<rparr>))))"

definition insertSeparator :: "wt_env \<Rightarrow> u32 \<Rightarrow> TrayIcon \<Rightarrow> TrayIcon" where
  "insertSeparator we pid ti =
     (case wt_menus ti pid of
        None \<Rightarrow> ti
      | Some menu \<Rightarrow>
          (let i = wt_currentMenuID ti + 1; ti1 = ti\<lparr>wt_currentMenuID := i\<rparr> in
           case wt_call we ti1 of
             (True, ti2) \<Rightarrow> ti2
           | (False, ti2) \<Rightarrow>
               ti2\<lparr>wt_content := (wt_content ti2)((menu, i) \<mapsto>
                 \<lparr>sh_title = '''', sh_disabled = False, sh_checked = False, sh_separator = True, sh_submenu = None\<rparr>)\<rparr>))"

text \<open>\<^verbatim>\<open>Notify\<close>: the call is recorded whether it succeeds or not.\<close>

definition wt_notify :: "wt_env \<Rightarrow> shell_note \<Rightarrow> TrayIcon \<Rightarrow> bool \<times> TrayIcon" where
  "wt_notify we note ti = (case wt_call we (ti\<lparr>wt_notes := wt_notes ti @ [note]\<rparr>) of (failed, ti1) \<Rightarrow> (\<not> failed, ti1))"

text \<open>The message shown, and the exit code.\<close>

definition reportTrayFatalError :: "string \<Rightarrow> (string \<times> string) \<times> int" where
  "reportTrayFatalError reason = ((''OmniSSHAgent'', reason), 1)"

text \<open>What is logged.\<close>

definition unregisterIcon :: "wt_env \<Rightarrow> TrayIcon \<Rightarrow> string list \<times> TrayIcon" where
  "unregisterIcon we ti =
     (case wt_notify we NoteDelete ti of (ok, ti1) \<Rightarrow> (if ok then [] else [''wintray: NIM_DELETE failed''], ti1))"

definition nil_map :: string where "nil_map = ''assignment to entry in nil map''"

definition nul_text :: string where "nul_text = ''windows: string with NUL passed to StringToUTF16''"

fun run_cmd :: "wt_env \<Rightarrow> tray_cmd \<Rightarrow> TrayIcon \<Rightarrow> unit outcome \<times> TrayIcon" where
  "run_cmd we CmdSetIcon ti = (Returned (), snd (wt_notify we NoteIcon ti))"
| "run_cmd we (CmdTooltip t) ti =
     (case we_utf16 we t of
        None \<Rightarrow> (Panicked nul_text, ti)
      | Some u \<Rightarrow> (Returned (), snd (wt_notify we (NoteTip (take 128 u)) ti)))"
| "run_cmd we (CmdBalloon title txt) ti =
     (case (if title = '''' then Some [] else we_utf16 we title) of
        None \<Rightarrow> (Panicked nul_text, ti)
      | Some ut \<Rightarrow>
          (case we_utf16 we txt of
             None \<Rightarrow> (Panicked nul_text, ti)
           | Some u \<Rightarrow> (Returned (), snd (wt_notify we (NoteInfo (take 64 ut) (take 256 u)) ti))))"
| "run_cmd we (CmdUpdate i) ti =
     (if wt_maps ti
      then (Returned (), case wt_heap ti i of None \<Rightarrow> ti
              | Some it \<Rightarrow> updateMenuItem we i it (ti\<lparr>wt_menuItems := insert i (wt_menuItems ti)\<rparr>))
      else (Panicked nil_map, ti))"
| "run_cmd we (CmdSeparator p) ti = (Returned (), insertSeparator we p ti)"

fun run_cmds :: "wt_env \<Rightarrow> tray_cmd list \<Rightarrow> TrayIcon \<Rightarrow> unit outcome \<times> TrayIcon" where
  "run_cmds we [] ti = (Returned (), ti\<lparr>wt_ch := []\<rparr>)"
| "run_cmds we (c # cs) ti =
     (case run_cmd we c ti of
        (Returned _, ti1) \<Rightarrow> run_cmds we cs ti1
      | (Panicked m, ti1) \<Rightarrow> (Panicked m, ti1\<lparr>wt_ch := cs\<rparr>))"

definition handleCommands :: "wt_env \<Rightarrow> TrayIcon \<Rightarrow> unit outcome \<times> TrayIcon" where
  "handleCommands we ti = run_cmds we (wt_ch ti) ti"

definition createMenu :: "wt_env \<Rightarrow> TrayIcon \<Rightarrow> bool \<times> TrayIcon" where
  "createMenu we ti =
     (case wt_call we ti of
        (True, ti1) \<Rightarrow> (False, ti1)
      | (False, ti1) \<Rightarrow>
          (case wt_call we (ti1\<lparr>wt_maps := True, wt_menuItems := {}, wt_menus := [0 \<mapsto> we_handle we (wt_calls ti)], wt_menuOf := Map.empty\<rparr>) of
             (failed, ti2) \<Rightarrow> (\<not> failed, ti2)))"

text \<open>\<^verbatim>\<open>registerIcon\<close>: None is the exit of the program after its message box.\<close>

definition registerIcon :: "wt_env \<Rightarrow> TrayIcon \<Rightarrow> TrayIcon option" where
  "registerIcon we ti =
     (case wt_notify we NoteAdd ti of
        (False, _) \<Rightarrow> None
      | (True, ti1) \<Rightarrow> Some (snd (wt_notify we NoteModify ti1)))"

definition menuSelected :: "(u32 \<Rightarrow> bool) \<Rightarrow> u32 \<Rightarrow> TrayIcon \<Rightarrow> u32 option result" where
  "menuSelected waiting i ti =
     (if i \<notin> wt_menuItems ti then Inl (ErrNew ''no menu item with ID'') else Inr (if waiting i then Some i else None))"

datatype wt_effect = EffBalloonClick | EffTrayClick | EffPopup | EffClicked u32 | EffQuit | EffDefault

definition TrayIconMsg :: u32 where "TrayIconMsg = 0x8001"
definition trayCommandMessage :: u32 where "trayCommandMessage = 0x8002"
definition NIN_BALLOONUSERCLICK :: u32 where "NIN_BALLOONUSERCLICK = 0x405"

definition LOWORD :: "u64 \<Rightarrow> u32" where "LOWORD x = ucast x AND 0xFFFF"

text \<open>\<^verbatim>\<open>wndProc\<close>: the effects outside the tray's state.  \<^verbatim>\<open>WM_LBUTTONDOWN\<close> is 0x201, \<^verbatim>\<open>WM_RBUTTONUP\<close> 0x205,
  \<^verbatim>\<open>WM_COMMAND\<close> 0x111, \<^verbatim>\<open>WM_DESTROY\<close> 2.\<close>

definition wt_wndProc ::
  "wt_env \<Rightarrow> (u32 \<Rightarrow> bool) \<Rightarrow> u32 \<Rightarrow> u64 \<Rightarrow> u64 \<Rightarrow> TrayIcon \<Rightarrow> wt_effect list outcome \<times> TrayIcon" where
  "wt_wndProc we waiting msg wParam lParam ti =
     (if msg = TrayIconMsg then
        (Returned (let n = LOWORD lParam in
           if n = NIN_BALLOONUSERCLICK then [EffBalloonClick] else if n = 0x201 then [EffTrayClick]
           else if n = 0x205 then [EffPopup] else []), ti)
      else if msg = 0x111 then
        (Returned (if sint (ucast wParam :: u32) \<noteq> -1
           then (case menuSelected waiting (ucast wParam) ti of Inr (Some i) \<Rightarrow> [EffClicked i] | _ \<Rightarrow> []) else []), ti)
      else if msg = trayCommandMessage then
        (case handleCommands we ti of (Returned _, ti1) \<Rightarrow> (Returned [], ti1) | (Panicked m, ti1) \<Rightarrow> (Panicked m, ti1))
      else if msg = 2 then (Returned [EffQuit], ti)
      else (Returned [EffDefault], ti))"

text \<open>\<^verbatim>\<open>Run\<close> up to \<^verbatim>\<open>onReady\<close>: None is an exit or, before anything runs commands, a channel that is full.\<close>

definition createMainWindow :: "wt_env \<Rightarrow> TrayIcon \<Rightarrow> TrayIcon option" where
  "createMainWindow we ti =
     (case wt_call we ti of
        (True, _) \<Rightarrow> None
      | (False, ti1) \<Rightarrow> Some (ti1\<lparr>wt_hwnd := Suc (we_handle we (wt_calls ti))\<rparr>))"

definition wt_begin :: "wt_env \<Rightarrow> TrayIcon \<Rightarrow> TrayIcon option" where
  "wt_begin we ti =
     Option.bind (createMainWindow we ti) (\<lambda>ti1. Option.bind (registerIcon we (snd (createMenu we ti1))) SetIcon)"

definition wt_Quit :: "TrayIcon \<Rightarrow> TrayIcon" where
  "wt_Quit ti = (stopCommandQueue ti)\<lparr>wt_posted := Suc (wt_posted ti)\<rparr>"

section \<open>app.go\<close>

record app_ui =
  ui_debugItem :: "u32 option"
  ui_logDirItem :: "u32 option"
  ui_logEnabled :: bool
  ui_DebugLog :: bool

definition setTrayTooltip :: "nat result \<Rightarrow> TrayIcon \<Rightarrow> TrayIcon option" where
  "setTrayTooltip keyCount =
     SetTooltip (case keyCount of
       Inl _ \<Rightarrow> ''OmniSSHAgent''
     | Inr n \<Rightarrow> ''OmniSSHAgent - '' @ Itoa (int n) @ '' keys loaded'')"

definition applyDebugLogMenuState :: "app_ui \<Rightarrow> TrayIcon \<Rightarrow> TrayIcon option" where
  "applyDebugLogMenuState ui ti =
     (case ui_debugItem ui of
        None \<Rightarrow> Some ti
      | Some d \<Rightarrow>
          Option.bind (if ui_logEnabled ui then item_Check d ti else item_Uncheck d ti) (\<lambda>ti1.
            case ui_logDirItem ui of
              None \<Rightarrow> Some ti1
            | Some l \<Rightarrow> if ui_logEnabled ui then item_Enable l ti1 else item_Disable l ti1))"

definition setDebugLogEnabled :: "bool \<Rightarrow> app_ui \<Rightarrow> TrayIcon \<Rightarrow> (app_ui \<times> TrayIcon) option" where
  "setDebugLogEnabled enabled ui ti =
     (let ui1 = ui\<lparr>ui_logEnabled := enabled, ui_DebugLog := enabled\<rparr> in map_option (Pair ui1) (applyDebugLogMenuState ui1 ti))"

definition systrayOnReady :: "nat result \<Rightarrow> app_ui \<Rightarrow> TrayIcon \<Rightarrow> (app_ui \<times> TrayIcon) option" where
  "systrayOnReady keyCount ui ti =
     Option.bind (setTrayTooltip keyCount ti) (\<lambda>ti1.
     Option.bind (AddMenuItem ''ShowWindow'' ''Show main window'' ti1) (\<lambda>(_, ti2).
     Option.bind (AddMenuItem ''Quit'' ''Quit the whole app'' ti2) (\<lambda>(_, ti3).
     Option.bind (AddMenuItemCheckbox ''Debug log'' ''Enable debug log file output'' False ti3) (\<lambda>(d, ti4).
     Option.bind (AddMenuItem ''Open log directory'' ''Open log directory'' ti4) (\<lambda>(l, ti5).
       let ui1 = ui\<lparr>ui_debugItem := Some d, ui_logDirItem := Some l\<rparr> in
       map_option (Pair ui1) (applyDebugLogMenuState ui1 ti5))))))"

datatype notice_effect = EmitLoadKeys | UpdateTooltip | NotifySign | NoNotice

text \<open>\<^verbatim>\<open>App.notice\<close>; the data of a signing is an \<^verbatim>\<open>*agent.Key\<close> or another public key.\<close>

definition app_notice :: "string \<Rightarrow> bool \<Rightarrow> notice_effect" where
  "app_notice action isAgentKey =
     (if action \<in> {''Add'', ''Remove'', ''RemoveAll''} then EmitLoadKeys
      else if action \<in> {''Added'', ''Removed'', ''RemovedAll''} then UpdateTooltip
      else if action \<in> {''Sign'', ''SignWithFlags''} \<and> isAgentKey then NotifySign
      else NoNotice)"

section \<open>Lemmas\<close>

text \<open>A tray whose menu is made, with no item in a submenu; and an item that is shown as it is.\<close>

definition tray_made :: "TrayIcon \<Rightarrow> bool" where
  "tray_made ti \<longleftrightarrow> wt_maps ti \<and> wt_menus ti 0 \<noteq> None \<and> (\<forall>i it. wt_heap ti i = Some it \<longrightarrow> mi_parent it = None)"

definition shows_item :: "TrayIcon \<Rightarrow> u32 \<Rightarrow> bool" where
  "shows_item ti i \<longleftrightarrow>
     (case wt_heap ti i of
        None \<Rightarrow> True
      | Some it \<Rightarrow> \<exists>m sh. wt_menus ti 0 = Some m \<and> wt_content ti (m, i) = Some sh \<and> sh = shown_of it (sh_submenu sh))"

definition menu_inv :: "TrayIcon \<Rightarrow> bool" where
  "menu_inv ti \<longleftrightarrow> tray_made ti \<and> \<not> wt_shuttingDown ti \<and> (\<forall>i. CmdUpdate i \<in> set (wt_ch ti) \<or> shows_item ti i)"

abbreviation "no_fault we \<equiv> we_fail we = (\<lambda>_. False)"

lemma updateMenuItem_shows:
  assumes "no_fault we" and "tray_made ti" and "wt_heap ti i = Some it"
  shows "tray_made (updateMenuItem we i it ti) \<and> wt_heap (updateMenuItem we i it ti) = wt_heap ti \<and>
    wt_ch (updateMenuItem we i it ti) = wt_ch ti \<and> wt_shuttingDown (updateMenuItem we i it ti) = wt_shuttingDown ti \<and>
    shows_item (updateMenuItem we i it ti) i \<and> (\<forall>j. shows_item ti j \<longrightarrow> shows_item (updateMenuItem we i it ti) j)"
proof -
  obtain m where m: "wt_menus ti 0 = Some m" using assms(2) by (auto simp: tray_made_def)
  have p: "parentID it = 0" using assms(2,3) by (auto simp: tray_made_def parentID_def)
  show ?thesis
    using assms m p
    by (cases "wt_content ti (m, i)")
      (auto simp: updateMenuItem_def insert_item_def wt_call_def tray_made_def shows_item_def shown_of_def split: option.splits)
qed

text \<open>The commands the program queues: it never adds a separator.\<close>

fun plain_cmd :: "tray_cmd \<Rightarrow> bool" where
  "plain_cmd (CmdSeparator _) = False"
| "plain_cmd _ = True"

lemma wt_notify_frame:
  "tray_made (snd (wt_notify we n ti)) = tray_made ti" "wt_heap (snd (wt_notify we n ti)) = wt_heap ti"
  "wt_shuttingDown (snd (wt_notify we n ti)) = wt_shuttingDown ti"
  "shows_item (snd (wt_notify we n ti)) i = shows_item ti i"
  by (simp_all add: wt_notify_def wt_call_def tray_made_def shows_item_def cong: option.case_cong)

lemma run_cmd_shows:
  assumes "no_fault we" and "tray_made ti" and "plain_cmd c" and "run_cmd we c ti = (Returned u, ti1)"
  shows "tray_made ti1 \<and> wt_heap ti1 = wt_heap ti \<and> wt_shuttingDown ti1 = wt_shuttingDown ti \<and>
    (\<forall>i. c = CmdUpdate i \<or> shows_item ti i \<longrightarrow> shows_item ti1 i)"
proof (cases c)
  case (CmdUpdate i)
  let ?ti = "ti\<lparr>wt_menuItems := insert i (wt_menuItems ti)\<rparr>"
  have t: "tray_made ?ti" "shows_item ?ti j = shows_item ti j" for j using assms(2) by (simp_all add: tray_made_def shows_item_def cong: option.case_cong)
  have maps: "wt_maps ti" using assms(2) by (simp add: tray_made_def)
  show ?thesis
  proof (cases "wt_heap ti i")
    case None
    then have "ti1 = ti" using assms(4) CmdUpdate maps by simp
    then show ?thesis using assms(2) None CmdUpdate by (auto simp: shows_item_def)
  next
    case (Some it)
    then have "ti1 = updateMenuItem we i it ?ti" using assms(4) CmdUpdate maps by simp
    moreover have "wt_heap ?ti i = Some it" using Some by simp
    ultimately show ?thesis using updateMenuItem_shows [OF assms(1) t(1)] t(2) CmdUpdate by auto
  qed
qed (use assms in \<open>auto simp: wt_notify_frame split: option.splits if_splits\<close>)

lemma run_cmds_shows:
  assumes "no_fault we" and "tray_made ti" and "list_all plain_cmd cs" and "run_cmds we cs ti = (Returned u, ti1)"
  shows "tray_made ti1 \<and> wt_heap ti1 = wt_heap ti \<and> wt_shuttingDown ti1 = wt_shuttingDown ti \<and> wt_ch ti1 = [] \<and>
    (\<forall>i. CmdUpdate i \<in> set cs \<or> shows_item ti i \<longrightarrow> shows_item ti1 i)"
  using assms
proof (induction cs arbitrary: ti)
  case Nil
  then show ?case by (auto simp: tray_made_def shows_item_def cong: option.case_cong)
next
  case (Cons c cs)
  obtain v t where c: "run_cmd we c ti = (Returned v, t)"
    using Cons.prems(4) by (cases "run_cmd we c ti"; cases "fst (run_cmd we c ti)") auto
  have "plain_cmd c" "list_all plain_cmd cs" using Cons.prems(3) by simp_all
  with run_cmd_shows [OF Cons.prems(1,2) _ c] Cons.IH [of t] Cons.prems(1,4) c show ?case by auto
qed

lemma run_cmd_maps: "wt_maps (snd (run_cmd we c ti)) = wt_maps ti"
  by (cases c)
    (auto simp: wt_notify_def wt_call_def insertSeparator_def updateMenuItem_def updateSubMenuItem_def insert_item_def Let_def
      split: option.splits bool.splits)

fun text_ok :: "wt_env \<Rightarrow> tray_cmd \<Rightarrow> bool" where
  "text_ok we (CmdTooltip t) \<longleftrightarrow> we_utf16 we t \<noteq> None"
| "text_ok we (CmdBalloon h t) \<longleftrightarrow> (h = '''' \<or> we_utf16 we h \<noteq> None) \<and> we_utf16 we t \<noteq> None"
| "text_ok we _ \<longleftrightarrow> True"

lemma run_cmd_panics: "wt_maps ti \<Longrightarrow> fst (run_cmd we c ti) = Returned () \<longleftrightarrow> text_ok we c"
  by (cases c) (auto split: option.splits)

lemma run_cmds_panics: "wt_maps ti \<Longrightarrow> fst (run_cmds we cs ti) = Returned () \<longleftrightarrow> list_all (text_ok we) cs"
proof (induction cs arbitrary: ti)
  case (Cons c cs)
  then show ?case using run_cmd_panics [of ti we c] run_cmd_maps [of we c ti]
    by (cases "run_cmd we c ti"; cases "fst (run_cmd we c ti)") auto
qed simp

text \<open>What other goroutines and the tray's thread do, in any order; None is a caller that blocks or a thread that panicked.\<close>

datatype wt_op = OpAddItem string string | OpAddCheckbox string string bool | OpEnable u32 | OpDisable u32 | OpCheck u32 | OpUncheck u32
  | OpTooltip string | OpBalloon string string | OpRunCommands

fun wt_op_step :: "wt_env \<Rightarrow> wt_op \<Rightarrow> TrayIcon \<Rightarrow> TrayIcon option" where
  "wt_op_step we (OpAddItem t p) ti = map_option snd (AddMenuItem t p ti)"
| "wt_op_step we (OpAddCheckbox t p b) ti = map_option snd (AddMenuItemCheckbox t p b ti)"
| "wt_op_step we (OpEnable i) ti = item_Enable i ti"
| "wt_op_step we (OpDisable i) ti = item_Disable i ti"
| "wt_op_step we (OpCheck i) ti = item_Check i ti"
| "wt_op_step we (OpUncheck i) ti = item_Uncheck i ti"
| "wt_op_step we (OpTooltip t) ti = SetTooltip t ti"
| "wt_op_step we (OpBalloon h t) ti = ShowBalloonNotification h t ti"
| "wt_op_step we OpRunCommands ti = (case handleCommands we ti of (Returned _, ti1) \<Rightarrow> Some ti1 | (Panicked _, _) \<Rightarrow> None)"

fun wt_run :: "wt_env \<Rightarrow> wt_op list \<Rightarrow> TrayIcon \<Rightarrow> TrayIcon option" where
  "wt_run we [] ti = Some ti"
| "wt_run we (x # xs) ti = Option.bind (wt_op_step we x ti) (wt_run we xs)"

definition queue_inv :: "TrayIcon \<Rightarrow> bool" where
  "queue_inv ti \<longleftrightarrow> menu_inv ti \<and> list_all plain_cmd (wt_ch ti) \<and> length (wt_ch ti) \<le> tray_capacity"

lemma queue_inv_enqueue:
  assumes "queue_inv ti" and "plain_cmd c" and "enqueueCommand c ti = Some ti1"
  shows "queue_inv ti1"
  using assms by (auto simp: queue_inv_def menu_inv_def tray_made_def shows_item_def enqueueCommand_def split: if_splits cong: option.case_cong)

lemma queue_inv_item:
  assumes "queue_inv ti" and "mi_parent it = None" and "item_update i (ti\<lparr>wt_currentMenuID := n, wt_heap := (wt_heap ti)(i := Some it)\<rparr>) = Some ti1"
  shows "queue_inv ti1"
  using assms
  by (auto simp: queue_inv_def menu_inv_def tray_made_def shows_item_def item_update_def enqueueCommand_def split: if_splits cong: option.case_cong)

lemma queue_inv_set:
  assumes "queue_inv ti" and "\<And>it. mi_parent (f it) = mi_parent it" and "set_item f i ti = Some ti1"
  shows "queue_inv ti1"
proof (cases "wt_heap ti i")
  case None
  then have "(wt_heap ti)(i := map_option f (wt_heap ti i)) = wt_heap ti" by auto
  then show ?thesis using assms(1,3) queue_inv_enqueue [of ti "CmdUpdate i" ti1] by (simp add: set_item_def item_update_def)
next
  case (Some it)
  then have "mi_parent (f it) = None" using assms(1,2) by (auto simp: queue_inv_def menu_inv_def tray_made_def)
  from queue_inv_item [OF assms(1) this, of i "wt_currentMenuID ti" ti1] assms(3) Some show ?thesis by (simp add: set_item_def)
qed

lemma queue_inv_step:
  assumes "no_fault we" and "queue_inv ti" and "wt_op_step we x ti = Some ti1"
  shows "queue_inv ti1"
proof (cases x)
  case OpRunCommands
  then obtain u where r: "run_cmds we (wt_ch ti) ti = (Returned u, ti1)"
    using assms(3) by (auto simp: handleCommands_def split: prod.splits outcome.splits)
  have "tray_made ti" "list_all plain_cmd (wt_ch ti)" using assms(2) by (simp_all add: queue_inv_def menu_inv_def)
  from run_cmds_shows [OF assms(1) this r] show ?thesis using assms(2) by (auto simp: queue_inv_def menu_inv_def)
qed (use assms(2,3) in \<open>auto simp: AddMenuItem_def AddMenuItemCheckbox_def newMenuItem_def Let_def item_Enable_def item_Disable_def
    item_Check_def item_Uncheck_def SetTooltip_def ShowBalloonNotification_def
    dest: queue_inv_set [OF assms(2), rotated] queue_inv_enqueue [OF assms(2), rotated] queue_inv_item [OF assms(2), rotated]\<close>)

lemma queue_inv_run: "no_fault we \<Longrightarrow> queue_inv ti \<Longrightarrow> wt_run we xs ti = Some ti1 \<Longrightarrow> queue_inv ti1"
  by (induction xs arbitrary: ti) (auto simp: Option.bind_eq_Some_conv dest: queue_inv_step)

lemma queue_inv_begin: "no_fault we \<Longrightarrow> wt_begin we NewTrayIcon = Some ti \<Longrightarrow> queue_inv ti"
  by (auto simp: wt_begin_def createMainWindow_def NewTrayIcon_def wt_call_def createMenu_def registerIcon_def wt_notify_def SetIcon_def enqueueCommand_def
      queue_inv_def menu_inv_def tray_made_def shows_item_def tray_capacity_def)

lemma queue_inv_ops:
  fixes we :: wt_env
  assumes "no_fault we" and "queue_inv ti"
  shows "AddMenuItem t p ti = Some (i, ti1) \<Longrightarrow> queue_inv ti1"
    and "AddMenuItemCheckbox t p b ti = Some (i, ti1) \<Longrightarrow> queue_inv ti1"
    and "SetTooltip t ti = Some ti1 \<Longrightarrow> queue_inv ti1"
    and "item_Check i ti = Some ti1 \<Longrightarrow> queue_inv ti1"
    and "item_Uncheck i ti = Some ti1 \<Longrightarrow> queue_inv ti1"
    and "item_Enable i ti = Some ti1 \<Longrightarrow> queue_inv ti1"
    and "item_Disable i ti = Some ti1 \<Longrightarrow> queue_inv ti1"
  using queue_inv_step [OF assms, of "OpAddItem t p" ti1] queue_inv_step [OF assms, of "OpAddCheckbox t p b" ti1]
    queue_inv_step [OF assms, of "OpTooltip t" ti1] queue_inv_step [OF assms, of "OpCheck i" ti1]
    queue_inv_step [OF assms, of "OpUncheck i" ti1] queue_inv_step [OF assms, of "OpEnable i" ti1]
    queue_inv_step [OF assms, of "OpDisable i" ti1]
  by simp_all

lemma queue_inv_apply:
  fixes we :: wt_env
  assumes "no_fault we" and "queue_inv ti" and "applyDebugLogMenuState ui ti = Some ti1"
  shows "queue_inv ti1"
  using assms(2,3) by (auto simp: applyDebugLogMenuState_def Option.bind_eq_Some_conv
      split: option.splits if_splits dest: queue_inv_ops [OF assms(1)])

lemma apply_debug_items:
  assumes "applyDebugLogMenuState ui ti = Some ti1" and "ui_debugItem ui = Some d" and "ui_logDirItem ui = Some l"
    and "wt_heap ti d \<noteq> None" and "wt_heap ti l \<noteq> None" and "d \<noteq> l"
  shows "(\<exists>it. wt_heap ti1 d = Some it \<and> mi_checked it = ui_logEnabled ui) \<and>
    (\<exists>it. wt_heap ti1 l = Some it \<and> mi_disabled it = (\<not> ui_logEnabled ui))"
  using assms
  by (auto simp: applyDebugLogMenuState_def item_Check_def item_Uncheck_def item_Enable_def item_Disable_def set_item_def
      item_update_def enqueueCommand_def Option.bind_eq_Some_conv split: if_splits)

lemma shows_itemD:
  assumes "shows_item ti i" and "wt_heap ti i = Some it"
  shows "\<exists>m sh. wt_menus ti 0 = Some m \<and> wt_content ti (m, i) = Some sh \<and>
    sh_title sh = mi_title it \<and> sh_disabled sh = mi_disabled it \<and> sh_checked sh = mi_checked it"
proof -
  obtain m sh where m: "wt_menus ti 0 = Some m" "wt_content ti (m, i) = Some sh" and eq: "sh = shown_of it (sh_submenu sh)"
    using assms by (auto simp: shows_item_def)
  have "sh_title sh = mi_title it" "sh_disabled sh = mi_disabled it" "sh_checked sh = mi_checked it"
    by (subst eq, simp add: shown_of_def)+
  with m show ?thesis by blast
qed

lemma onReady_items:
  fixes we :: wt_env
  assumes "no_fault we" and "queue_inv ti" and "systrayOnReady n ui ti = Some (ui1, ti1)"
  shows "queue_inv ti1 \<and> (\<exists>d l. ui_debugItem ui1 = Some d \<and> ui_logDirItem ui1 = Some l \<and> d \<noteq> l \<and>
    wt_heap ti1 d \<noteq> None \<and> wt_heap ti1 l \<noteq> None)"
proof -
  from assms(3) obtain a b c d e i1 i2 d3 l4 where s: "setTrayTooltip n ti = Some a" "AddMenuItem ''ShowWindow'' ''Show main window'' a = Some (i1, b)"
    "AddMenuItem ''Quit'' ''Quit the whole app'' b = Some (i2, c)"
    "AddMenuItemCheckbox ''Debug log'' ''Enable debug log file output'' False c = Some (d3, d)"
    "AddMenuItem ''Open log directory'' ''Open log directory'' d = Some (l4, e)"
    "ui1 = ui\<lparr>ui_debugItem := Some d3, ui_logDirItem := Some l4\<rparr>" "applyDebugLogMenuState ui1 e = Some ti1"
    by (auto simp: systrayOnReady_def Let_def Option.bind_eq_Some_conv)
  have "queue_inv a" using s(1) queue_inv_ops(3) [OF assms(1,2)] by (simp add: setTrayTooltip_def)
  then have "queue_inv e" using s(2-5) queue_inv_ops(1,2) [OF assms(1)] by blast
  then have q: "queue_inv ti1" using queue_inv_apply [OF assms(1)] s(7) by blast
  have "d3 \<noteq> l4" "wt_heap e d3 \<noteq> None" "wt_heap e l4 \<noteq> None"
    using s(4,5) by (auto simp: AddMenuItem_def AddMenuItemCheckbox_def newMenuItem_def item_update_def enqueueCommand_def Let_def split: if_splits)
  then have "ui_debugItem ui1 = Some d3" "ui_logDirItem ui1 = Some l4" "d3 \<noteq> l4" "wt_heap ti1 d3 \<noteq> None" "wt_heap ti1 l4 \<noteq> None"
    using apply_debug_items [OF s(7), of d3 l4] s(6) by auto
  then show ?thesis using q by blast
qed

section \<open>Properties\<close>


definition sample_wt_env :: wt_env where
  "sample_wt_env =
     \<lparr>we_utf16 = (\<lambda>s. if CHR 0x00 \<in> set s then None else Some (map (\<lambda>c. of_nat (of_char c)) s @ [0])),
      we_fail = \<lambda>_. False, we_handle = \<lambda>n. Suc n\<rparr>"


text \<open>(wintray_nul_panics).
  The tray's thread panics exactly when a queued tooltip or balloon has a text with a NUL, for instance the comment
  of a key another client added; everything queued behind it is then not run.\<close>

theorem wintray_nul_panics:
  assumes "we_fail we = (\<lambda>_. False)" and "wt_begin we NewTrayIcon = Some ti0" and "wt_run we ops ti0 = Some ti"
  shows "(fst (handleCommands we ti) = Returned ()) = list_all (text_ok we) (wt_ch ti)"
proof -
  have "queue_inv ti" using assms queue_inv_begin queue_inv_run by blast
  then show ?thesis using run_cmds_panics [of ti we "wt_ch ti"] by (simp add: handleCommands_def queue_inv_def menu_inv_def tray_made_def)
qed

theorem wintray_nul_panics_witness:
  "\<exists>ti0 ti. wt_begin sample_wt_env NewTrayIcon = Some ti0 \<and> wt_run sample_wt_env [OpBalloon ''OmniSSHAgent'' [CHR 0x00]] ti0 = Some ti \<and>
     fst (handleCommands sample_wt_env ti) \<noteq> Returned ()"
proof -
  have f: "we_fail sample_wt_env = (\<lambda>_. False)" by (simp add: sample_wt_env_def)
  obtain ti0 where t0: "wt_begin sample_wt_env NewTrayIcon = Some ti0" and c: "wt_ch ti0 = [CmdSetIcon]" "\<not> wt_shuttingDown ti0"
    by (simp add: wt_begin_def createMainWindow_def NewTrayIcon_def wt_call_def createMenu_def registerIcon_def wt_notify_def SetIcon_def enqueueCommand_def
        tray_capacity_def f)
  obtain ti where t: "wt_run sample_wt_env [OpBalloon ''OmniSSHAgent'' [CHR 0x00]] ti0 = Some ti"
    and "wt_ch ti = [CmdSetIcon, CmdBalloon ''OmniSSHAgent'' [CHR 0x00]]"
    using c by (simp add: ShowBalloonNotification_def enqueueCommand_def tray_capacity_def)
  with wintray_nul_panics [OF f t0 t] have "fst (handleCommands sample_wt_env ti) \<noteq> Returned ()" by (simp add: sample_wt_env_def)
  with t0 t show ?thesis by blast
qed

text \<open>(legacy_debug_menu).
  Once the menu is ready, turning the debug log on or off, by the menu or by the settings, leaves the log and the
  settings in that state, and when the tray's thread has run its commands the menu shows it: the
  item is checked, and the item that opens the log's directory enabled, exactly when the log is on.\<close>

theorem legacy_debug_menu:
  assumes "we_fail we = (\<lambda>_. False)" and "wt_begin we NewTrayIcon = Some ti0" and "systrayOnReady n ui ti0 = Some (ui1, ti1)"
    and "setDebugLogEnabled e ui1 ti1 = Some (ui2, ti2)" and "handleCommands we ti2 = (Returned u, ti3)"
  shows "ui_logEnabled ui2 = e \<and> ui_DebugLog ui2 = e \<and>
    (\<exists>d l m sd sl. ui_debugItem ui2 = Some d \<and> ui_logDirItem ui2 = Some l \<and> wt_menus ti3 0 = Some m \<and>
      wt_content ti3 (m, d) = Some sd \<and> sh_checked sd = e \<and> wt_content ti3 (m, l) = Some sl \<and> sh_disabled sl = (\<not> e))"
proof -
  have "queue_inv ti0" using assms(1,2) queue_inv_begin by blast
  from onReady_items [OF assms(1) this assms(3)] obtain d l where q1: "queue_inv ti1"
    and dl: "ui_debugItem ui1 = Some d" "ui_logDirItem ui1 = Some l" "d \<noteq> l" "wt_heap ti1 d \<noteq> None" "wt_heap ti1 l \<noteq> None" by blast
  have ui2: "ui2 = ui1\<lparr>ui_logEnabled := e, ui_DebugLog := e\<rparr>" and ap: "applyDebugLogMenuState ui2 ti1 = Some ti2"
    using assms(4) by (auto simp: setDebugLogEnabled_def Let_def)
  have q2: "queue_inv ti2" using queue_inv_apply [OF assms(1) q1 ap] .
  then have "tray_made ti2" "list_all plain_cmd (wt_ch ti2)" by (simp_all add: queue_inv_def menu_inv_def)
  from run_cmds_shows [OF assms(1) this assms(5) [unfolded handleCommands_def]] q2
  have sh: "shows_item ti3 d" "shows_item ti3 l" and h: "wt_heap ti3 = wt_heap ti2" by (auto simp: queue_inv_def menu_inv_def)
  obtain a b where "wt_heap ti2 d = Some a" "mi_checked a = e" "wt_heap ti2 l = Some b" "mi_disabled b = (\<not> e)"
    using apply_debug_items [OF ap _ _ dl(4,5,3)] dl(1,2) ui2 by auto
  with shows_itemD [OF sh(1), of a] shows_itemD [OF sh(2), of b] h dl(1,2) ui2 show ?thesis by auto
qed

theorem legacy_debug_menu_witness:
  "\<exists>ti0 ti1 ui1 ti2 ui2 ti3. wt_begin sample_wt_env NewTrayIcon = Some ti0 \<and>
     systrayOnReady (Inr 2) \<lparr>ui_debugItem = None, ui_logDirItem = None, ui_logEnabled = False, ui_DebugLog = False\<rparr> ti0 = Some (ui1, ti1) \<and>
     setDebugLogEnabled True ui1 ti1 = Some (ui2, ti2) \<and> handleCommands sample_wt_env ti2 = (Returned (), ti3) \<and> ui_logEnabled ui2"
proof -
  let ?ui = "\<lparr>ui_debugItem = None, ui_logDirItem = None, ui_logEnabled = False, ui_DebugLog = False\<rparr>"
  have f: "we_fail sample_wt_env = (\<lambda>_. False)" by (simp add: sample_wt_env_def)
  have "map_option (\<lambda>(ui2, ti2). fst (handleCommands sample_wt_env ti2))
      (Option.bind (wt_begin sample_wt_env NewTrayIcon) (\<lambda>ti0.
       Option.bind (systrayOnReady (Inr 2) ?ui ti0) (\<lambda>(ui1, ti1). setDebugLogEnabled True ui1 ti1))) = Some (Returned ())"
    by code_simp
  then obtain ti0 ui1 ti1 ui2 ti2 ti3 where t: "wt_begin sample_wt_env NewTrayIcon = Some ti0"
    "systrayOnReady (Inr 2) ?ui ti0 = Some (ui1, ti1)" "setDebugLogEnabled True ui1 ti1 = Some (ui2, ti2)"
    "handleCommands sample_wt_env ti2 = (Returned (), ti3)"
    by (auto simp: Option.bind_eq_Some_conv prod_eq_iff)
  from legacy_debug_menu [OF f t] t show ?thesis by blast
qed

end
