(* ===== verification/Legacy_Loops.thy ===== *)
theory Legacy_Loops
  imports Legacy_Pageant Legacy_Tray
begin

text \<open>
  The message loops of the previous program: the Pageant window's thread with the goroutine that watches the context
  (src/old/pkg/pageant/pageant.go) and the tray's thread (src/old/pkg/wintray/wintray.go).
\<close>

section \<open>pageant.go: RunAgent\<close>

text \<open>
  \<^verbatim>\<open>myRegisterClass\<close> and \<^verbatim>\<open>initInstance\<close>: the class names are constant, registering is not checked, and no window is an error.
  The styles are those of a transparent tool window that is never activated.
\<close>

definition pageantClassName :: string where "pageantClassName = ''Pageant''"

record pageant_class =
  pk_className :: string
  pk_instance :: u64
  pk_style :: u32

definition myRegisterClass :: "u64 \<Rightarrow> pageant_class list \<Rightarrow> pageant_class list" where
  "myRegisterClass hInstance registered =
     registered @ [\<lparr>pk_className = pageantClassName, pk_instance = hInstance, pk_style = 0\<rparr>]"

definition initInstance :: "(string \<Rightarrow> u64 \<Rightarrow> u64) \<Rightarrow> u64 \<Rightarrow> u64 result" where
  "initInstance createWindow hInstance =
     (let hWnd = createWindow pageantClassName hInstance in
      if hWnd = 0 then Inl (ErrNew ''cannot create window'') else Inr hWnd)"

text \<open>
  The loop and the watcher.  A message is its number; \<open>al_watcher\<close> is a watcher that still waits, \<open>al_exit\<close> the channel the deferred
  function closes.  \<open>post\<close> is whether \<^verbatim>\<open>PostThreadMessageW\<close> succeeds: its result is not looked at.
\<close>

definition threadQuit :: nat where "threadQuit = 18"

record agent_loop =
  al_queue :: "nat list"
  al_cancelled :: bool
  al_watcher :: bool
  al_exit :: bool
  al_running :: bool
  al_dispatched :: "nat list"

definition RunAgent_begin :: "u64 result \<Rightarrow> agent_loop option" where
  "RunAgent_begin hWnd =
     (case hWnd of
        Inl _ \<Rightarrow> None
      | Inr _ \<Rightarrow> Some \<lparr>al_queue = [], al_cancelled = False, al_watcher = True, al_exit = False, al_running = True, al_dispatched = []\<rparr>)"

text \<open>The watcher of \<^verbatim>\<open>startCancelWatcher\<close>, and the steps of the two goroutines.\<close>

inductive watch_step :: "bool \<Rightarrow> agent_loop \<Rightarrow> agent_loop \<Rightarrow> bool" for post where
  watch_cancel: "al_watcher s \<Longrightarrow> al_cancelled s \<Longrightarrow>
    watch_step post s (s\<lparr>al_watcher := False, al_queue := (if post then al_queue s @ [threadQuit] else al_queue s)\<rparr>)"
| watch_exit: "al_watcher s \<Longrightarrow> al_exit s \<Longrightarrow> watch_step post s (s\<lparr>al_watcher := False\<rparr>)"

inductive loop_step :: "bool \<Rightarrow> agent_loop \<Rightarrow> agent_loop \<Rightarrow> bool" for post where
  dispatch: "al_running s \<Longrightarrow> al_queue s = m # ms \<Longrightarrow> m \<noteq> threadQuit \<Longrightarrow>
    loop_step post s (s\<lparr>al_queue := ms, al_dispatched := al_dispatched s @ [m]\<rparr>)"
| quit: "al_running s \<Longrightarrow> al_queue s = m # ms \<Longrightarrow> m = threadQuit \<Longrightarrow>
    loop_step post s (s\<lparr>al_queue := ms, al_running := False, al_exit := True\<rparr>)"
| watch: "watch_step post s s1 \<Longrightarrow> loop_step post s s1"

text \<open>What happens around them: messages arrive, the program cancels.\<close>

inductive loop_env :: "agent_loop \<Rightarrow> agent_loop \<Rightarrow> bool" where
  arrive: "m \<noteq> threadQuit \<Longrightarrow> loop_env s (s\<lparr>al_queue := al_queue s @ [m]\<rparr>)"
| cancel: "loop_env s (s\<lparr>al_cancelled := True\<rparr>)"

inductive loop_reach :: "bool \<Rightarrow> agent_loop \<Rightarrow> bool" for post where
  begin_loop: "RunAgent_begin hWnd = Some s \<Longrightarrow> loop_reach post s"
| own: "loop_reach post s \<Longrightarrow> loop_step post s s1 \<Longrightarrow> loop_reach post s1"
| around: "loop_reach post s \<Longrightarrow> loop_env s s1 \<Longrightarrow> loop_reach post s1"

section \<open>wintray.go: the rest\<close>

definition initData :: "wt_env \<Rightarrow> shell_note \<Rightarrow> TrayIcon \<Rightarrow> bool \<times> TrayIcon" where
  "initData we note ti = wt_notify we note ti"

text \<open>\<^verbatim>\<open>Dispose\<close> and \<^verbatim>\<open>unregisterIcon\<close> delete the icon; a failure is at most logged.\<close>

definition Dispose :: "wt_env \<Rightarrow> TrayIcon \<Rightarrow> TrayIcon" where
  "Dispose we ti = snd (initData we NoteDelete ti)"

text \<open>\<^verbatim>\<open>showMenu\<close>: \<open>None\<close> is no error; without the menus the handle passed is zero.\<close>

definition wt_showMenu :: "wt_env \<Rightarrow> nat \<Rightarrow> TrayIcon \<Rightarrow> string option \<times> nat option \<times> TrayIcon" where
  "wt_showMenu we errCode ti =
     (case wt_call we ti of
        (True, ti1) \<Rightarrow> (Some ''GetCursorPos failed'', None, ti1)
      | (False, ti1) \<Rightarrow>
          (case wt_call we ti1 of
             (True, ti2) \<Rightarrow> (Some ''SetForegroundWindow failed'', None, ti2)
           | (False, ti2) \<Rightarrow>
               (let menu = (case wt_menus ti2 0 of None \<Rightarrow> 0 | Some m \<Rightarrow> m) in
                case wt_call we ti2 of
                  (True, ti3) \<Rightarrow> (if errCode \<noteq> 0 then Some ''TrackPopupMenu failed'' else None, Some menu, ti3)
                | (False, ti3) \<Rightarrow> (None, Some menu, ti3))))"

text \<open>
  The loop of \<^verbatim>\<open>Run\<close>: each input is what \<^verbatim>\<open>GetMessage\<close> returns and the message then in the buffer, which an error (-1) leaves as it
  was.  A panic of a command runs the deferred \<^verbatim>\<open>onExit\<close> as the end of the loop does; \<open>None\<close> is a loop still going on.
\<close>

record wt_input =
  wi_result :: int
  wi_msg :: u32
  wi_wParam :: u64
  wi_lParam :: u64

datatype wt_end = LoopDone | LoopPanic string

fun wt_loop :: "wt_env \<Rightarrow> (u32 \<Rightarrow> bool) \<Rightarrow> wt_input list \<Rightarrow> TrayIcon \<Rightarrow> (wt_end \<times> wt_effect list \<times> TrayIcon) option" where
  "wt_loop we waiting [] ti = None"
| "wt_loop we waiting (i # is) ti =
     (if wi_result i = 0 then Some (LoopDone, [], Dispose we ti)
      else
        (case wt_wndProc we waiting (wi_msg i) (wi_wParam i) (wi_lParam i) ti of
           (Panicked m, ti1) \<Rightarrow> Some (LoopPanic m, [], ti1)
         | (Returned effs, ti1) \<Rightarrow> map_option (apsnd (apfst ((@) effs))) (wt_loop we waiting is ti1)))"

text \<open>The goroutine of \<^verbatim>\<open>systrayOnReady\<close>, by the items clicked, as long as it reads the channels.\<close>

datatype menu_click = ClickShow | ClickLog | ClickQuit | ClickDir

datatype menu_effect = DidShowWindow | DidSetDebug bool | DidQuit | DidOpen string

fun menu_clicks :: "(string \<Rightarrow> string) \<Rightarrow> string \<Rightarrow> bool \<Rightarrow> menu_click list \<Rightarrow> menu_effect list" where
  "menu_clicks dir path checked [] = []"
| "menu_clicks dir path checked (ClickShow # cs) = DidShowWindow # menu_clicks dir path checked cs"
| "menu_clicks dir path checked (ClickLog # cs) = DidSetDebug (\<not> checked) # menu_clicks dir path (\<not> checked) cs"
| "menu_clicks dir path checked (ClickQuit # cs) = [DidQuit]"
| "menu_clicks dir path checked (ClickDir # cs) = DidOpen (dir path) # menu_clicks dir path checked cs"

text \<open>\<^verbatim>\<open>winopen.Open\<close>: the command run.\<close>

definition winopen_Open :: "filepath_ops \<Rightarrow> (string \<Rightarrow> string) \<Rightarrow> (string \<Rightarrow> string list \<Rightarrow> goerr option) \<Rightarrow> string \<Rightarrow> goerr option" where
  "winopen_Open fp getenv run input =
     run (fp_Join fp [getenv ''SYSTEMROOT'', ''System32'', ''rundll32.exe'']) [''url.dll,FileProtocolHandler'', input]"


section \<open>Lemmas: the Pageant thread\<close>

definition loop_work :: "agent_loop \<Rightarrow> nat" where
  "loop_work s = length (al_queue s) + (if al_watcher s then 2 else 0)"

definition loop_inv :: "agent_loop \<Rightarrow> bool" where
  "loop_inv s \<longleftrightarrow> (al_exit s \<longleftrightarrow> \<not> al_running s) \<and> (\<not> al_watcher s \<and> al_running s \<longrightarrow> threadQuit \<in> set (al_queue s)) \<and>
     threadQuit \<notin> set (al_dispatched s)"

lemma watch_step_work: "watch_step post s s1 \<Longrightarrow> loop_work s1 < loop_work s"
  by (induction rule: watch_step.induct) (auto simp: loop_work_def)

lemma loop_step_work: "loop_step post s s1 \<Longrightarrow> loop_work s1 < loop_work s"
  by (induction rule: loop_step.induct) (simp_all add: watch_step_work, simp_all add: loop_work_def)

lemma watch_step_inv: "watch_step True s s1 \<Longrightarrow> loop_inv s \<Longrightarrow> loop_inv s1"
  by (induction rule: watch_step.induct) (auto simp: loop_inv_def)

lemma loop_step_inv: "loop_step True s s1 \<Longrightarrow> loop_inv s \<Longrightarrow> loop_inv s1"
  by (induction rule: loop_step.induct) (auto simp: loop_inv_def dest: watch_step_inv)

lemma loop_env_inv: "loop_env s s1 \<Longrightarrow> loop_inv s \<Longrightarrow> loop_inv s1"
  by (induction rule: loop_env.induct) (auto simp: loop_inv_def)

lemma loop_reach_inv: "loop_reach True s \<Longrightarrow> loop_inv s"
proof (induction rule: loop_reach.induct)
  case (begin_loop hWnd s)
  then show ?case by (auto simp: RunAgent_begin_def loop_inv_def split: sum.splits)
qed (auto intro: loop_step_inv loop_env_inv)

lemma watch_step_frame: "watch_step post s s1 \<Longrightarrow> al_cancelled s1 = al_cancelled s \<and> al_watcher s"
  by (induction rule: watch_step.induct) simp_all

lemma loop_step_cancelled: "loop_step post s s1 \<Longrightarrow> al_cancelled s1 = al_cancelled s"
  by (induction rule: loop_step.induct) (simp_all add: watch_step_frame)

lemma loop_step_enabled: "loop_step post s s1 \<Longrightarrow> al_running s \<and> al_queue s \<noteq> [] \<or> al_watcher s"
  by (induction rule: loop_step.induct) (simp_all add: watch_step_frame)

lemma loop_quiescent:
  assumes "loop_inv s" and "al_cancelled s" and "al_running s \<or> al_watcher s"
  shows "\<exists>s1. loop_step True s s1"
proof (cases "al_watcher s")
  case True
  then show ?thesis using assms(2) watch_step.watch_cancel loop_step.watch by blast
next
  case False
  then have "al_running s" "threadQuit \<in> set (al_queue s)" using assms by (auto simp: loop_inv_def)
  moreover then obtain m ms where "al_queue s = m # ms" by (cases "al_queue s") auto
  ultimately show ?thesis using loop_step.dispatch loop_step.quit by metis
qed

section \<open>Properties\<close>

text \<open>(legacy_pageant_stops). Once the context is cancelled, the Pageant thread and its watcher come to their end: their steps
  cannot go on for ever, and while one of them runs a step is possible, whatever messages were in the queue; the message that ends the
  loop is never dispatched.  This rests on the watcher's message being posted, which is not checked.\<close>

theorem legacy_pageant_stops:
  assumes "loop_reach True s" and "al_cancelled s" and "(loop_step True)\<^sup>*\<^sup>* s b"
  shows "(\<forall>c. loop_step True b c \<longrightarrow> loop_work c < loop_work b) \<and>
    (al_running b \<or> al_watcher b \<longleftrightarrow> (\<exists>c. loop_step True b c)) \<and> threadQuit \<notin> set (al_dispatched b)"
proof -
  have "loop_inv b \<and> al_cancelled b"
    using assms(3)
  proof (induction rule: rtranclp_induct)
    case base
    show ?case using loop_reach_inv [OF assms(1)] assms(2) by simp
  next
    case (step y z)
    then show ?case using loop_step_inv [OF step(2)] loop_step_cancelled [OF step(2)] by simp
  qed
  moreover have "loop_step True b c \<Longrightarrow> al_running b \<or> al_watcher b" for c
    using loop_step_enabled by blast
  ultimately have e: "al_running b \<or> al_watcher b \<longleftrightarrow> (\<exists>c. loop_step True b c)" and "threadQuit \<notin> set (al_dispatched b)"
    using loop_quiescent [of b] by (blast, simp add: loop_inv_def)
  moreover have "\<forall>c. loop_step True b c \<longrightarrow> loop_work c < loop_work b" using loop_step_work by simp
  ultimately show ?thesis by (intro conjI)
qed

definition sample_loop :: agent_loop where
  "sample_loop = \<lparr>al_queue = [74], al_cancelled = True, al_watcher = True, al_exit = False, al_running = True, al_dispatched = []\<rparr>"

lemma sample_loop_reach: "loop_reach post sample_loop"
proof -
  let ?a = "\<lparr>al_queue = [], al_cancelled = False, al_watcher = True, al_exit = False, al_running = True, al_dispatched = []\<rparr>"
  have "loop_reach post ?a" by (rule loop_reach.begin_loop [of "Inr 1"]) (simp add: RunAgent_begin_def)
  moreover have "loop_env ?a (?a\<lparr>al_queue := [74]\<rparr>)" using loop_env.arrive [of 74 ?a] by (simp add: threadQuit_def)
  moreover have "loop_env (?a\<lparr>al_queue := [74]\<rparr>) (?a\<lparr>al_queue := [74], al_cancelled := True\<rparr>)"
    using loop_env.cancel [of "?a\<lparr>al_queue := [74]\<rparr>"] by simp
  ultimately have "loop_reach post (?a\<lparr>al_queue := [74], al_cancelled := True\<rparr>)" by (meson loop_reach.around)
  then show ?thesis by (simp add: sample_loop_def)
qed

theorem legacy_pageant_stops_witness: "\<exists>c. loop_step True sample_loop c \<and> loop_work c < loop_work sample_loop"
proof -
  have "al_cancelled sample_loop" "al_running sample_loop" by (simp_all add: sample_loop_def)
  with legacy_pageant_stops [OF sample_loop_reach _ rtranclp.rtrancl_refl] show ?thesis by blast
qed

text \<open>If the message cannot be posted, the loop waits for ever.\<close>

lemma post_lost:
  "\<exists>s. loop_reach False s \<and> al_cancelled s \<and> al_running s \<and> (\<nexists>s1. loop_step False s s1)"
proof -
  let ?a = "\<lparr>al_queue = [], al_cancelled = False, al_watcher = True, al_exit = False, al_running = True, al_dispatched = []\<rparr>"
  let ?b = "?a\<lparr>al_cancelled := True\<rparr>"
  have "loop_reach False ?a" by (rule loop_reach.begin_loop [of "Inr 1"]) (simp add: RunAgent_begin_def)
  moreover have "loop_env ?a ?b" by (rule loop_env.cancel)
  moreover have "loop_step False ?b (?b\<lparr>al_watcher := False\<rparr>)" using loop_step.watch [OF watch_step.watch_cancel, of ?b False] by simp
  ultimately have "loop_reach False (?b\<lparr>al_watcher := False\<rparr>)" by (meson loop_reach.around loop_reach.own)
  moreover have "\<not> loop_step False (?b\<lparr>al_watcher := False\<rparr>) s1" for s1
    using loop_step_enabled [of False "?b\<lparr>al_watcher := False\<rparr>" s1] by auto
  ultimately show ?thesis by (intro exI [of _ "?b\<lparr>al_watcher := False\<rparr>"]) simp
qed

text \<open>
  The loop of the tray ends when \<^verbatim>\<open>WM_QUIT\<close> comes, with the icon deleted; after an error of \<^verbatim>\<open>GetMessage\<close> it goes on with the
  message it has, so that an error that lasts keeps it going.\<close>

lemma wt_loop_spins:
  assumes "\<forall>i \<in> set is. wi_result i = -1 \<and> wi_msg i = TrayIconMsg"
  shows "wt_loop we waiting is ti = None"
  using assms
proof (induction "is" arbitrary: ti)
  case (Cons i "is")
  have m: "wi_result i \<noteq> 0" "wi_msg i = TrayIconMsg" using Cons.prems by auto
  then obtain effs where w: "wt_wndProc we waiting (wi_msg i) (wi_wParam i) (wi_lParam i) ti = (Returned effs, ti)"
    by (simp only: wt_wndProc_def simp_thms if_True)
  have r: "wt_loop we waiting is ti = None" by (rule Cons.IH) (use Cons.prems in simp)
  show ?case by (simp only: wt_loop.simps m(1) if_False w r prod.case outcome.case option.map)
qed simp

lemma wt_loop_ends:
  assumes "wt_loop we waiting is ti = Some (LoopDone, effs, ti1)"
  shows "\<exists>xs i ys ti0. is = xs @ i # ys \<and> wi_result i = 0 \<and> (\<forall>x \<in> set xs. wi_result x \<noteq> 0) \<and> ti1 = Dispose we ti0"
  using assms
proof (induction "is" arbitrary: ti effs)
  case (Cons i "is")
  show ?case
  proof (cases "wi_result i = 0")
    case True
    then show ?thesis using Cons.prems by (intro exI [of _ "[]"] exI [of _ i] exI [of _ "is"] exI [of _ ti]) simp
  next
    case False
    then obtain ti2 effs2 where "wt_loop we waiting is ti2 = Some (LoopDone, effs2, ti1)"
      using Cons.prems by (auto split: prod.splits outcome.splits)
    from Cons.IH [OF this] obtain xs j ys ti0 where
      "is = xs @ j # ys" "wi_result j = 0" "\<forall>x \<in> set xs. wi_result x \<noteq> 0" "ti1 = Dispose we ti0" by blast
    then show ?thesis using False by (intro exI [of _ "i # xs"] exI [of _ j] exI [of _ ys] exI [of _ ti0]) simp
  qed
qed simp

lemma menu_clicks_toggle:
  "menu_clicks dir path checked (replicate n ClickLog) = map (\<lambda>k. DidSetDebug (if even k then \<not> checked else checked)) [0..<n]"
proof (induction n arbitrary: checked)
  case (Suc n)
  have "[0..<Suc n] = 0 # map Suc [0..<n]" by (simp add: map_Suc_upt upt_conv_Cons del: upt_Suc)
  then show ?case using Suc [of "\<not> checked"] by (simp add: comp_def del: upt_Suc)
qed simp

end
