(* ===== verification/Legacy_Log.thy ===== *)
theory Legacy_Log
  imports Component
begin

text \<open>
  The log of the previous program (src/old/pkg/filelog/filelog.go) and its bridge from a named pipe to
  the standard streams (npipe2stdin/npipe2stdin.go, used by cmd/omni-socat).

  \<^verbatim>\<open>Write\<close> sends the slice it is given over a channel to a worker; it does not copy it.  So the channel
  holds buffers by reference, and their contents are in a memory the callers may change: after \<^verbatim>\<open>Write\<close> has
  returned, the buffer is the caller's again, and the standard logger reuses it.
\<close>

section \<open>The log and its worker\<close>

datatype sink = ToFile string | ToStderr

record FileLog =
  fg_AppName :: string
  fg_FilePath :: string
  fg_year :: string
  fg_monthDate :: string
  fg_enable :: bool
  fg_cap :: nat
  fg_ch :: "nat list"
  fg_cancelled :: bool
  fg_done :: bool
  fg_file :: "string option"
  fg_opens :: nat
  fg_mem :: "nat \<Rightarrow> bytes"
  fg_inside :: "nat list"
  fg_sent :: "(nat \<times> bytes) list"
  fg_out :: "(sink \<times> nat \<times> bytes) list"

text \<open>
  \<open>fg_inside\<close> are the calls of \<^verbatim>\<open>Write\<close> past the check of the context, \<open>fg_sent\<close> the buffers that entered
  the channel with their contents then, \<open>fg_out\<close> what was written, where and from which buffer.
  The date is that of \<^verbatim>\<open>New\<close>, as a year and a \<^verbatim>\<open>01-02\<close>.
\<close>

record log_env =
  lv_getenv :: "string \<Rightarrow> string"
  lv_fp :: filepath_ops
  lv_open :: "nat \<Rightarrow> string \<Rightarrow> goerr option"
  lv_mkdir :: "nat \<Rightarrow> string \<Rightarrow> goerr option"

definition filelog_New :: "string \<Rightarrow> nat \<Rightarrow> string \<Rightarrow> string \<Rightarrow> (nat \<Rightarrow> bytes) \<Rightarrow> FileLog" where
  "filelog_New appName bufferSize year monthDate mem =
     \<lparr>fg_AppName = appName, fg_FilePath = '''', fg_year = year, fg_monthDate = monthDate, fg_enable = False,
      fg_cap = bufferSize, fg_ch = [], fg_cancelled = False, fg_done = False, fg_file = None, fg_opens = 0, fg_mem = mem,
      fg_inside = [], fg_sent = [], fg_out = []\<rparr>"

definition createFilePath :: "log_env \<Rightarrow> FileLog \<Rightarrow> string result" where
  "createFilePath lv fl =
     rbind (UserConfigDir (lv_getenv lv)) (\<lambda>confDir.
       Inr (fp_Join (lv_fp lv) [confDir, fg_AppName fl, fg_year fl, fg_monthDate fl @ ''.log'']))"

text \<open>\<^verbatim>\<open>openFile\<close>: a failed open is tried once more after making the directory.\<close>

definition openFile :: "log_env \<Rightarrow> string \<Rightarrow> FileLog \<Rightarrow> goerr option \<times> FileLog" where
  "openFile lv filename fl =
     (let n = fg_opens fl in
      case lv_open lv n filename of
        None \<Rightarrow> (None, fl\<lparr>fg_opens := Suc n\<rparr>)
      | Some _ \<Rightarrow>
          (case lv_mkdir lv n (fp_Dir (lv_fp lv) filename) of
             Some e \<Rightarrow> (Some e, fl\<lparr>fg_opens := Suc n\<rparr>)
           | None \<Rightarrow> (lv_open lv (Suc n) filename, fl\<lparr>fg_opens := Suc (Suc n)\<rparr>)))"

definition ensureFileOpen :: "log_env \<Rightarrow> FileLog \<Rightarrow> FileLog" where
  "ensureFileOpen lv fl =
     (case fg_file fl of
        Some _ \<Rightarrow> fl
      | None \<Rightarrow>
          (case createFilePath lv fl of
             Inl _ \<Rightarrow> fl
           | Inr filename \<Rightarrow>
               (case openFile lv filename (fl\<lparr>fg_FilePath := filename\<rparr>) of
                  (Some _, fl1) \<Rightarrow> fl1
                | (None, fl1) \<Rightarrow> fl1\<lparr>fg_file := Some filename\<rparr>)))"

definition put_log :: "sink \<Rightarrow> nat \<Rightarrow> FileLog \<Rightarrow> FileLog" where
  "put_log to p fl = fl\<lparr>fg_out := fg_out fl @ [(to, p, fg_mem fl p)]\<rparr>"

definition writeBytes :: "log_env \<Rightarrow> nat \<Rightarrow> FileLog \<Rightarrow> FileLog" where
  "writeBytes lv p fl =
     (if fg_enable fl
      then (let fl1 = ensureFileOpen lv fl in
            case fg_file fl1 of None \<Rightarrow> put_log ToStderr p fl1 | Some f \<Rightarrow> put_log (ToFile f) p fl1)
      else put_log ToStderr p fl)"

text \<open>\<^verbatim>\<open>drainWriteCh\<close>: everything the channel holds.\<close>

definition drainWriteCh :: "log_env \<Rightarrow> FileLog \<Rightarrow> FileLog" where
  "drainWriteCh lv fl = fold (writeBytes lv) (fg_ch fl) (fl\<lparr>fg_ch := []\<rparr>)"

definition SetEnable :: "bool \<Rightarrow> FileLog \<Rightarrow> FileLog" where
  "SetEnable enable fl = fl\<lparr>fg_enable := enable\<rparr>"

definition GetEnable :: "FileLog \<Rightarrow> bool" where
  "GetEnable fl = fg_enable fl"

text \<open>\<^verbatim>\<open>Close\<close>, which then waits for the worker to end.\<close>

definition filelog_Close :: "FileLog \<Rightarrow> FileLog" where
  "filelog_Close fl = fl\<lparr>fg_cancelled := True\<rparr>"

text \<open>\<^verbatim>\<open>Write\<close> up to its send: the error of the context, or the length that is returned after it.\<close>

definition filelog_Write :: "nat \<Rightarrow> FileLog \<Rightarrow> int \<times> goerr option" where
  "filelog_Write b fl = (if fg_cancelled fl then (0, Some Canceled) else (int (length (fg_mem fl b)), None))"

declare filelog_Close_def [simp] filelog_Write_def [simp]

text \<open>
  One step: a caller fills a buffer it owns (if \<open>careful\<close>, none the channel still holds), enters \<^verbatim>\<open>Write\<close>, or gets its buffer into
  the channel; the flag is set; \<^verbatim>\<open>Close\<close> cancels; the worker takes a buffer, or ends, draining the channel first.
\<close>

inductive log_step :: "log_env \<Rightarrow> bool \<Rightarrow> FileLog \<Rightarrow> FileLog \<Rightarrow> bool" for lv careful where
  fill: "b \<notin> set (fg_inside fl) \<Longrightarrow> careful \<longrightarrow> b \<notin> set (fg_ch fl) \<Longrightarrow>
    log_step lv careful fl (fl\<lparr>fg_mem := (fg_mem fl)(b := d)\<rparr>)"
| enter: "snd (filelog_Write b fl) = None \<Longrightarrow> log_step lv careful fl (fl\<lparr>fg_inside := b # fg_inside fl\<rparr>)"
| send: "b \<in> set (fg_inside fl) \<Longrightarrow> length (fg_ch fl) < fg_cap fl \<Longrightarrow>
    log_step lv careful fl (fl\<lparr>fg_inside := remove1 b (fg_inside fl), fg_ch := fg_ch fl @ [b], fg_sent := fg_sent fl @ [(b, fg_mem fl b)]\<rparr>)"
| enable: "log_step lv careful fl (SetEnable e fl)"
| cancel: "log_step lv careful fl (filelog_Close fl)"
| work: "\<not> fg_done fl \<Longrightarrow> fg_ch fl = b # bs \<Longrightarrow> log_step lv careful fl (writeBytes lv b (fl\<lparr>fg_ch := bs\<rparr>))"
| stop: "\<not> fg_done fl \<Longrightarrow> fg_cancelled fl \<Longrightarrow>
    log_step lv careful fl ((drainWriteCh lv fl)\<lparr>fg_done := True, fg_file := None\<rparr>)"

inductive log_reach :: "log_env \<Rightarrow> bool \<Rightarrow> FileLog \<Rightarrow> FileLog \<Rightarrow> bool" for lv careful fl0 where
  start: "log_reach lv careful fl0 fl0"
| step: "log_reach lv careful fl0 fl \<Longrightarrow> log_step lv careful fl fl1 \<Longrightarrow> log_reach lv careful fl0 fl1"

section \<open>npipe2stdin\<close>

datatype first_end = OutEnded "goerr option" | InEnded "goerr option" | CtxDone

fun getFirstErr :: "first_end \<Rightarrow> goerr option" where
  "getFirstErr (OutEnded e) = e"
| "getFirstErr (InEnded e) = e"
| "getFirstErr CtxDone = None"

definition stdin_pipePath :: "string \<Rightarrow> string" where
  "stdin_pipePath name =
     [bslash, bslash] @ ''.'' @ [bslash] @ ''pipe'' @ [bslash] @ (if length name = 0 then ''openssh-ssh-agent'' else name)"

text \<open>\<^verbatim>\<open>Proxy\<close>: the result, and the path of the pipe that was opened and closed again.\<close>

definition stdin_Proxy :: "(string \<Rightarrow> goerr option) \<Rightarrow> string \<Rightarrow> first_end \<Rightarrow> goerr option \<times> string option" where
  "stdin_Proxy dial name fst_end =
     (let pipePath = stdin_pipePath name in
      case dial pipePath of
        Some e \<Rightarrow> (Some (ErrWrap ''winio.DialPipe'' e), None)
      | None \<Rightarrow>
          (let err = getFirstErr fst_end in
           (if err \<noteq> None \<and> err \<noteq> Some EOF then map_option (ErrWrap ''pipe'') err else None, Some pipePath)))"

section \<open>Lemmas\<close>

definition fg_flow :: "FileLog \<Rightarrow> nat list" where
  "fg_flow fl = map (\<lambda>(_, b, _). b) (fg_out fl) @ fg_ch fl"

definition same_flow :: "FileLog \<Rightarrow> FileLog \<Rightarrow> bool" where
  "same_flow fl fl1 \<longleftrightarrow> fg_ch fl1 = fg_ch fl \<and> fg_sent fl1 = fg_sent fl \<and> fg_mem fl1 = fg_mem fl \<and> fg_out fl1 = fg_out fl \<and>
     fg_cap fl1 = fg_cap fl \<and> fg_inside fl1 = fg_inside fl \<and> fg_cancelled fl1 = fg_cancelled fl \<and> fg_done fl1 = fg_done fl"

lemma ensureFileOpen_flow: "same_flow fl (ensureFileOpen lv fl)"
  by (auto simp: ensureFileOpen_def openFile_def same_flow_def Let_def split: option.split sum.split prod.splits)

lemma writeBytes_flow:
  obtains to where "fg_out (writeBytes lv b fl) = fg_out fl @ [(to, b, fg_mem fl b)]"
    and "fg_ch (writeBytes lv b fl) = fg_ch fl" and "fg_sent (writeBytes lv b fl) = fg_sent fl"
    and "fg_mem (writeBytes lv b fl) = fg_mem fl" and "fg_cap (writeBytes lv b fl) = fg_cap fl"
    and "fg_inside (writeBytes lv b fl) = fg_inside fl" and "fg_cancelled (writeBytes lv b fl) = fg_cancelled fl"
    and "fg_done (writeBytes lv b fl) = fg_done fl"
  using ensureFileOpen_flow [of fl lv]
  by (cases "fg_enable fl"; cases "fg_file (ensureFileOpen lv fl)") (simp_all add: writeBytes_def put_log_def same_flow_def Let_def)

text \<open>The writing of a list of buffers, and what it leaves alone.\<close>

lemma writeBytes_fold:
  "\<exists>xs. fg_out (fold (writeBytes lv) bs fl) = fg_out fl @ xs \<and> map (\<lambda>(_, b, _). b) xs = bs \<and>
     map (\<lambda>(_, _, d). d) xs = map (fg_mem fl) bs \<and> fg_ch (fold (writeBytes lv) bs fl) = fg_ch fl \<and>
     fg_sent (fold (writeBytes lv) bs fl) = fg_sent fl \<and> fg_mem (fold (writeBytes lv) bs fl) = fg_mem fl \<and>
     fg_cap (fold (writeBytes lv) bs fl) = fg_cap fl"
proof (induction bs arbitrary: fl)
  case Nil
  show ?case by simp
next
  case (Cons b bs)
  obtain to where w: "fg_out (writeBytes lv b fl) = fg_out fl @ [(to, b, fg_mem fl b)]"
    "fg_ch (writeBytes lv b fl) = fg_ch fl" "fg_sent (writeBytes lv b fl) = fg_sent fl" "fg_mem (writeBytes lv b fl) = fg_mem fl"
    "fg_cap (writeBytes lv b fl) = fg_cap fl"
    by (rule writeBytes_flow)
  from Cons.IH [of "writeBytes lv b fl"] obtain xs where
    "fg_out (fold (writeBytes lv) bs (writeBytes lv b fl)) = fg_out fl @ [(to, b, fg_mem fl b)] @ xs"
    "map (\<lambda>(_, b, _). b) xs = bs" "map (\<lambda>(_, _, d). d) xs = map (fg_mem fl) bs"
    "fg_ch (fold (writeBytes lv) bs (writeBytes lv b fl)) = fg_ch fl"
    "fg_sent (fold (writeBytes lv) bs (writeBytes lv b fl)) = fg_sent fl"
    "fg_mem (fold (writeBytes lv) bs (writeBytes lv b fl)) = fg_mem fl"
    "fg_cap (fold (writeBytes lv) bs (writeBytes lv b fl)) = fg_cap fl"
    unfolding w by auto
  then show ?case by (intro exI [of _ "(to, b, fg_mem fl b) # xs"]) simp
qed

definition log_inv :: "bool \<Rightarrow> FileLog \<Rightarrow> bool" where
  "log_inv careful fl \<longleftrightarrow> fg_flow fl = map fst (fg_sent fl) \<and> length (fg_ch fl) \<le> fg_cap fl \<and>
     (careful \<longrightarrow> map (\<lambda>(_, _, d). d) (fg_out fl) @ map (fg_mem fl) (fg_ch fl) = map snd (fg_sent fl))"

lemma log_inv_written:
  assumes "log_inv careful fl" and "fg_ch fl = bs @ rest"
    and "fg_out fl1 = fg_out fl @ xs" and "map (\<lambda>(_, b, _). b) xs = bs" and "map (\<lambda>(_, _, d). d) xs = map (fg_mem fl) bs"
    and "fg_ch fl1 = rest" and "fg_sent fl1 = fg_sent fl" and "fg_mem fl1 = fg_mem fl" and "fg_cap fl1 = fg_cap fl"
  shows "log_inv careful fl1"
  using assms by (auto simp: log_inv_def fg_flow_def)

lemma log_step_inv:
  assumes "log_step lv careful fl fl1" and "log_inv careful fl"
  shows "log_inv careful fl1"
  using assms
proof cases
  case (fill b d)
  then show ?thesis using assms(2) by (auto simp: log_inv_def fg_flow_def intro: map_cong)
next
  case (work b bs)
  obtain to where w: "fg_out fl1 = fg_out fl @ [(to, b, fg_mem fl b)]" "fg_ch fl1 = bs" "fg_sent fl1 = fg_sent fl"
    "fg_mem fl1 = fg_mem fl" "fg_cap fl1 = fg_cap fl"
    using writeBytes_flow [of lv b "fl\<lparr>fg_ch := bs\<rparr>"] work(1) by auto
  show ?thesis by (rule log_inv_written [OF assms(2), of "[b]" bs fl1 "[(to, b, fg_mem fl b)]"]) (use w work in simp_all)
next
  case stop
  from writeBytes_fold [of lv "fg_ch fl" "fl\<lparr>fg_ch := []\<rparr>"] obtain xs where
    "fg_out fl1 = fg_out fl @ xs" "map (\<lambda>(_, b, _). b) xs = fg_ch fl" "map (\<lambda>(_, _, d). d) xs = map (fg_mem fl) (fg_ch fl)"
    "fg_ch fl1 = []" "fg_sent fl1 = fg_sent fl" "fg_mem fl1 = fg_mem fl" "fg_cap fl1 = fg_cap fl"
    unfolding stop(1) drainWriteCh_def by auto
  then show ?thesis using log_inv_written [OF assms(2), of "fg_ch fl" "[]" fl1 xs] by simp
qed (use assms(2) in \<open>auto simp: log_inv_def fg_flow_def SetEnable_def\<close>)

lemma writeBytes_cap [simp]: "fg_cap (writeBytes lv b fl) = fg_cap fl"
  by (rule writeBytes_flow)

lemma writeBytes_fold_cap [simp]: "fg_cap (fold (writeBytes lv) bs fl) = fg_cap fl"
  by (induction bs arbitrary: fl) simp_all

lemma log_step_cap: "log_step lv careful fl fl1 \<Longrightarrow> fg_cap fl1 = fg_cap fl"
  by (induction rule: log_step.induct) (simp_all add: SetEnable_def drainWriteCh_def)

lemma log_reach_inv: "log_reach lv careful fl0 fl \<Longrightarrow> log_inv careful fl0 \<Longrightarrow> log_inv careful fl"
  by (induction rule: log_reach.induct) (auto intro: log_step_inv)

section \<open>Properties\<close>


definition sample_log_env :: log_env where
  "sample_log_env = \<lparr>lv_getenv = \<lambda>_. ''C'', lv_fp = sample_fp, lv_open = \<lambda>_ _. None, lv_mkdir = \<lambda>_ _. None\<rparr>"



text \<open>(filelog_gaps).
  A caller that reuses its buffer once \<^verbatim>\<open>Write\<close> has returned, as the standard logger does, can have the later
  message written in place of the earlier; and a call of \<^verbatim>\<open>Write\<close> that passed its check before \<^verbatim>\<open>Close\<close> can report success
  for a message that is never written.\<close>

theorem filelog_gaps:
  "(\<exists>fl. log_reach lv False (filelog_New app 1 year day mem) fl \<and>
      map snd (fg_sent fl) = [[1]] \<and> map (\<lambda>(_, _, d). d) (fg_out fl) = [[2]]) \<and>
   (\<exists>fl. log_reach lv True (filelog_New app 1 year day mem) fl \<and> fg_done fl \<and> fg_sent fl = [(0, mem 0)] \<and> fg_out fl = [])"
proof
  let ?s0 = "filelog_New app 1 year day mem"
  let ?s1 = "?s0\<lparr>fg_mem := mem(0 := [1])\<rparr>"
  let ?s2 = "?s1\<lparr>fg_inside := [0]\<rparr>"
  let ?s3 = "?s1\<lparr>fg_ch := [0], fg_sent := [(0, [1])]\<rparr>"
  let ?s4 = "?s3\<lparr>fg_mem := mem(0 := [2])\<rparr>"
  have "log_step lv False ?s0 ?s1" using log_step.fill [of 0 ?s0 False lv "[1]"] by (simp add: filelog_New_def)
  moreover have "log_step lv False ?s1 ?s2" using log_step.enter [of 0 ?s1 lv False] by (simp add: filelog_New_def)
  moreover have "log_step lv False ?s2 ?s3" using log_step.send [of 0 ?s2 lv False] by (simp add: filelog_New_def)
  moreover have "log_step lv False ?s3 ?s4" using log_step.fill [of 0 ?s3 False lv "[2]"] by (simp add: filelog_New_def)
  moreover have "log_step lv False ?s4 (writeBytes lv 0 (?s4\<lparr>fg_ch := []\<rparr>))"
    using log_step.work [of ?s4 0 "[]" lv False] by (simp add: filelog_New_def)
  ultimately have "log_reach lv False ?s0 (writeBytes lv 0 (?s4\<lparr>fg_ch := []\<rparr>))" by (meson log_reach.intros)
  then show "\<exists>fl. log_reach lv False ?s0 fl \<and> map snd (fg_sent fl) = [[1]] \<and> map (\<lambda>(_, _, d). d) (fg_out fl) = [[2]]"
    by (intro exI conjI) (assumption, simp_all add: writeBytes_def put_log_def filelog_New_def)
next
  let ?s0 = "filelog_New app 1 year day mem"
  let ?s1 = "?s0\<lparr>fg_inside := [0]\<rparr>"
  let ?s2 = "?s1\<lparr>fg_cancelled := True\<rparr>"
  let ?s3 = "?s2\<lparr>fg_done := True\<rparr>"
  let ?s4 = "?s3\<lparr>fg_inside := [], fg_ch := [0], fg_sent := [(0, mem 0)]\<rparr>"
  have "log_step lv True ?s0 ?s1" using log_step.enter [of 0 ?s0 lv True] by (simp add: filelog_New_def)
  moreover have "log_step lv True ?s1 ?s2" using log_step.cancel [of lv True ?s1] by simp
  moreover have "log_step lv True ?s2 ?s3" using log_step.stop [of ?s2 lv True] by (simp add: filelog_New_def drainWriteCh_def)
  moreover have "log_step lv True ?s3 ?s4" using log_step.send [of 0 ?s3 lv True] by (simp add: filelog_New_def)
  ultimately have "log_reach lv True ?s0 ?s4" by (meson log_reach.intros)
  then show "\<exists>fl. log_reach lv True ?s0 fl \<and> fg_done fl \<and> fg_sent fl = [(0, mem 0)] \<and> fg_out fl = []"
    by (intro exI conjI) (assumption, simp_all add: filelog_New_def)
qed

end
