(* ===== verification/Legacy_Tools.thy ===== *)
theory Legacy_Tools
  imports Legacy_Log Legacy_Keyring "HOL-Library.Signed_Division" "HOL-Library.Multiset" "HOL-Library.Sublist"
begin

text \<open>
  The command-line tools of the previous program: the bridge to the agent's pipe (src/old/cmd/omni-socat/main.go), the
  loader of keys (cmd/pageant-add/main.go) and the benchmark (cmd/agent-bench).

  \<^verbatim>\<open>log.Fatal\<close> ends the process without running deferred calls: it is the exit \<open>Fatal\<close>.  The environment, the flags, pipes and the
  agents at their other end are parameters.
\<close>

datatype exit = Fatal string | Returns | Panics string

section \<open>omni-socat/main.go\<close>

record socat_spec =
  sp_Debug :: bool
  sp_LogFile :: string
  sp_List :: bool

text \<open>
  \<open>xe_process\<close> is what \<^verbatim>\<open>envconfig\<close> reads, \<open>xe_debug\<close> and \<open>xe_l\<close> the values of the flags that are given, \<open>xe_end\<close>
  how the bridge ends.
\<close>

record 's socat_env =
  xe_process :: "socat_spec result"
  xe_debug :: "bool option"
  xe_l :: "bool option"
  xe_fp :: filepath_ops
  xe_home :: "string result"
  xe_openLog :: "string \<Rightarrow> goerr option"
  xe_dial :: "string \<Rightarrow> goerr option"
  xe_end :: first_end
  xe_listDial :: "nat \<Rightarrow> goerr option"
  xe_agent :: "'s ExtendedAgent"
  xe_keyString :: "AgentKey \<Rightarrow> string"

datatype tool_event = OpenedLog string | ClosedLog string | Printed string | Bridged string

definition socat_appName :: string where "socat_appName = ''OmniSSHAgent''"

definition getExeName :: string where "getExeName = socat_appName @ ''.exe''"

definition socat_proxy :: "'s socat_env \<Rightarrow> string \<Rightarrow> exit \<times> tool_event list" where
  "socat_proxy xe name =
     (case stdin_Proxy (xe_dial xe) name (xe_end xe) of
        (r, p) \<Rightarrow> (case r of None \<Rightarrow> Returns | Some e \<Rightarrow> Fatal (err_text e), case p of None \<Rightarrow> [] | Some path \<Rightarrow> [Bridged path]))"

text \<open>\<^verbatim>\<open>listMode\<close>: an error is printed, and then the keys, of which there are none.\<close>

fun numbered :: "nat \<Rightarrow> string list \<Rightarrow> string list" where
  "numbered i [] = []"
| "numbered i (k # ks) = (''#'' @ nat_digits i @ '': '' @ k) # numbered (Suc i) ks"

definition listMode :: "'s socat_env \<Rightarrow> 's pipe_client \<Rightarrow> tool_event list \<times> 's pipe_client" where
  "listMode xe c =
     (case ag_List (np_agent (xe_listDial xe) (xe_agent xe)) c of
        (Inl e, c1) \<Rightarrow> ([Printed (err_text e)], c1)
      | (Inr keys, c1) \<Rightarrow> (map Printed (numbered 1 (map (xe_keyString xe) keys)), c1))"

definition socat_flags :: "'s socat_env \<Rightarrow> socat_spec \<Rightarrow> socat_spec" where
  "socat_flags xe s =
     s\<lparr>sp_Debug := (case xe_debug xe of None \<Rightarrow> sp_Debug s | Some b \<Rightarrow> b),
       sp_List := (case xe_l xe of None \<Rightarrow> sp_List s | Some b \<Rightarrow> b)\<rparr>"

text \<open>The log file of the debug mode: the path opened, or why the program ends.\<close>

definition socat_log :: "'s socat_env \<Rightarrow> socat_spec \<Rightarrow> (exit + string option)" where
  "socat_log xe s =
     (if \<not> sp_Debug s then Inr None
      else
        (case xe_home xe of
           Inl e \<Rightarrow> Inl (Fatal (err_text e))
         | Inr home \<Rightarrow>
             (let path = fp_Join (xe_fp xe) [home, sp_LogFile s] in
              case xe_openLog xe path of Some e \<Rightarrow> Inl (Fatal (err_text e)) | None \<Rightarrow> Inr (Some path))))"

definition socat_mode ::
  "'s socat_env \<Rightarrow> store_env \<Rightarrow> socat_spec \<Rightarrow> 's pipe_client \<Rightarrow> store_state \<Rightarrow>
   exit \<times> tool_event list \<times> 's pipe_client \<times> store_state" where
  "socat_mode xe se s c st =
     (if sp_List s then (case listMode xe c of (evs, c1) \<Rightarrow> (Returns, evs, c1, st))
      else
        (case Settings_Load (se\<lparr>sv_AppName := getExeName\<rparr>) st of
           (Some e, st1) \<Rightarrow> (Fatal (err_text e), [], c, st1)
         | (None, st1) \<Rightarrow>
             if sd_NamedPipeAgent (so_data st1) \<or> sd_ProxyModeOfNamedPipe (so_data st1)
             then (case socat_proxy xe '''' of (x, evs) \<Rightarrow> (x, evs, c, st1))
             else (Fatal ''Failed to connect to OmniSSHAgent. Enable the Named pipe interface for OmniSSHAgent.'', [], c, st1)))"

definition socat_main ::
  "'s socat_env \<Rightarrow> store_env \<Rightarrow> 's pipe_client \<Rightarrow> store_state \<Rightarrow> exit \<times> tool_event list \<times> 's pipe_client \<times> store_state" where
  "socat_main xe se c st =
     (case xe_process xe of
        Inl e \<Rightarrow> (Fatal (err_text e), [], c, st)
      | Inr s0 \<Rightarrow>
          (let s = socat_flags xe s0 in
           case socat_log xe s of
             Inl x \<Rightarrow> (x, [], c, st)
           | Inr None \<Rightarrow> socat_mode xe se s c st
           | Inr (Some path) \<Rightarrow>
               (case socat_mode xe se s c st of (x, evs, c1, st1) \<Rightarrow>
                  (x, [OpenedLog path] @ evs @ (if x = Returns then [ClosedLog path] else []), c1, st1))))"

section \<open>The bridge's two copies\<close>

text \<open>
  \<^verbatim>\<open>Proxy\<close> of npipe2stdin copies from the pipe to standard output and from standard input to the pipe, each in its own goroutine, and
  returns, closing the pipe, when the first of the two has ended.  \<open>bg_stdin\<close> is what the input still holds, \<open>bg_pipe\<close> what the
  agent has sent and nobody has read, \<open>bg_replied\<close> all the agent has sent.
\<close>

record bridge =
  bg_stdin :: "bytes list"
  bg_sent :: bytes
  bg_pipe :: bytes
  bg_replied :: bytes
  bg_out :: bytes
  bg_inEnded :: bool
  bg_outEnded :: bool
  bg_returned :: bool

definition bridge_start :: "bytes list \<Rightarrow> bridge" where
  "bridge_start input =
     \<lparr>bg_stdin = input, bg_sent = [], bg_pipe = [], bg_replied = [], bg_out = [], bg_inEnded = False, bg_outEnded = False,
      bg_returned = False\<rparr>"

inductive bridge_step :: "bridge \<Rightarrow> bridge \<Rightarrow> bool" where
  copy_in: "\<not> bg_returned b \<Longrightarrow> \<not> bg_inEnded b \<Longrightarrow> bg_stdin b = x # xs \<Longrightarrow>
    bridge_step b (b\<lparr>bg_stdin := xs, bg_sent := bg_sent b @ x\<rparr>)"
| in_ends: "\<not> bg_returned b \<Longrightarrow> bg_stdin b = [] \<Longrightarrow> bridge_step b (b\<lparr>bg_inEnded := True\<rparr>)"
| agent_sends: "\<not> bg_returned b \<Longrightarrow> bridge_step b (b\<lparr>bg_pipe := bg_pipe b @ r, bg_replied := bg_replied b @ r\<rparr>)"
| copy_out: "\<not> bg_returned b \<Longrightarrow> \<not> bg_outEnded b \<Longrightarrow> bg_pipe b = x @ y \<Longrightarrow>
    bridge_step b (b\<lparr>bg_pipe := y, bg_out := bg_out b @ x\<rparr>)"
| out_ends: "\<not> bg_returned b \<Longrightarrow> bridge_step b (b\<lparr>bg_outEnded := True\<rparr>)"
| first_end: "bg_inEnded b \<or> bg_outEnded b \<Longrightarrow> bridge_step b (b\<lparr>bg_returned := True\<rparr>)"

inductive bridge_run :: "bridge \<Rightarrow> bridge \<Rightarrow> bool" for b0 where
  start: "bridge_run b0 b0"
| step: "bridge_run b0 b \<Longrightarrow> bridge_step b b1 \<Longrightarrow> bridge_run b0 b1"

section \<open>pageant-add/main.go\<close>

text \<open>\<open>available\<close> is \<^verbatim>\<open>pageant.Available\<close>, \<open>a\<close> the agent behind it, \<open>parse\<close> is \<^verbatim>\<open>ssh.ParseRawPrivateKey\<close>.\<close>

fun indexed :: "nat \<Rightarrow> string list \<Rightarrow> string list" where
  "indexed i [] = []"
| "indexed i (k # ks) = (nat_digits i @ '': ['' @ k @ '']'') # indexed (Suc i) ks"

definition pageant_add_main ::
  "bool \<Rightarrow> bool \<Rightarrow> string list \<Rightarrow> os_env \<Rightarrow> (bytes \<Rightarrow> bytes result) \<Rightarrow> (AgentKey \<Rightarrow> string) \<Rightarrow> 's ExtendedAgent \<Rightarrow> 's \<Rightarrow> world \<Rightarrow>
   exit \<times> string list \<times> 's \<times> world" where
  "pageant_add_main available listFlag args oe parse keyString a s w =
     (if \<not> available then (Fatal ''pageant is not available'', [], s, w)
      else if listFlag then
        (case ag_List a s of
           (Inl e, s1) \<Rightarrow> (Fatal (err_text e), [], s1, w)
         | (Inr keys, s1) \<Rightarrow> (Returns, ''key list:'' # indexed 0 (map keyString keys), s1, w))
      else
        (case args of
           [] \<Rightarrow> (Fatal ''Enter the key file name in the option'', [], s, w)
         | fname # _ \<Rightarrow>
             (case os_ReadFile oe fname w of
                (Inl e, w1) \<Rightarrow> (Fatal (err_text e), [], s, w1)
              | (Inr pemBytes, w1) \<Rightarrow>
                  (case parse pemBytes of
                     Inl e \<Rightarrow> (Fatal (err_text e), [], s, w1)
                   | Inr key \<Rightarrow>
                       (case ag_Add a (plain_added key '''') s of
                          (Inl e, s1) \<Rightarrow> (Fatal (err_text e), [], s1, w1)
                        | (Inr _, s1) \<Rightarrow> (Returns, [], s1, w1))))))"

section \<open>agent-bench\<close>

definition sshAgentPipe :: string where
  "sshAgentPipe = [bslash, bslash] @ ''.'' @ [bslash] @ ''pipe'' @ [bslash] @ ''openssh-ssh-agent''"

text \<open>\<^verbatim>\<open>newAgent\<close> on Windows: the connection it holds, by number.\<close>

definition bench_newAgent :: "(string \<Rightarrow> nat result) \<Rightarrow> nat result" where
  "bench_newAgent dial = dial sshAgentPipe"

text \<open>\<^verbatim>\<open>NewPageant\<close> has no connection, \<^verbatim>\<open>NewUnixDomain\<close> and \<^verbatim>\<open>listKeys\<close> are those of a Unix build.\<close>

definition bench_NewPageant :: "bool \<Rightarrow> nat option result" where
  "bench_NewPageant available = (if available then Inr None else Inl (ErrNew ''pageant is not available''))"

definition bench_Close :: "nat option \<Rightarrow> nat list" where
  "bench_Close conn = (case conn of None \<Rightarrow> [] | Some n \<Rightarrow> [n])"

definition bench_NewUnixDomain :: "(string \<Rightarrow> string) \<Rightarrow> (string \<Rightarrow> nat result) \<Rightarrow> exit + nat" where
  "bench_NewUnixDomain getenv dial =
     (case dial (getenv ''SSH_AUTH_SOCK'') of Inl e \<Rightarrow> Inl (Fatal (err_text e)) | Inr n \<Rightarrow> Inr n)"

definition bench_listKeys ::
  "(string \<Rightarrow> string) \<Rightarrow> (string \<Rightarrow> nat result) \<Rightarrow> 's ExtendedAgent \<Rightarrow> (AgentKey \<Rightarrow> string) \<Rightarrow> 's \<Rightarrow> exit + string list" where
  "bench_listKeys getenv dial a keyString s =
     (case dial (getenv ''SSH_AUTH_SOCK'') of
        Inl e \<Rightarrow> Inl (Fatal (err_text e))
      | Inr _ \<Rightarrow>
          (case fst (ag_List a s) of Inl e \<Rightarrow> Inl (Fatal (err_text e)) | Inr keys \<Rightarrow> Inr (map keyString keys)))"

text \<open>The wrapper of the benchmark's agents answers these two with nothing and no error.\<close>

definition exAgent :: "'s ExtendedAgent \<Rightarrow> 's ExtendedAgent" where
  "exAgent a = a\<lparr>ag_SignWithFlags := (\<lambda>_ _ _ s. (Inr [], s)), ag_Extension := (\<lambda>_ _ s. (Inr [], s))\<rparr>"

definition bench_getKey :: "(string \<Rightarrow> nat result) \<Rightarrow> AgentKey list result \<Rightarrow> exit + AgentKey \<times> nat list" where
  "bench_getKey dial keys =
     (case bench_newAgent dial of
        Inl e \<Rightarrow> Inl (Fatal (err_text e))
      | Inr conn \<Rightarrow>
          (case keys of
             Inl e \<Rightarrow> Inl (Fatal (''Failed to list keys: '' @ err_text e))
           | Inr [] \<Rightarrow> Inl (Fatal ''No keys found in SSH agent'')
           | Inr (k # _) \<Rightarrow> Inr (k, [conn])))"

text \<open>One measurement: what dialing would give, whether signing fails, and the time from its start to its end, in nanoseconds.\<close>

record task =
  tk_dial :: "string \<Rightarrow> nat result"
  tk_sign :: "goerr option"
  tk_time :: int

record bench_worker =
  bw_times :: "int list"
  bw_client :: "nat option"
  bw_opened :: "nat list"
  bw_closed :: "nat list"

definition fresh_worker :: bench_worker where
  "fresh_worker = \<lparr>bw_times = [], bw_client = None, bw_opened = [], bw_closed = []\<rparr>"

text \<open>\<^verbatim>\<open>worker\<close>: a connection is made when there is none, and closed after each signature unless it is persistent.\<close>

definition bench_client :: "task \<Rightarrow> bench_worker \<Rightarrow> exit + nat \<times> bench_worker" where
  "bench_client t b =
     (case bw_client b of
        Some n \<Rightarrow> Inr (n, b)
      | None \<Rightarrow>
          (case bench_newAgent (tk_dial t) of
             Inl e \<Rightarrow> Inl (Fatal (err_text e))
           | Inr n \<Rightarrow> Inr (n, b\<lparr>bw_client := Some n, bw_opened := bw_opened b @ [n]\<rparr>)))"

definition worker_task :: "bool \<Rightarrow> task \<Rightarrow> bench_worker \<Rightarrow> exit + bench_worker" where
  "worker_task persistent t b =
     (case bench_client t b of
        Inl x \<Rightarrow> Inl x
      | Inr (n, b1) \<Rightarrow>
          (let b2 = (if persistent then b1 else b1\<lparr>bw_client := None, bw_closed := bw_closed b1 @ bench_Close (Some n)\<rparr>) in
           Inr (if tk_sign t \<noteq> None then b2 else b2\<lparr>bw_times := bw_times b2 @ [tk_time t]\<rparr>)))"

fun worker :: "bool \<Rightarrow> task list \<Rightarrow> bench_worker \<Rightarrow> exit + bench_worker" where
  "worker persistent [] b = Inr b"
| "worker persistent (t # ts) b = (case worker_task persistent t b of Inl x \<Rightarrow> Inl x | Inr b1 \<Rightarrow> worker persistent ts b1)"

text \<open>
  \<^verbatim>\<open>float64(n)*0.99\<close>: the product of \<open>n\<close> and the double nearest to 0.99, which is \<open>mant99\<close> over two to the 53, rounded to 53
  significant bits, half to even.
\<close>

fun bits :: "nat \<Rightarrow> nat" where
  "bits n = (if n = 0 then 0 else Suc (bits (n div 2)))"

declare bits.simps [simp del]

definition mant99 :: nat where "mant99 = 8917127262193582"

definition round53 :: "nat \<Rightarrow> nat" where
  "round53 p =
     (let s = bits p - 53 in
      if s = 0 then p
      else
        (let q = p div 2 ^ s; r = p mod 2 ^ s; half = 2 ^ (s - 1) in
         (if half < r \<or> (r = half \<and> odd q) then Suc q else q) * 2 ^ s))"

definition p99_index :: "nat \<Rightarrow> int" where
  "p99_index n = int (round53 (n * mant99) div 2 ^ 53) - 1"

record bench_stats =
  br_total :: int
  br_average :: int
  br_min :: int
  br_max :: int
  br_p99 :: int

definition int64 :: "int \<Rightarrow> int" where
  "int64 x = sint (word_of_int x :: 64 word)"

text \<open>What \<^verbatim>\<open>main\<close> prints of the times, a \<^verbatim>\<open>time.Duration\<close> being an \<^verbatim>\<open>int64\<close>.\<close>

definition summarize :: "int list \<Rightarrow> exit + bench_stats" where
  "summarize ts =
     (if ts = [] then Inl (Panics ''index out of range'')
      else
        (let total = foldl (\<lambda>a t. int64 (a + t)) 0 ts;
             lo = foldl (\<lambda>m t. if t < m then t else m) (hd ts) ts;
             hi = foldl (\<lambda>m t. if t > m then t else m) (hd ts) ts;
             idx = p99_index (length ts) in
         if idx < 0 \<or> int (length ts) \<le> idx then Inl (Panics ''index out of range'')
         else Inr \<lparr>br_total = total, br_average = total sdiv int (length ts), br_min = lo, br_max = hi,
                   br_p99 = sort ts ! nat idx\<rparr>))"

text \<open>
  \<open>parts\<close> are the tasks each worker took from the channel, in the order in which the workers finished.  A worker that ends the
  process ends the benchmark.
\<close>

fun bench_times :: "bool \<Rightarrow> task list list \<Rightarrow> exit + int list" where
  "bench_times persistent [] = Inr []"
| "bench_times persistent (ts # parts) =
     (case worker persistent ts fresh_worker of
        Inl x \<Rightarrow> Inl x
      | Inr b \<Rightarrow> (case bench_times persistent parts of Inl x \<Rightarrow> Inl x | Inr measured \<Rightarrow> Inr (bw_times b @ measured)))"

definition bench_main ::
  "int \<Rightarrow> bool \<Rightarrow> (string \<Rightarrow> nat result) \<Rightarrow> AgentKey list result \<Rightarrow> task list list \<Rightarrow> exit + bench_stats" where
  "bench_main concurrency persistent dial keys parts =
     (if concurrency < 0 then Inl (Panics ''makechan: size out of range'')
      else
        (case bench_getKey dial keys of
           Inl x \<Rightarrow> Inl x
         | Inr _ \<Rightarrow> (case bench_times persistent parts of Inl x \<Rightarrow> Inl x | Inr measured \<Rightarrow> summarize measured)))"


section \<open>Lemmas: rounding\<close>

lemma bits_0 [simp]: "bits 0 = 0"
  by (subst bits.simps) simp

lemma bits_upper: "n < 2 ^ bits n"
proof (induction n rule: bits.induct)
  case (1 n)
  show ?case
  proof (cases "n = 0")
    case False
    then have "n div 2 < 2 ^ bits (n div 2)" using 1 by simp
    then have "n < 2 * 2 ^ bits (n div 2)" by linarith
    then show ?thesis using False by (subst bits.simps) simp
  qed simp
qed

lemma bits_lower: "0 < n \<Longrightarrow> 2 ^ (bits n - 1) \<le> n"
proof (induction n rule: bits.induct)
  case (1 n)
  have b: "bits n = Suc (bits (n div 2))" using 1(2) by (subst bits.simps) simp
  show ?case
  proof (cases "n div 2 = 0")
    case True
    then show ?thesis using 1(2) unfolding b by simp
  next
    case False
    then have "2 ^ (bits (n div 2) - 1) \<le> n div 2" using 1 by simp
    moreover have "0 < bits (n div 2)" using False by (subst bits.simps) simp
    ultimately have "2 ^ bits (n div 2) \<le> 2 * (n div 2)" by (cases "bits (n div 2)") auto
    then show ?thesis unfolding b by simp
  qed
qed

text \<open>Rounding moves a number by at most one part in two to the 53.\<close>

lemma round53_close: "round53 p \<le> p + p div 2 ^ 53" "p \<le> round53 p + p div 2 ^ 53"
proof -
  define s where "s = bits p - 53"
  have "round53 p \<le> p + p div 2 ^ 53 \<and> p \<le> round53 p + p div 2 ^ 53"
  proof (cases "s = 0")
    case True
    then show ?thesis by (simp add: round53_def s_def Let_def)
  next
    case False
    define q where "q = p div 2 ^ s"
    define r where "r = p mod 2 ^ s"
    define h where "h = (2 :: nat) ^ (s - 1)"
    have hs: "2 ^ s = 2 * h" using False by (cases s) (simp_all add: h_def)
    have p: "p = q * 2 ^ s + r" unfolding q_def r_def by (rule div_mult_mod_eq [symmetric])
    have r: "r < 2 ^ s" by (simp add: r_def)
    have "0 < p" using False by (cases "p = 0") (simp_all add: s_def)
    from bits_lower [OF this] have "2 ^ (52 + s) \<le> p" using False by (simp add: s_def)
    moreover have "(2 :: nat) ^ (52 + s) = h * 2 ^ 53" using False by (cases s) (simp_all add: h_def power_add)
    ultimately have hd: "h \<le> p div 2 ^ 53" by (simp add: less_eq_div_iff_mult_less_eq)
    have e: "round53 p = (if h < r \<or> (r = h \<and> odd q) then Suc q else q) * 2 ^ s"
      using False by (simp add: round53_def s_def q_def r_def h_def Let_def)
    show ?thesis
    proof (cases "h < r \<or> (r = h \<and> odd q)")
      case True
      then have "round53 p = q * 2 ^ s + 2 * h" "h \<le> r" using e hs by auto
      then show ?thesis using p r hd hs by linarith
    next
      case False
      then have "round53 p = q * 2 ^ s" "r \<le> h" using e by (auto simp: not_less)
      then show ?thesis using p hd by linarith
    qed
  qed
  then show "round53 p \<le> p + p div 2 ^ 53" "p \<le> round53 p + p div 2 ^ 53" by simp_all
qed

lemma p99_index_bounds:
  assumes "2 \<le> n"
  shows "0 \<le> p99_index n" and "p99_index n + 1 < int n"
proof -
  have d: "n * mant99 div 2 ^ 53 \<le> n"
    by (rule order_trans [OF div_le_mono [of _ "n * 2 ^ 53"]]) (simp_all add: mant99_def)
  have "round53 (n * mant99) \<le> n * (mant99 + 1)" using round53_close(1) [of "n * mant99"] d by simp
  also have "\<dots> < n * 2 ^ 53" using assms by (simp add: mant99_def)
  finally have up: "round53 (n * mant99) div 2 ^ 53 < n" by (simp add: div_less_iff_less_mult)
  have "n * mant99 \<le> round53 (n * mant99) + n" using round53_close(2) [of "n * mant99"] d by linarith
  moreover have "2 * (mant99 - 1) \<le> n * (mant99 - 1)" using assms by (intro mult_right_mono) simp_all
  moreover have "n * mant99 = n * (mant99 - 1) + n" by (simp add: mant99_def)
  ultimately have "2 * (mant99 - 1) \<le> round53 (n * mant99)" by linarith
  then have "2 ^ 53 \<le> round53 (n * mant99)" by (simp add: mant99_def)
  then have "1 \<le> round53 (n * mant99) div 2 ^ 53" by (simp add: less_eq_div_iff_mult_less_eq)
  then show "0 \<le> p99_index n" by (simp add: p99_index_def)
  show "p99_index n + 1 < int n" using up by (simp add: p99_index_def)
qed

lemma p99_index_one: "p99_index 1 = -1"
proof -
  have "round53 mant99 \<le> mant99 + mant99 div 2 ^ 53" by (rule round53_close)
  moreover have "mant99 div 2 ^ 53 = 0" by (simp add: mant99_def)
  ultimately have "round53 mant99 < 2 ^ 53" by (simp add: mant99_def)
  then show ?thesis by (simp add: p99_index_def)
qed


section \<open>Lemmas: the benchmark\<close>

text \<open>
  The connections of a worker: every one it opened was closed, but for the one it holds; a worker that is not persistent
  holds none between tasks, a persistent one closes none.
\<close>

definition worker_ok :: "bool \<Rightarrow> bench_worker \<Rightarrow> bool" where
  "worker_ok persistent b \<longleftrightarrow>
     bw_opened b = bw_closed b @ (case bw_client b of None \<Rightarrow> [] | Some n \<Rightarrow> [n]) \<and>
     (if persistent then bw_closed b = [] else bw_client b = None)"

lemma worker_ok_fresh [simp]: "worker_ok persistent fresh_worker"
  by (simp add: worker_ok_def fresh_worker_def)

lemma worker_task_ok:
  assumes "worker_task persistent t b = Inr b1" and "worker_ok persistent b"
  shows "worker_ok persistent b1" and "bw_times b1 = bw_times b @ (if tk_sign t = None then [tk_time t] else [])"
  using assms by (auto simp: worker_task_def bench_client_def worker_ok_def bench_Close_def Let_def split: sum.splits option.splits if_splits)

definition signed_times :: "task list \<Rightarrow> int list" where
  "signed_times ts = map tk_time (filter (\<lambda>t. tk_sign t = None) ts)"

lemma worker_result:
  "worker persistent ts b = Inr b1 \<Longrightarrow> worker_ok persistent b \<Longrightarrow>
   worker_ok persistent b1 \<and> bw_times b1 = bw_times b @ signed_times ts"
proof (induction ts arbitrary: b)
  case (Cons t ts)
  obtain b2 where s: "worker_task persistent t b = Inr b2" "worker persistent ts b2 = Inr b1"
    using Cons.prems(1) by (auto split: sum.splits)
  note w = worker_task_ok [OF s(1) Cons.prems(2)]
  show ?case using Cons.IH [OF s(2) w(1)] w(2) by (simp add: signed_times_def)
qed (simp add: signed_times_def)

lemma worker_dials:
  assumes "\<forall>t \<in> set ts. \<not> isl (tk_dial t sshAgentPipe)"
  shows "\<not> isl (worker persistent ts b)"
  using assms
proof (induction ts arbitrary: b)
  case (Cons t ts)
  obtain n where "tk_dial t sshAgentPipe = Inr n" using Cons.prems by (cases "tk_dial t sshAgentPipe") auto
  then have "\<exists>b1. worker_task persistent t b = Inr b1"
    by (auto simp: worker_task_def bench_client_def bench_newAgent_def Let_def split: option.splits)
  then show ?case using Cons by auto
qed simp

lemma bench_times_all:
  assumes "\<forall>t \<in> set (concat parts). \<not> isl (tk_dial t sshAgentPipe)"
  shows "bench_times persistent parts = Inr (signed_times (concat parts))"
  using assms
proof (induction parts)
  case (Cons ts parts)
  have "\<not> isl (worker persistent ts fresh_worker)" using Cons.prems by (intro worker_dials) auto
  then obtain b where b: "worker persistent ts fresh_worker = Inr b" by (cases "worker persistent ts fresh_worker") auto
  have "bw_times b = signed_times ts"
    using worker_result [OF b worker_ok_fresh] by (simp add: fresh_worker_def)
  then show ?case using b Cons by (simp add: signed_times_def)
qed (simp add: signed_times_def)

text \<open>The sum of the times, as the wrapped sum of the list.\<close>

lemma int64_add: "int64 (int64 a + b) = int64 (a + b)"
  by (simp add: int64_def flip: of_int_add) (simp add: of_int_add)

lemma foldl_int64: "foldl (\<lambda>a t. int64 (a + t)) (int64 a) ts = int64 (a + sum_list ts)"
proof (induction ts arbitrary: a)
  case (Cons t ts)
  then show ?case using Cons.IH [of "a + t"] by (simp add: int64_add add.assoc)
qed simp

lemma foldl_least: "foldl (\<lambda>m t. if t < m then t else m) (x :: int) ts = Min (insert x (set ts))"
proof (induction ts arbitrary: x)
  case (Cons t ts)
  have "Min (insert (if t < x then t else x) (set ts)) = Min (insert x (insert t (set ts)))"
    by (cases "set ts = {}") (auto simp: min_def)
  then show ?case using Cons by simp
qed simp

lemma foldl_greatest: "foldl (\<lambda>m t. if t > m then t else m) (x :: int) ts = Max (insert x (set ts))"
proof (induction ts arbitrary: x)
  case (Cons t ts)
  have "Max (insert (if t > x then t else x) (set ts)) = Max (insert x (insert t (set ts)))"
    by (cases "set ts = {}") (auto simp: max_def)
  then show ?case using Cons by simp
qed simp

lemma summarize_ok:
  assumes "2 \<le> length ts"
  shows "summarize ts = Inr \<lparr>br_total = int64 (sum_list ts), br_average = int64 (sum_list ts) sdiv int (length ts),
    br_min = Min (set ts), br_max = Max (set ts), br_p99 = sort ts ! nat (p99_index (length ts))\<rparr>"
proof -
  have z: "int64 0 = 0" by (simp add: int64_def)
  have "hd ts \<in> set ts" using assms by (cases ts) auto
  then have "insert (hd ts) (set ts) = set ts" by auto
  then show ?thesis
    using assms p99_index_bounds [OF assms] foldl_int64 [of 0 ts]
    by (auto simp: summarize_def foldl_least foldl_greatest z Let_def)
qed

lemma summarize_mset: "mset ts = mset us \<Longrightarrow> summarize ts = summarize us"
proof -
  assume m: "mset ts = mset us"
  then have l: "length ts = length us" by (rule mset_eq_length)
  show ?thesis
  proof (cases "2 \<le> length ts")
    case True
    have "sum_list ts = sum_list us" using m by (metis sum_mset_sum_list)
    moreover have "sort ts = sort us" using m by (metis properties_for_sort mset_sort sorted_sort)
    moreover have "set ts = set us" using m by (rule mset_eq_setD)
    ultimately show ?thesis using summarize_ok [of ts] summarize_ok [of us] True l by simp
  next
    case False
    then consider "length ts = 0" | "length ts = 1" by linarith
    then show ?thesis
    proof cases
      case 1
      then show ?thesis using l by simp
    next
      case 2
      then obtain a b where "ts = [a]" "us = [b]" using l by (metis length_0_conv length_Suc_conv One_nat_def)
      then show ?thesis using m by simp
    qed
  qed
qed


section \<open>Lemmas: the bridge's program and the loader\<close>

lemma stdin_Proxy_path: "snd (stdin_Proxy dial '''' e) = Some p \<Longrightarrow> p = sshAgentPipe"
  by (auto simp: stdin_Proxy_def stdin_pipePath_def sshAgentPipe_def Let_def split: option.splits)

lemma listMode_idle: "np_conn c = None \<Longrightarrow> np_conn (snd (listMode xe c)) = None"
  by (auto simp: listMode_def np_agent_def np_call_def np_dial_def np_Close_def Let_def split: option.splits sum.splits prod.splits)

lemma listMode_prints: "e \<in> set (fst (listMode xe c)) \<Longrightarrow> \<exists>t. e = Printed t"
  by (auto simp: listMode_def split: sum.splits prod.splits)

lemma socat_mode_cases:
  assumes "socat_mode xe se s c st = (x, evs, c1, st1)"
  obtains (listed) "sp_List s" and "evs = fst (listMode xe c)" and "c1 = snd (listMode xe c)" and "st1 = st" and "x = Returns"
  | (refused) "evs = []" and "c1 = c" and "x \<noteq> Returns" and "\<not> sp_List s" and "st1 = snd (Settings_Load (se\<lparr>sv_AppName := getExeName\<rparr>) st)"
  | (bridged) "Settings_Load (se\<lparr>sv_AppName := getExeName\<rparr>) st = (None, st1)" and "\<not> sp_List s" and "c1 = c"
      and "sd_NamedPipeAgent (so_data st1) \<or> sd_ProxyModeOfNamedPipe (so_data st1)"
      and "\<forall>e \<in> set evs. e = Bridged sshAgentPipe" and "x = Returns \<Longrightarrow> evs = [Bridged sshAgentPipe]"
proof (cases "sp_List s")
  case True
  then show thesis using assms by (intro listed) (auto simp: socat_mode_def split: prod.splits)
next
  case False
  obtain r st0 where l: "Settings_Load (se\<lparr>sv_AppName := getExeName\<rparr>) st = (r, st0)" by fastforce
  show thesis
  proof (cases "r = None \<and> (sd_NamedPipeAgent (so_data st0) \<or> sd_ProxyModeOfNamedPipe (so_data st0))")
    case True
    obtain pr pp where p: "stdin_Proxy (xe_dial xe) '''' (xe_end xe) = (pr, pp)" by fastforce
    have x: "st1 = st0" "c1 = c" "evs = (case pp of None \<Rightarrow> [] | Some path \<Rightarrow> [Bridged path])"
        "x = (case pr of None \<Rightarrow> Returns | Some e \<Rightarrow> Fatal (err_text e))"
      using assms False True l p by (auto simp: socat_mode_def socat_proxy_def split: if_splits)
    have "pr = None \<Longrightarrow> pp \<noteq> None"
      using p by (auto simp: stdin_Proxy_def Let_def split: option.splits if_splits)
    moreover have "pp = Some q \<Longrightarrow> q = sshAgentPipe" for q using stdin_Proxy_path [of "xe_dial xe" "xe_end xe"] p by simp
    ultimately show thesis using x True False l by (intro bridged) (auto split: option.splits)
  next
    case no: False
    then show thesis using assms False l by (intro refused) (auto simp: socat_mode_def split: option.splits if_splits)
  qed
qed

text \<open>\<^verbatim>\<open>pageant-add\<close> gives the agent the key the file holds, without a comment, and nothing else; it changes no file.\<close>

lemma pageant_add_adds:
  assumes "pageant_add_main available listFlag args oe parse keyString a s w = (x, out, s1, w1)"
  shows "w_files w1 = w_files w" and "\<not> listFlag \<Longrightarrow> s1 \<noteq> s \<or> x = Returns \<Longrightarrow>
    \<exists>fname rest data key. args = fname # rest \<and> fst (os_ReadFile oe fname w) = Inr data \<and> parse data = Inr key \<and>
      snd (ag_Add a (plain_added key '''') s) = s1 \<and> (x = Returns \<longleftrightarrow> \<not> isl (fst (ag_Add a (plain_added key '''') s)))"
proof -
  have "w1 = w \<or> (\<exists>fname. w1 = snd (os_ReadFile oe fname w))"
    using assms by (auto simp: pageant_add_main_def split: if_splits list.splits sum.splits prod.splits) (metis snd_conv)+
  then show "w_files w1 = w_files w" by auto
  show "\<exists>fname rest data key. args = fname # rest \<and> fst (os_ReadFile oe fname w) = Inr data \<and> parse data = Inr key \<and>
      snd (ag_Add a (plain_added key '''') s) = s1 \<and> (x = Returns \<longleftrightarrow> \<not> isl (fst (ag_Add a (plain_added key '''') s)))"
    if "\<not> listFlag" "s1 \<noteq> s \<or> x = Returns"
    using assms that by (auto simp: pageant_add_main_def split: if_splits list.splits sum.splits prod.splits)
qed

section \<open>Properties\<close>

text \<open>(bench_report). The benchmark's report depends on the measurements only, not on which worker took which task, the order in which the
  workers finish or the mode: with two or more successful signatures it returns, with the least, the greatest, the
  total (as a 64-bit number) and an element no less than the least and no greater than the greatest of the times; with
  fewer than two it ends in an index out of range, the index of the 99th percentile of one time being -1.\<close>

theorem bench_report:
  assumes "0 \<le> concurrency" and "dial sshAgentPipe = Inr conn" and "keys = Inr (k # ks)"
    and "\<forall>t \<in> set tasks. \<not> isl (tk_dial t sshAgentPipe)" and "mset (concat parts) = mset tasks"
  shows "bench_main concurrency persistent dial keys parts = summarize (signed_times tasks) \<and>
    (if length (signed_times tasks) < 2 then summarize (signed_times tasks) = Inl (Panics ''index out of range'')
     else \<exists>r. summarize (signed_times tasks) = Inr r \<and> br_total r = int64 (sum_list (signed_times tasks)) \<and>
       br_min r = Min (set (signed_times tasks)) \<and> br_max r = Max (set (signed_times tasks)) \<and>
       br_p99 r \<in> set (signed_times tasks) \<and> br_min r \<le> br_p99 r \<and> br_p99 r \<le> br_max r)"
proof
  have d: "\<forall>t \<in> set (concat parts). \<not> isl (tk_dial t sshAgentPipe)"
    using assms(4) mset_eq_setD [OF assms(5)] by simp
  have "mset (signed_times (concat parts)) = mset (signed_times tasks)"
    unfolding signed_times_def mset_map mset_filter assms(5) ..
  then have "summarize (signed_times (concat parts)) = summarize (signed_times tasks)" by (rule summarize_mset)
  then show "bench_main concurrency persistent dial keys parts = summarize (signed_times tasks)"
    using assms(1-3) bench_times_all [OF d] by (simp add: bench_main_def bench_getKey_def bench_newAgent_def)
  let ?ts = "signed_times tasks"
  show "if length ?ts < 2 then summarize ?ts = Inl (Panics ''index out of range'')
    else \<exists>r. summarize ?ts = Inr r \<and> br_total r = int64 (sum_list ?ts) \<and> br_min r = Min (set ?ts) \<and> br_max r = Max (set ?ts) \<and>
       br_p99 r \<in> set ?ts \<and> br_min r \<le> br_p99 r \<and> br_p99 r \<le> br_max r"
  proof (cases "length ?ts < 2")
    case True
    have "length ?ts = 1 \<Longrightarrow> summarize ?ts = Inl (Panics ''index out of range'')"
      using p99_index_one by (simp add: summarize_def Let_def)
    moreover have "length ?ts = 0 \<or> length ?ts = 1" using True by linarith
    ultimately show ?thesis using True by (auto simp: summarize_def)
  next
    case False
    then have n: "2 \<le> length ?ts" by simp
    have "nat (p99_index (length ?ts)) < length (sort ?ts)" using p99_index_bounds [OF n] by simp
    then have "sort ?ts ! nat (p99_index (length ?ts)) \<in> set ?ts" by (metis nth_mem set_sort)
    then show ?thesis using False summarize_ok [OF n] by simp
  qed
qed

definition sample_task :: "int \<Rightarrow> task" where
  "sample_task n = \<lparr>tk_dial = (\<lambda>_. Inr 1), tk_sign = (if n = 0 then Some EOF else None), tk_time = n\<rparr>"

theorem bench_report_witness:
  "\<exists>r. bench_main 2 True (\<lambda>_. Inr 1) (Inr [\<lparr>ak_Format = ''rsa'', ak_Blob = [1], ak_Comment = ''a''\<rparr>])
      [[sample_task 7, sample_task 0], [sample_task 3]] = Inr r \<and> br_min r = 3 \<and> br_max r = 7"
proof -
  let ?ts = "[sample_task 3, sample_task 7, sample_task 0]"
  have t: "signed_times ?ts = [3, 7]" by (simp add: signed_times_def sample_task_def)
  have "\<forall>t \<in> set ?ts. \<not> isl (tk_dial t sshAgentPipe)" by (simp add: sample_task_def)
  from bench_report [of 2 "\<lambda>_. Inr 1" 1 _ "\<lparr>ak_Format = ''rsa'', ak_Blob = [1], ak_Comment = ''a''\<rparr>" "[]" ?ts
      "[[sample_task 7, sample_task 0], [sample_task 3]]" True, OF _ refl refl this] t
  show ?thesis by auto
qed

lemma bench_one_panics: "summarize [t] = Inl (Panics ''index out of range'')"
  using p99_index_one by (simp add: summarize_def Let_def)

text \<open>A persistent worker leaves its connection open; any other closes each it opened.\<close>

lemma worker_connections:
  assumes "worker persistent ts fresh_worker = Inr b"
  shows "if persistent then bw_closed b = [] \<and> length (bw_opened b) \<le> 1 else bw_closed b = bw_opened b"
  using worker_result [OF assms worker_ok_fresh] by (auto simp: worker_ok_def split: option.splits)

lemma bridge_run_inv:
  assumes "bridge_run b0 b" and "b0 = bridge_start input"
  shows "bg_sent b @ concat (bg_stdin b) = concat input \<and> bg_out b @ bg_pipe b = bg_replied b"
  using assms
proof (induction rule: bridge_run.induct)
  case (step b b1)
  from step(2,3) step.prems show ?case by (induction rule: bridge_step.induct) auto
qed (simp add: bridge_start_def)

text \<open>(bridge_order). What the bridge has written to the agent is a prefix of its input, and what it has written to its
  output a prefix of what the agent sent; but it may return when its input has ended, with every request sent and
  answered, and none of the answer written.\<close>

theorem bridge_order:
  "(\<forall>b. bridge_run (bridge_start input) b \<longrightarrow>
      prefix (bg_sent b) (concat input) \<and> prefix (bg_out b) (bg_replied b)) \<and>
   (\<forall>reply. \<exists>b. bridge_run (bridge_start input) b \<and> bg_returned b \<and> bg_sent b = concat input \<and> bg_replied b = reply \<and> bg_out b = [])"
proof (intro conjI allI impI)
  fix b assume "bridge_run (bridge_start input) b"
  from bridge_run_inv [OF this refl] show "prefix (bg_sent b) (concat input)" "prefix (bg_out b) (bg_replied b)"
    by (auto intro: prefixI [OF sym])
next
  fix reply
  have "\<exists>b. bridge_run (bridge_start input) b \<and> b = (bridge_start input)\<lparr>bg_stdin := ys, bg_sent := concat xs\<rparr>"
    if "input = xs @ ys" for xs ys
    using that
  proof (induction xs arbitrary: ys rule: rev_induct)
    case Nil
    then show ?case using bridge_run.start [of "bridge_start input"] by (simp add: bridge_start_def)
  next
    case (snoc x xs)
    let ?b = "(bridge_start input)\<lparr>bg_stdin := x # ys, bg_sent := concat xs\<rparr>"
    have r: "bridge_run (bridge_start input) ?b" using snoc.IH [of "x # ys"] snoc.prems by auto
    have "bridge_step ?b (?b\<lparr>bg_stdin := ys, bg_sent := bg_sent ?b @ x\<rparr>)"
      by (rule bridge_step.copy_in) (simp_all add: bridge_start_def)
    from bridge_run.step [OF r this] show ?case by simp
  qed
  from this [of input "[]"] have a: "bridge_run (bridge_start input) ((bridge_start input)\<lparr>bg_stdin := [], bg_sent := concat input\<rparr>)"
    by auto
  define b1 where "b1 = (bridge_start input)\<lparr>bg_stdin := [], bg_sent := concat input\<rparr>"
  define b2 where "b2 = b1\<lparr>bg_pipe := bg_pipe b1 @ reply, bg_replied := bg_replied b1 @ reply\<rparr>"
  define b3 where "b3 = b2\<lparr>bg_inEnded := True\<rparr>"
  have "bridge_step b1 b2" unfolding b2_def by (rule bridge_step.agent_sends) (simp add: b1_def bridge_start_def)
  moreover have "bridge_step b2 b3"
    unfolding b3_def by (rule bridge_step.in_ends) (simp_all add: b2_def b1_def bridge_start_def)
  moreover have "bridge_step b3 (b3\<lparr>bg_returned := True\<rparr>)" by (rule bridge_step.first_end) (simp add: b3_def)
  ultimately have "bridge_run (bridge_start input) (b3\<lparr>bg_returned := True\<rparr>)"
    using a unfolding b1_def [symmetric] by (meson bridge_run.step)
  then show "\<exists>b. bridge_run (bridge_start input) b \<and> bg_returned b \<and> bg_sent b = concat input \<and> bg_replied b = reply \<and> bg_out b = []"
    by (rule exI [of _ "b3\<lparr>bg_returned := True\<rparr>", OF conjI]) (simp add: b3_def b2_def b1_def bridge_start_def)
qed

theorem bridge_order_witness:
  "\<exists>b. bridge_run (bridge_start [[1], [2]]) b \<and> bg_returned b \<and> bg_sent b = [1, 2] \<and> bg_replied b = [9] \<and> bg_out b = [] \<and>
    prefix (bg_out b) (bg_replied b)"
  using bridge_order [of "[[1], [2]]"] by fastforce


text \<open>(socat_gate). The bridge opens the agent's pipe, and no other, only when the settings could be loaded and one of the two interfaces they
  name is enabled, and a normal return without \<^verbatim>\<open>-l\<close> means that it did; listing the keys loads no settings; the log file of the debug
  mode is closed on every normal return; and no connection of the listing client stays open.\<close>

theorem socat_gate:
  assumes "socat_main xe se c st = (x, evs, c1, st1)" and "np_conn c = None"
  shows "(\<forall>p. Bridged p \<in> set evs \<longrightarrow> p = sshAgentPipe \<and> Settings_Load (se\<lparr>sv_AppName := getExeName\<rparr>) st = (None, st1) \<and>
      (sd_NamedPipeAgent (so_data st1) \<or> sd_ProxyModeOfNamedPipe (so_data st1))) \<and>
    (x = Returns \<longrightarrow> Bridged sshAgentPipe \<in> set evs \<or> st1 = st) \<and>
    (x = Returns \<longrightarrow> (\<forall>p. OpenedLog p \<in> set evs \<longrightarrow> ClosedLog p \<in> set evs)) \<and> np_conn c1 = None"
proof (cases "xe_process xe")
  case (Inl e)
  then show ?thesis using assms by (auto simp: socat_main_def)
next
  case (Inr s0)
  define s where "s = socat_flags xe s0"
  show ?thesis
  proof (cases "socat_log xe s")
    case (Inl y)
    then have "y \<noteq> Returns" by (auto simp: socat_log_def Let_def split: if_splits sum.splits option.splits)
    then show ?thesis using assms Inl \<open>xe_process xe = Inr s0\<close> by (auto simp: socat_main_def Let_def simp flip: s_def)
  next
    case (Inr lp)
    obtain m mevs mc mst where m: "socat_mode xe se s c st = (m, mevs, mc, mst)" by (metis prod_cases4)
    have r: "x = m" "c1 = mc" "st1 = mst"
      "evs = (case lp of None \<Rightarrow> mevs | Some p \<Rightarrow> [OpenedLog p] @ mevs @ (if m = Returns then [ClosedLog p] else []))"
      using assms(1) \<open>xe_process xe = Inr s0\<close> Inr m by (auto simp: socat_main_def Let_def simp flip: s_def split: option.splits)
    from m show ?thesis
    proof (cases rule: socat_mode_cases)
      case listed
      then show ?thesis using r assms(2) listMode_idle [OF assms(2), of xe] listMode_prints [of _ xe c]
        by (auto split: option.splits)
    next
      case refused
      then show ?thesis using r assms(2) by (auto split: option.splits)
    next
      case bridged
      have "Bridged p \<in> set evs \<Longrightarrow> p = sshAgentPipe" for p
        using bridged(5) r(4) by (cases lp) (auto split: if_splits)
      moreover have "x = Returns \<Longrightarrow> Bridged sshAgentPipe \<in> set evs"
        using bridged(6) r(1,4) by (cases lp) auto
      moreover have "x = Returns \<Longrightarrow> OpenedLog p \<in> set evs \<Longrightarrow> ClosedLog p \<in> set evs" for p
        using bridged(5) r(1,4) by (cases lp) auto
      moreover have "Settings_Load (se\<lparr>sv_AppName := getExeName\<rparr>) st = (None, st1)" "np_conn c1 = None"
        using bridged(1,3) r(2,3) assms(2) by simp_all
      ultimately show ?thesis using bridged(4) r(3) by blast
    qed
  qed
qed

definition sample_socat_env :: "nat socat_env" where
  "sample_socat_env =
     \<lparr>xe_process = Inr \<lparr>sp_Debug = False, sp_LogFile = ''omni-socat.log'', sp_List = False\<rparr>, xe_debug = Some True, xe_l = None,
      xe_fp = sample_fp, xe_home = Inr ''home'', xe_openLog = (\<lambda>_. None), xe_dial = (\<lambda>_. None), xe_end = OutEnded None,
      xe_listDial = (\<lambda>_. None), xe_agent = counting_agent, xe_keyString = (\<lambda>_. '''')\<rparr>"

definition sample_pipe_client :: "nat pipe_client" where
  "sample_pipe_client = \<lparr>np_conn = None, np_dials = 0, np_remote = 0, np_closed = []\<rparr>"

theorem socat_gate_witness:
  "\<exists>evs c1 st1. socat_main sample_socat_env sample_store_env sample_pipe_client sample_store = (Returns, evs, c1, st1) \<and>
     Bridged sshAgentPipe \<in> set evs \<and> np_conn c1 = None"
proof -
  obtain x evs c1 st1 where m: "socat_main sample_socat_env sample_store_env sample_pipe_client sample_store = (x, evs, c1, st1)"
    by (metis prod_cases4)
  obtain st0 where "Settings_Load (sample_store_env\<lparr>sv_AppName := getExeName\<rparr>) sample_store = (None, st0)"
      "so_data st0 = initSetting sample_store_env"
    by (simp add: sample_store_env_def sample_store_def sample_data_def Settings_Load_def Settings_Save_def UserConfigDir_def Let_def
        os_ReadFile_def os_WriteFile_def os_Write_def os_plain_def fault_of_def record_call_def initSetting_def)
  moreover have "sd_NamedPipeAgent (initSetting sample_store_env)" "\<not> sd_DebugLog (initSetting sample_store_env)"
    by (simp_all add: initSetting_def Let_def)
  moreover have "sd_DebugLog (so_data sample_store)" by (simp add: sample_store_def sample_data_def)
  ultimately have "x = Returns" "st1 \<noteq> sample_store"
    using m by (auto simp: socat_main_def socat_flags_def socat_log_def socat_mode_def socat_proxy_def sample_socat_env_def
        stdin_Proxy_def Let_def)
  then show ?thesis using socat_gate [OF m] m by (auto simp: sample_pipe_client_def)
qed

end
