(* ===== verification/Legacy_Shell.thy ===== *)
theory Legacy_Shell
  imports Legacy_Loops Legacy_Tools
begin

text \<open>
  The shell of the previous program: \<^verbatim>\<open>main\<close> (src/old/main.go), and \<^verbatim>\<open>startup\<close> and \<^verbatim>\<open>shutdown\<close> of src/old/app.go with the goroutines
  they start and wait for.  The Wails runtime calls \<^verbatim>\<open>startup\<close>, and \<^verbatim>\<open>shutdown\<close> after \<^verbatim>\<open>startup\<close> has returned.
\<close>

section \<open>main.go\<close>

text \<open>
  \<open>wails\<close> is the Wails runtime: the error it returns, given whether the window starts hidden and the directory of the web view.
\<close>

record old_env =
  sx_running :: "bytes result outcome"
  sx_args0 :: string
  sx_fp :: filepath_ops
  sx_cacheDir :: "string result"
  sx_wails :: "bool \<Rightarrow> string \<Rightarrow> goerr option"

datatype main_end = MainExit0 | MainFatal string | MainReturned bool

definition legacy_getExeName :: "old_env \<Rightarrow> string" where
  "legacy_getExeName sx = fp_Base (sx_fp sx) (sx_args0 sx)"

text \<open>\<open>MainReturned\<close> says whether \<^verbatim>\<open>Quit\<close> was called because the runtime failed.\<close>

definition legacy_main :: "old_env \<Rightarrow> store_env \<Rightarrow> store_state \<Rightarrow> main_end \<times> (bool \<times> string) option \<times> store_state" where
  "legacy_main sx se st =
     (if checkAlreadyRunning (sx_running sx) then (MainExit0, None, st)
      else
        (case Settings_Load (se\<lparr>sv_AppName := legacy_getExeName sx\<rparr>) st of
           (Some e, st1) \<Rightarrow> (MainFatal (err_text e), None, st1)
         | (None, st1) \<Rightarrow>
             (let userCacheDir = (case sx_cacheDir sx of Inl _ \<Rightarrow> '''' | Inr d \<Rightarrow> fp_Join (sx_fp sx) [d, legacy_getExeName sx]);
                  hidden = sd_StartHidden (so_data st1) in
              (MainReturned (sx_wails sx hidden userCacheDir \<noteq> None), Some (hidden, userCacheDir), st1))))"

section \<open>app.go: startup and shutdown\<close>

text \<open>
  Where \<^verbatim>\<open>startup\<close> is: before it starts the tray's goroutine, before it makes the key ring, starting the agents, returned.  The tray's
  goroutine: making its window; the window made, \<^verbatim>\<open>onReady\<close> to run; in its loop; ended, \<^verbatim>\<open>onExit\<close> run; or ended by a panic before
  \<^verbatim>\<open>onExit\<close> was deferred.
\<close>

datatype start_pc = StTray | StRing | StAgents "(string \<times> string) list" | StDone

datatype tray_pc = TrNone | TrMaking | TrReady | TrLoop | TrGone | TrPanicked

datatype stop_pc = ShIdle | ShCancelled | ShWaiting | ShDone

datatype tray_msg = MClose | MQuit | MOther

text \<open>\<open>sl_lost\<close>: the message that closes the window was posted before there was one.  \<open>sl_agents\<close> are the agents that run.\<close>

record shell =
  sl_start :: start_pc
  sl_tray :: tray_pc
  sl_queue :: "tray_msg list"
  sl_agents :: "(string \<times> string) list"
  sl_cancelled :: bool
  sl_wg :: nat
  sl_stop :: stop_pc
  sl_lost :: bool

definition shell_begin :: shell where
  "shell_begin =
     \<lparr>sl_start = StTray, sl_tray = TrNone, sl_queue = [], sl_agents = [], sl_cancelled = False, sl_wg = 0, sl_stop = ShIdle,
      sl_lost = False\<rparr>"

text \<open>
  The steps of \<^verbatim>\<open>startup\<close> and of what happens around the program: an agent may fail at any time, messages may come, the
  runtime may call \<^verbatim>\<open>shutdown\<close>, a command of the tray's queue may panic.  \<^verbatim>\<open>onReady\<close> uses the key ring, a nil pointer at first.
\<close>

inductive shell_env_step :: "SaveData \<Rightarrow> shell \<Rightarrow> shell \<Rightarrow> bool" for d where
  go_tray: "sl_start s = StTray \<Longrightarrow> shell_env_step d s (s\<lparr>sl_start := StRing, sl_tray := TrMaking, sl_wg := Suc (sl_wg s)\<rparr>)"
| make_ring: "sl_start s = StRing \<Longrightarrow> shell_env_step d s (s\<lparr>sl_start := StAgents (startup_agents d)\<rparr>)"
| go_agent: "sl_start s = StAgents (a # as) \<Longrightarrow>
    shell_env_step d s (s\<lparr>sl_start := StAgents as, sl_agents := sl_agents s @ [a], sl_wg := Suc (sl_wg s)\<rparr>)"
| started: "sl_start s = StAgents [] \<Longrightarrow> shell_env_step d s (s\<lparr>sl_start := StDone\<rparr>)"
| message: "sl_tray s \<in> {TrReady, TrLoop} \<Longrightarrow> shell_env_step d s (s\<lparr>sl_queue := sl_queue s @ [MOther]\<rparr>)"
| agent_fails: "sl_agents s = xs @ a # ys \<Longrightarrow> shell_env_step d s (s\<lparr>sl_agents := xs @ ys, sl_wg := sl_wg s - 1\<rparr>)"
| shutdown: "sl_start s = StDone \<Longrightarrow> sl_stop s = ShIdle \<Longrightarrow>
    shell_env_step d s (s\<lparr>sl_stop := ShCancelled, sl_cancelled := True\<rparr>)"
| loop_panics: "sl_tray s = TrLoop \<Longrightarrow> shell_env_step d s (s\<lparr>sl_tray := TrGone, sl_wg := sl_wg s - 1\<rparr>)"
| window_early: "sl_start s \<noteq> StDone \<Longrightarrow> sl_tray s = TrMaking \<Longrightarrow> shell_env_step d s (s\<lparr>sl_tray := TrReady\<rparr>)"
| ready_panics: "sl_start s = StRing \<Longrightarrow> sl_tray s = TrReady \<Longrightarrow> shell_env_step d s (s\<lparr>sl_tray := TrPanicked\<rparr>)"

text \<open>
  The steps the program can always take: the tray's thread handles its messages (\<^verbatim>\<open>WM_CLOSE\<close> destroys the window, which posts
  \<^verbatim>\<open>WM_QUIT\<close>), a cancelled agent returns, \<^verbatim>\<open>shutdown\<close> goes on.
\<close>

inductive shell_step :: "shell \<Rightarrow> shell \<Rightarrow> bool" where
  window: "sl_tray s = TrMaking \<Longrightarrow> sl_start s = StDone \<Longrightarrow> shell_step s (s\<lparr>sl_tray := TrReady\<rparr>)"
| ready: "sl_tray s = TrReady \<Longrightarrow> sl_start s \<notin> {StTray, StRing} \<Longrightarrow> shell_step s (s\<lparr>sl_tray := TrLoop\<rparr>)"
| handle_other: "sl_tray s = TrLoop \<Longrightarrow> sl_queue s = MOther # q \<Longrightarrow> shell_step s (s\<lparr>sl_queue := q\<rparr>)"
| handle_close: "sl_tray s = TrLoop \<Longrightarrow> sl_queue s = MClose # q \<Longrightarrow> shell_step s (s\<lparr>sl_queue := q @ [MQuit]\<rparr>)"
| handle_quit: "sl_tray s = TrLoop \<Longrightarrow> sl_queue s = MQuit # q \<Longrightarrow>
    shell_step s (s\<lparr>sl_queue := q, sl_tray := TrGone, sl_wg := sl_wg s - 1\<rparr>)"
| agent_ends: "sl_cancelled s \<Longrightarrow> sl_agents s = a # as \<Longrightarrow> shell_step s (s\<lparr>sl_agents := as, sl_wg := sl_wg s - 1\<rparr>)"
| post_close: "sl_stop s = ShCancelled \<Longrightarrow> sl_tray s \<in> {TrReady, TrLoop} \<Longrightarrow>
    shell_step s (s\<lparr>sl_stop := ShWaiting, sl_queue := sl_queue s @ [MClose]\<rparr>)"
| post_gone: "sl_stop s = ShCancelled \<Longrightarrow> sl_tray s \<notin> {TrReady, TrLoop} \<Longrightarrow>
    shell_step s (s\<lparr>sl_stop := ShWaiting, sl_lost := (sl_tray s \<noteq> TrGone)\<rparr>)"
| waited: "sl_stop s = ShWaiting \<Longrightarrow> sl_wg s = 0 \<Longrightarrow> shell_step s (s\<lparr>sl_stop := ShDone\<rparr>)"

inductive shell_reach :: "SaveData \<Rightarrow> shell \<Rightarrow> bool" for d where
  begin_shell: "shell_reach d shell_begin"
| own: "shell_reach d s \<Longrightarrow> shell_step s s1 \<Longrightarrow> shell_reach d s1"
| around: "shell_reach d s \<Longrightarrow> shell_env_step d s s1 \<Longrightarrow> shell_reach d s1"

section \<open>Lemmas\<close>

definition tray_counts :: "tray_pc \<Rightarrow> nat" where
  "tray_counts t = (if t \<in> {TrNone, TrGone} then 0 else 1)"

text \<open>
  The wait group counts what runs; \<^verbatim>\<open>shutdown\<close> comes after \<^verbatim>\<open>startup\<close>; a tray that \<^verbatim>\<open>shutdown\<close> waits for has its last messages
  to come, unless the message was lost.
\<close>

definition shell_inv :: "shell \<Rightarrow> bool" where
  "shell_inv s \<longleftrightarrow>
     sl_wg s = tray_counts (sl_tray s) + length (sl_agents s) \<and>
     (sl_start s = StTray \<longleftrightarrow> sl_tray s = TrNone) \<and>
     (sl_stop s \<noteq> ShIdle \<longrightarrow> sl_cancelled s \<and> sl_start s = StDone) \<and>
     (sl_start s = StRing \<longrightarrow> sl_tray s \<in> {TrMaking, TrReady, TrPanicked}) \<and>
     (sl_stop s \<in> {ShWaiting, ShDone} \<and> \<not> sl_lost s \<and> sl_tray s \<in> {TrReady, TrLoop} \<longrightarrow>
        MClose \<in> set (sl_queue s) \<or> MQuit \<in> set (sl_queue s)) \<and>
     (sl_stop s \<in> {ShWaiting, ShDone} \<and> \<not> sl_lost s \<longrightarrow> sl_tray s \<in> {TrReady, TrLoop, TrGone})"

lemmas shell_defs = shell_inv_def tray_counts_def

lemma shell_begin_inv: "shell_inv shell_begin"
  by (simp add: shell_defs shell_begin_def)

lemma shell_env_inv: "shell_env_step d s s1 \<Longrightarrow> shell_inv s \<Longrightarrow> shell_inv s1"
  by (induction rule: shell_env_step.induct) (auto simp: shell_defs)

lemma shell_step_inv: "shell_step s s1 \<Longrightarrow> shell_inv s \<Longrightarrow> shell_inv s1"
  by (induction rule: shell_step.induct) (auto simp: shell_defs)

definition done_waited :: "shell \<Rightarrow> bool" where
  "done_waited s \<longleftrightarrow> (sl_stop s = ShDone \<longrightarrow> sl_start s = StDone \<and> sl_wg s = 0)"

lemma shell_env_done: "shell_env_step d s s1 \<Longrightarrow> done_waited s \<Longrightarrow> done_waited s1"
  by (induction rule: shell_env_step.induct) (auto simp: done_waited_def)

lemma shell_step_done: "shell_step s s1 \<Longrightarrow> shell_inv s \<Longrightarrow> done_waited s \<Longrightarrow> done_waited s1"
  by (induction rule: shell_step.induct) (simp_all add: done_waited_def shell_inv_def)

lemma shell_reach_inv: "shell_reach d s \<Longrightarrow> shell_inv s"
  by (induction rule: shell_reach.induct) (auto intro: shell_begin_inv shell_env_inv shell_step_inv)

lemma shell_reach_done: "shell_reach d s \<Longrightarrow> done_waited s"
proof (induction rule: shell_reach.induct)
  case begin_shell
  show ?case by (simp add: done_waited_def shell_begin_def)
next
  case (own s s1)
  then show ?case using shell_step_done shell_reach_inv by blast
next
  case (around s s1)
  then show ?case using shell_env_done by blast
qed


fun msg_work :: "tray_msg \<Rightarrow> nat" where
  "msg_work MClose = 3"
| "msg_work _ = 1"

definition shell_work :: "shell \<Rightarrow> nat" where
  "shell_work s =
     (case sl_tray s of TrMaking \<Rightarrow> 2 | TrReady \<Rightarrow> 1 | _ \<Rightarrow> 0) + sum_list (map msg_work (sl_queue s)) + length (sl_agents s) +
     (case sl_stop s of ShCancelled \<Rightarrow> 5 | ShWaiting \<Rightarrow> 1 | _ \<Rightarrow> 0)"

lemma shell_step_work: "shell_step s s1 \<Longrightarrow> shell_work s1 < shell_work s"
  by (induction rule: shell_step.induct) (auto simp: shell_work_def)

text \<open>A shutdown that finds the tray's window, or finds it gone.\<close>

definition closable :: "shell \<Rightarrow> bool" where
  "closable s \<longleftrightarrow> sl_stop s \<noteq> ShIdle \<and> \<not> sl_lost s \<and> sl_tray s \<in> {TrReady, TrLoop, TrGone}"

lemma closable_step: "shell_step s s1 \<Longrightarrow> closable s \<Longrightarrow> closable s1"
  by (induction rule: shell_step.induct) (auto simp: closable_def)

lemma closable_progress:
  assumes "shell_inv s" and "closable s" and "sl_stop s \<noteq> ShDone"
  shows "\<exists>s1. shell_step s s1"
proof (cases "sl_stop s")
  case ShCancelled
  then show ?thesis using shell_step.post_close shell_step.post_gone by blast
next
  case ShWaiting
  have c: "sl_cancelled s" "sl_start s = StDone" using assms by (auto simp: shell_inv_def closable_def)
  show ?thesis
  proof (cases "sl_agents s")
    case (Cons a as)
    then show ?thesis using c shell_step.agent_ends by blast
  next
    case Nil
    consider "sl_tray s = TrReady" | "sl_tray s = TrLoop" | "sl_tray s = TrGone" using assms(2) by (auto simp: closable_def)
    then show ?thesis
    proof cases
      case 1
      then have "shell_step s (s\<lparr>sl_tray := TrLoop\<rparr>)" using c by (intro shell_step.ready) simp_all
      then show ?thesis by blast
    next
      case 2
      then have "MClose \<in> set (sl_queue s) \<or> MQuit \<in> set (sl_queue s)"
        using assms ShWaiting by (simp add: shell_inv_def closable_def)
      then obtain m q where "sl_queue s = m # q" by (cases "sl_queue s") auto
      with 2 show ?thesis
        by (cases m) (auto intro: shell_step.handle_close shell_step.handle_quit shell_step.handle_other)
    next
      case 3
      then have "sl_wg s = 0" using assms(1) Nil by (simp add: shell_defs)
      with ShWaiting have "shell_step s (s\<lparr>sl_stop := ShDone\<rparr>)" by (intro shell_step.waited)
      then show ?thesis by blast
    qed
  qed
qed (use assms in \<open>simp_all add: closable_def\<close>)

section \<open>Properties\<close>


definition no_agents :: SaveData where
  "no_agents = sample_data\<lparr>sd_PageantAgent := False, sd_NamedPipeAgent := False, sd_UnixSocketAgent := False, sd_CygWinAgent := False\<rparr>"

text \<open>Three runs: the tray is ready when \<^verbatim>\<open>shutdown\<close> is called, it is not, and it panicked.\<close>

definition shell_at :: "start_pc \<Rightarrow> tray_pc \<Rightarrow> stop_pc \<Rightarrow> bool \<Rightarrow> shell" where
  "shell_at st tr sp lost =
     \<lparr>sl_start = st, sl_tray = tr, sl_queue = [], sl_agents = [], sl_cancelled = (sp \<noteq> ShIdle), sl_wg = 1, sl_stop = sp, sl_lost = lost\<rparr>"

lemma shell_started: "shell_reach no_agents (shell_at StRing TrMaking ShIdle False)"
  using shell_reach.around [OF shell_reach.begin_shell, OF shell_env_step.go_tray]
  by (simp add: shell_begin_def shell_at_def)

lemma shell_to_done:
  assumes "shell_reach no_agents (shell_at StRing tr ShIdle False)"
  shows "shell_reach no_agents (shell_at StDone tr ShIdle False)"
    and "shell_reach no_agents (shell_at StDone tr ShCancelled False)"
proof -
  have a: "startup_agents no_agents = []" by (simp add: startup_agents_def no_agents_def)
  have "shell_env_step no_agents (shell_at StRing tr ShIdle False) (shell_at (StAgents []) tr ShIdle False)"
    using shell_env_step.make_ring [of "shell_at StRing tr ShIdle False" no_agents] a by (simp add: shell_at_def)
  moreover have "shell_env_step no_agents (shell_at (StAgents []) tr ShIdle False) (shell_at StDone tr ShIdle False)"
    using shell_env_step.started [of "shell_at (StAgents []) tr ShIdle False"] by (simp add: shell_at_def)
  ultimately show d: "shell_reach no_agents (shell_at StDone tr ShIdle False)"
    using assms shell_reach.around by meson
  have "shell_env_step no_agents (shell_at StDone tr ShIdle False) (shell_at StDone tr ShCancelled False)"
    using shell_env_step.shutdown [of "shell_at StDone tr ShIdle False"] by (simp add: shell_at_def)
  with d show "shell_reach no_agents (shell_at StDone tr ShCancelled False)" by (rule shell_reach.around)
qed


lemma shell_step_enabled:
  "shell_step s s1 \<Longrightarrow> sl_tray s = TrMaking \<or> sl_tray s = TrReady \<or> sl_tray s = TrLoop \<and> sl_queue s \<noteq> [] \<or> sl_agents s \<noteq> [] \<or>
     sl_stop s = ShCancelled \<or> sl_wg s = 0"
  by (induction rule: shell_step.induct) simp_all


text \<open>A second instance changes nothing: the program that finds another running exits before it loads the settings.\<close>

lemma legacy_second_instance:
  "checkAlreadyRunning (sx_running sx) \<Longrightarrow> legacy_main sx se st = (MainExit0, None, st)"
  by (simp add: legacy_main_def)

text \<open>The web view keeps its data beside the settings' name, and the window starts as the settings say.\<close>

lemma legacy_main_view:
  assumes "legacy_main sx se st = (x, Some (hidden, dir), st1)"
  shows "Settings_Load (se\<lparr>sv_AppName := legacy_getExeName sx\<rparr>) st = (None, st1) \<and> hidden = sd_StartHidden (so_data st1) \<and>
    (x = MainReturned True \<longleftrightarrow> sx_wails sx hidden dir \<noteq> None)"
proof -
  obtain r st0 where l: "Settings_Load (se\<lparr>sv_AppName := legacy_getExeName sx\<rparr>) st = (r, st0)" by fastforce
  show ?thesis using assms by (auto simp: legacy_main_def l Let_def split: if_splits option.splits)
qed

end
