(* ===== verification/Legacy_App.thy ===== *)
theory Legacy_App
  imports Legacy_Shell
begin

text \<open>
  The application object of the previous program (src/old/app.go): the methods its window calls, the clicks of its menu and the
  notices of its key ring, as operations on one state, made of the key ring with its settings, the tray and the log.  The Wails runtime is
  called, and recorded; what its dialogs answer is a parameter.  The window's calls, the clicks and the notices come one after the other
  here; each runs in a goroutine of its own in the program.

  The abstract specification of the settings is \<open>pref_call\<close>: what each operation means for the preferences in memory, the keys apart.
\<close>

section \<open>app.go\<close>

datatype wails_call = WailsOpenFile string | WailsMessage | WailsShow | WailsQuit | WailsEmit string

text \<open>\<open>la_ui\<close> holds the state of \<^verbatim>\<open>Logger\<close> and the two menu items, \<open>la_logOpen\<close> that the logger has not been closed.\<close>

record 's legacy_app =
  la_keys :: "'s keyring_state"
  la_ui :: app_ui
  la_tray :: TrayIcon
  la_runtime :: "wails_call list"
  la_logOpen :: bool

definition NewApp :: "'s keyring_state \<Rightarrow> app_ui \<Rightarrow> TrayIcon \<Rightarrow> 's legacy_app" where
  "NewApp keys ui ti = \<lparr>la_keys = keys, la_ui = ui, la_tray = ti, la_runtime = [], la_logOpen = True\<rparr>"

definition wails :: "wails_call \<Rightarrow> 's legacy_app \<Rightarrow> 's legacy_app" where
  "wails c a = a\<lparr>la_runtime := la_runtime a @ [c]\<rparr>"

definition app_systrayOnExit :: "'s legacy_app \<Rightarrow> 's legacy_app" where
  "app_systrayOnExit a = a\<lparr>la_logOpen := False\<rparr>"

definition app_OpenFile :: "string result \<Rightarrow> 's legacy_app \<Rightarrow> string result \<times> 's legacy_app" where
  "app_OpenFile answer a = (answer, wails (WailsOpenFile ''Select a private key file'') a)"

definition app_domReady :: "'s legacy_app \<Rightarrow> 's legacy_app" where
  "app_domReady a = a"

definition app_Greet :: "string \<Rightarrow> string" where
  "app_Greet name = ''Hello '' @ name @ ''!''"

definition app_showWindow :: "'s legacy_app \<Rightarrow> 's legacy_app" where
  "app_showWindow a = wails WailsShow a"

definition app_Quit :: "'s legacy_app \<Rightarrow> 's legacy_app" where
  "app_Quit a = wails WailsQuit a"

definition app_KeyList :: "'s keyring_env \<Rightarrow> 's legacy_app \<Rightarrow> PrivateKeyFile list result \<times> 's legacy_app" where
  "app_KeyList kv a = (case KeyList kv (la_keys a) of (r, s) \<Rightarrow> (r, a\<lparr>la_keys := s\<rparr>))"

definition app_CheckKeyType :: "'s keyring_env \<Rightarrow> string \<Rightarrow> string \<Rightarrow> 's legacy_app \<Rightarrow> PrivateKeyFile result \<times> 's legacy_app" where
  "app_CheckKeyType kv path passphrase a =
     (let st = kr_store (la_keys a) in
      case CheckKeyType (kv_keys kv) (sv_os (kv_store kv)) path passphrase (so_os st) of
        (r, w) \<Rightarrow> (r, a\<lparr>la_keys := (la_keys a)\<lparr>kr_store := st\<lparr>so_os := w\<rparr>\<rparr>\<rparr>))"

definition app_GetSettings :: "'s legacy_app \<Rightarrow> SaveData" where
  "app_GetSettings a = so_data (kr_store (la_keys a))"

definition set_data :: "(SaveData \<Rightarrow> SaveData) \<Rightarrow> 's legacy_app \<Rightarrow> 's legacy_app" where
  "set_data f a =
     a\<lparr>la_keys := (la_keys a)\<lparr>kr_store := (kr_store (la_keys a))\<lparr>so_data := f (so_data (kr_store (la_keys a)))\<rparr>\<rparr>\<rparr>"

text \<open>\<^verbatim>\<open>setDebugLogEnabled\<close> with the settings it writes to; \<open>None\<close> blocks on the tray's full queue.\<close>

definition app_setDebug :: "bool \<Rightarrow> 's legacy_app \<Rightarrow> 's legacy_app option" where
  "app_setDebug enabled a =
     map_option (\<lambda>(ui, ti). set_data (\<lambda>d. d\<lparr>sd_DebugLog := enabled\<rparr>) (a\<lparr>la_ui := ui, la_tray := ti\<rparr>))
       (setDebugLogEnabled enabled (la_ui a) (la_tray a))"

definition app_SaveSettings :: "'s keyring_env \<Rightarrow> SaveData \<Rightarrow> 's legacy_app \<Rightarrow> (goerr option \<times> 's legacy_app) option" where
  "app_SaveSettings kv d a =
     map_option (\<lambda>a1. case app_Save (kv_store kv) d (kr_store (la_keys a1)) of
         (r, st) \<Rightarrow> (r, a1\<lparr>la_keys := (la_keys a1)\<lparr>kr_store := st\<rparr>\<rparr>))
       (app_setDebug (sd_DebugLog d) a)"

text \<open>\<^verbatim>\<open>notice\<close> and what it calls: \<open>used\<close> is the key of a signing, if it is an \<^verbatim>\<open>*agent.Key\<close>.\<close>

definition wintray_ID :: string where "wintray_ID = ''OmniSSHAgent''"

definition app_noticed :: "'s keyring_env \<Rightarrow> string \<Rightarrow> PublicKey option \<Rightarrow> 's legacy_app \<Rightarrow> 's legacy_app option" where
  "app_noticed kv action used a =
     (case app_notice action (used \<noteq> None) of
        EmitLoadKeys \<Rightarrow> Some (wails (WailsEmit ''LoadKeysEvent'') a)
      | UpdateTooltip \<Rightarrow>
          (case app_KeyList kv a of (r, a1) \<Rightarrow>
             map_option (\<lambda>ti. a1\<lparr>la_tray := ti\<rparr>) (setTrayTooltip (rbind r (\<lambda>ks. Inr (length ks))) (la_tray a1)))
      | NotifySign \<Rightarrow>
          (case used of
             None \<Rightarrow> Some a
           | Some pub \<Rightarrow>
               (case onSign kv pub (la_keys a) of (r, s) \<Rightarrow>
                 (let a1 = a\<lparr>la_keys := s\<rparr> in
                  case r of
                    Inr (Some msg) \<Rightarrow> map_option (\<lambda>ti. a1\<lparr>la_tray := ti\<rparr>) (ShowBalloonNotification wintray_ID msg (la_tray a1))
                  | _ \<Rightarrow> Some a1)))
      | NoNotice \<Rightarrow> Some a)"

section \<open>One operation after another\<close>

datatype view_call =
    CallAddLocalFile PrivateKeyFile
  | CallDeleteKey "string result" string
  | CallKeyList
  | CallCheckKeyType string string
  | CallSave SaveData
  | CallOpenFile "string result"
  | CallShow
  | CallQuit
  | CallDebug bool
  | CallNotice string "PublicKey option"

definition keys_outcome :: "'s legacy_app \<Rightarrow> goerr option outcome \<times> 's keyring_state \<Rightarrow> (unit outcome \<times> 's legacy_app) option" where
  "keys_outcome a x =
     Some (case fst x of Returned _ \<Rightarrow> Returned () | Panicked m \<Rightarrow> Panicked m, a\<lparr>la_keys := snd x\<rparr>)"

text \<open>\<open>None\<close> is an operation that waits for room in the tray's queue.\<close>

fun app_call :: "'s keyring_env \<Rightarrow> view_call \<Rightarrow> 's legacy_app \<Rightarrow> (unit outcome \<times> 's legacy_app) option" where
  "app_call kv (CallAddLocalFile pk) a = keys_outcome a (AddLocalFile kv pk (la_keys a))"
| "app_call kv (CallDeleteKey answer sha) a =
     (let a1 = wails WailsMessage a in keys_outcome a1 (DeleteKey kv answer sha (la_keys a1)))"
| "app_call kv CallKeyList a = Some (Returned (), snd (app_KeyList kv a))"
| "app_call kv (CallCheckKeyType path passphrase) a = Some (Returned (), snd (app_CheckKeyType kv path passphrase a))"
| "app_call kv (CallSave d) a = map_option (\<lambda>x. (Returned (), snd x)) (app_SaveSettings kv d a)"
| "app_call kv (CallOpenFile answer) a = Some (Returned (), snd (app_OpenFile answer a))"
| "app_call kv CallShow a = Some (Returned (), app_showWindow a)"
| "app_call kv CallQuit a = Some (Returned (), app_Quit a)"
| "app_call kv (CallDebug e) a = map_option (Pair (Returned ())) (app_setDebug e a)"
| "app_call kv (CallNotice action used) a = map_option (Pair (Returned ())) (app_noticed kv action used a)"

text \<open>A panic ends the sequence.\<close>

fun app_calls :: "'s keyring_env \<Rightarrow> view_call list \<Rightarrow> 's legacy_app \<Rightarrow> (unit outcome \<times> 's legacy_app) option" where
  "app_calls kv [] a = Some (Returned (), a)"
| "app_calls kv (c # cs) a =
     (case app_call kv c a of
        Some (Returned _, a1) \<Rightarrow> app_calls kv cs a1
      | r \<Rightarrow> r)"

section \<open>The preferences\<close>

definition keyless :: "SaveData \<Rightarrow> SaveData" where
  "keyless d = d\<lparr>sd_Keys := []\<rparr>"

text \<open>What an operation means for the preferences.\<close>

fun pref_call :: "view_call \<Rightarrow> SaveData \<Rightarrow> SaveData" where
  "pref_call (CallSave d) p = keyless d"
| "pref_call (CallDebug e) p = p\<lparr>sd_DebugLog := e\<rparr>"
| "pref_call _ p = p"

definition prefs :: "'s keyring_state \<Rightarrow> SaveData" where
  "prefs s = keyless (so_data (kr_store s))"

text \<open>The log is on exactly when the settings say so.\<close>

definition log_agrees :: "'s legacy_app \<Rightarrow> bool" where
  "log_agrees a \<longleftrightarrow> ui_logEnabled (la_ui a) = sd_DebugLog (app_GetSettings a) \<and> ui_DebugLog (la_ui a) = sd_DebugLog (app_GetSettings a)"


section \<open>Lemmas\<close>

lemma prefs_store: "kr_store s1 = kr_store s \<Longrightarrow> prefs s1 = prefs s"
  by (simp add: prefs_def)

lemma prefs_data: "so_data st = so_data (kr_store s) \<Longrightarrow> prefs (s\<lparr>kr_store := st\<rparr>) = prefs s"
  by (simp add: prefs_def)

lemma prefs_set_keys [simp]: "prefs (set_keys ks s) = prefs s"
  by (simp add: prefs_def set_keys_def keyless_def)

lemma prefs_os: "prefs (s\<lparr>kr_store := (kr_store s)\<lparr>so_os := w\<rparr>\<rparr>) = prefs s"
  by (rule prefs_data) simp

lemma prefs_list: "listPublickeys kv s = (r, s1) \<Longrightarrow> prefs s1 = prefs s"
  by (rule prefs_store) (metis listPublickeys_store snd_conv)

lemma prefs_ring: "on_ring f s = (x, s1) \<Longrightarrow> prefs s1 = prefs s"
  by (rule prefs_store) (metis on_ring_store snd_conv)

lemma prefs_AddKeySettings: "prefs (snd (AddKeySettings kv key s)) = prefs s"
proof (cases "kv_uuid kv (kr_uuids s)")
  case (Inl e)
  then show ?thesis by (simp add: AddKeySettings_def prefs_def)
next
  case (Inr kid)
  let ?s0 = "s\<lparr>kr_uuids := Suc (kr_uuids s)\<rparr>"
  let ?s1 = "set_keys (stored_keys s @ [key\<lparr>pf_ID := kid, pf_Passphrase := ''''\<rparr>]) ?s0"
  obtain e st where a: "secret_Set (kv_store kv) kid (pf_Passphrase key) (kr_store ?s1) = (e, st)" by fastforce
  obtain e2 st2 where b: "Settings_Save (kv_store kv) st = (e2, st2)" by fastforce
  have d: "so_data st = so_data (kr_store ?s1)" "so_data st2 = so_data (kr_store ?s1)"
    using secret_data(1) [of "kv_store kv" kid "pf_Passphrase key" "kr_store ?s1"] Settings_Save_data [of "kv_store kv" st] a b by simp_all
  have "prefs ?s1 = prefs s" by (simp only: prefs_set_keys, simp add: prefs_def)
  then show ?thesis using Inr a b d prefs_data [of _ ?s1]
    by (cases e; cases e2) (auto simp: AddKeySettings_def Let_def)
qed

lemma prefs_AddKey: "prefs (snd (AddKey kv kid s)) = prefs s"
proof -
  obtain r s1 where l: "listPublickeys kv s = (r, s1)" by fastforce
  have "prefs s1 = prefs s" using prefs_list [OF l] .
  then show ?thesis
    by (auto simp: AddKey_def l Let_def prefs_os dest!: prefs_ring split: option.split sum.split prod.split)
qed

lemma prefs_AddLocalFile: "prefs (snd (AddLocalFile kv pk s)) = prefs s"
proof -
  let ?pk = "pk\<lparr>pf_Name := fp_Base (sv_fp (kv_store kv)) (pf_FilePath pk), pf_StoreType := LocalStore\<rparr>"
  obtain r s1 where "AddKeySettings kv ?pk s = (r, s1)" by fastforce
  moreover from this have "prefs s1 = prefs s" using prefs_AddKeySettings [of kv ?pk s] by simp
  ultimately show ?thesis by (simp add: AddLocalFile_def prefs_AddKey split: sum.split)
qed

lemma prefs_DeleteKeySettings: "prefs (snd (DeleteKeySettings kv sha s)) = prefs s"
proof -
  let ?s1 = "set_keys (filter (\<lambda>k. sk_SHA256 (pf_PublicKey k) \<noteq> sha) (stored_keys s)) s"
  let ?i = "last_id sha (stored_keys s) ''''"
  obtain e st where b: "Settings_Save (kv_store kv) (snd (secret_Remove (kv_store kv) ?i (kr_store ?s1))) = (e, st)" by fastforce
  have "so_data st = so_data (kr_store ?s1)"
    using Settings_Save_data [of "kv_store kv" "snd (secret_Remove (kv_store kv) ?i (kr_store ?s1))"] b by simp
  then have "prefs (?s1\<lparr>kr_store := st\<rparr>) = prefs s" using prefs_data [of st ?s1] by simp
  then show ?thesis using b by (simp add: DeleteKeySettings_def Let_def)
qed

lemma prefs_DeleteKey: "prefs (snd (DeleteKey kv answer sha s)) = prefs s"
proof -
  obtain r s1 where a: "RemoveKey kv sha s = (r, s1)" by fastforce
  then have "kr_store s1 = kr_store s" using RemoveKey_store by (metis snd_conv)
  then have "prefs s1 = prefs s" by (rule prefs_store)
  then show ?thesis using a by (simp add: DeleteKey_def prefs_DeleteKeySettings split: sum.split option.split)
qed

lemma prefs_KeyList: "prefs (snd (KeyList kv s)) = prefs s"
proof -
  obtain r s1 where l: "listPublickeys kv s = (r, s1)" by fastforce
  then show ?thesis using prefs_list [OF l] by (simp add: KeyList_def)
qed

lemma prefs_onSign: "prefs (snd (onSign kv pub s)) = prefs s"
proof -
  obtain r s1 where "KeyList kv s = (r, s1)" by fastforce
  moreover from this have "prefs s1 = prefs s" using prefs_KeyList [of kv s] by simp
  ultimately show ?thesis by (auto simp: onSign_def FindPrivKey_def Let_def split: sum.splits option.splits prod.splits)
qed

lemmas prefs_simps = prefs_AddLocalFile prefs_DeleteKey prefs_KeyList prefs_onSign prefs_os

text \<open>\<open>log_agrees\<close> speaks only of the preferences and the menu's state.\<close>

lemma log_agrees_prefs:
  "log_agrees a \<longleftrightarrow> ui_logEnabled (la_ui a) = sd_DebugLog (prefs (la_keys a)) \<and> ui_DebugLog (la_ui a) = sd_DebugLog (prefs (la_keys a))"
  by (simp add: log_agrees_def app_GetSettings_def prefs_def keyless_def)

lemma app_setDebug_state:
  assumes "app_setDebug e a = Some a1"
  shows "prefs (la_keys a1) = (prefs (la_keys a))\<lparr>sd_DebugLog := e\<rparr>" "ui_logEnabled (la_ui a1) = e" "ui_DebugLog (la_ui a1) = e"
  using assms by (auto simp: app_setDebug_def setDebugLogEnabled_def set_data_def prefs_def keyless_def Let_def)

lemma prefs_Save: "prefs (s\<lparr>kr_store := snd (app_Save se d (kr_store s))\<rparr>) = keyless d"
  by (simp add: app_Save_def prefs_def keyless_def)

lemma app_SaveSettings_state:
  assumes "app_SaveSettings kv d a = Some (r, a1)"
  shows "prefs (la_keys a1) = keyless d" "ui_logEnabled (la_ui a1) = sd_DebugLog d" "ui_DebugLog (la_ui a1) = sd_DebugLog d"
proof -
  obtain a0 where a0: "app_setDebug (sd_DebugLog d) a = Some a0"
    using assms by (cases "app_setDebug (sd_DebugLog d) a") (simp_all add: app_SaveSettings_def)
  then have a1: "a1 = a0\<lparr>la_keys := (la_keys a0)\<lparr>kr_store := snd (app_Save (kv_store kv) d (kr_store (la_keys a0)))\<rparr>\<rparr>"
    using assms by (auto simp: app_SaveSettings_def split_beta)
  show "prefs (la_keys a1) = keyless d" by (simp add: a1 prefs_Save)
  show "ui_logEnabled (la_ui a1) = sd_DebugLog d" "ui_DebugLog (la_ui a1) = sd_DebugLog d"
    using app_setDebug_state [OF a0] by (simp_all add: a1)
qed

lemma app_noticed_state:
  assumes "app_noticed kv action used a = Some a1"
  shows "prefs (la_keys a1) = prefs (la_keys a) \<and> la_ui a1 = la_ui a"
proof -
  obtain r s where k: "KeyList kv (la_keys a) = (r, s)" by fastforce
  then have "prefs s = prefs (la_keys a)" using prefs_KeyList [of kv "la_keys a"] by simp
  moreover have "prefs s1 = prefs (la_keys a)" if "onSign kv pub (la_keys a) = (x, s1)" for pub x s1
    using prefs_onSign [of kv pub "la_keys a"] that by simp
  ultimately show ?thesis using assms k
    by (auto simp: app_noticed_def app_KeyList_def wails_def Let_def split: notice_effect.splits option.splits sum.splits prod.splits)
qed


lemma app_KeyList_state [simp]:
  "prefs (la_keys (snd (app_KeyList kv a))) = prefs (la_keys a)" "la_ui (snd (app_KeyList kv a)) = la_ui a"
  using prefs_KeyList [of kv "la_keys a"] by (simp_all add: app_KeyList_def split_beta)

lemma app_CheckKeyType_state [simp]:
  "prefs (la_keys (snd (app_CheckKeyType kv path p a))) = prefs (la_keys a)" "la_ui (snd (app_CheckKeyType kv path p a)) = la_ui a"
  by (simp_all add: app_CheckKeyType_def Let_def split_beta prefs_os)

fun_cases saveE: "app_call kv (CallSave d) a = Some (r, a1)"
fun_cases debugE: "app_call kv (CallDebug e) a = Some (r, a1)"
fun_cases noticeE: "app_call kv (CallNotice action used) a = Some (r, a1)"

lemma app_call_state:
  assumes "app_call kv c a = Some (r, a1)"
  shows "prefs (la_keys a1) = pref_call c (prefs (la_keys a)) \<and> (log_agrees a \<longrightarrow> log_agrees a1)"
proof (cases c)
  case (CallSave d)
  then obtain r' where "app_SaveSettings kv d a = Some (r', a1)" using assms by (auto elim: saveE)
  from app_SaveSettings_state [OF this] show ?thesis by (simp add: CallSave log_agrees_prefs keyless_def)
next
  case (CallDebug e)
  then have "app_setDebug e a = Some a1" using assms by (auto elim: debugE)
  from app_setDebug_state [OF this] show ?thesis by (simp add: CallDebug log_agrees_prefs)
next
  case (CallNotice action used)
  then have "app_noticed kv action used a = Some a1" using assms by (auto elim: noticeE)
  from app_noticed_state [OF this] show ?thesis by (simp add: CallNotice log_agrees_prefs)
qed (use assms in \<open>auto simp: keys_outcome_def app_OpenFile_def app_showWindow_def app_Quit_def wails_def Let_def prefs_simps
  log_agrees_prefs\<close>)

lemma app_calls_state:
  "app_calls kv cs a = Some (r, a1) \<Longrightarrow>
     (r = Returned () \<longrightarrow> prefs (la_keys a1) = fold pref_call cs (prefs (la_keys a))) \<and> (log_agrees a \<longrightarrow> log_agrees a1)"
proof (induction cs arbitrary: a)
  case (Cons c cs)
  then obtain r2 a2 where c: "app_call kv c a = Some (r2, a2)" by (cases "app_call kv c a") (auto split: outcome.splits)
  note s = app_call_state [OF c]
  show ?case
  proof (cases r2)
    case (Returned u)
    then have "app_calls kv cs a2 = Some (r, a1)" using Cons.prems c by simp
    then show ?thesis using Cons.IH [of a2] s by auto
  next
    case (Panicked m)
    then show ?thesis using Cons.prems c s by auto
  qed
qed auto

section \<open>Properties\<close>

text \<open>C26 (legacy_settings_refine). The settings of the running program, in every sequence of calls of its window, clicks of its menu and
  notices of its key ring: the preferences are what the saves and the debug-log clicks among them amount to, in order, and no other
  operation touches them; and the log is on exactly when they say so.  This holds of the settings in memory whether or not a save
  reached the disk.\<close>

theorem legacy_settings_refine:
  assumes "app_calls kv cs a = Some (r, a1)" and "log_agrees a"
  shows "(r = Returned () \<longrightarrow> prefs (la_keys a1) = fold pref_call cs (prefs (la_keys a))) \<and> log_agrees a1"
  using app_calls_state [OF assms(1)] assms(2) by simp

definition sample_legacy_app :: "nat legacy_app" where
  "sample_legacy_app =
     NewApp sample_keyring \<lparr>ui_debugItem = None, ui_logDirItem = None, ui_logEnabled = sd_DebugLog sample_data, ui_DebugLog = sd_DebugLog sample_data\<rparr>
       NewTrayIcon"

theorem legacy_settings_refine_witness:
  "\<exists>a1. app_calls sample_keyring_env [CallDebug True, CallShow, CallSave (sample_data\<lparr>sd_DebugLog := True, sd_StartHidden := True\<rparr>)]
       sample_legacy_app = Some (Returned (), a1) \<and>
     prefs (la_keys a1) = keyless (sample_data\<lparr>sd_DebugLog := True, sd_StartHidden := True\<rparr>) \<and> ui_logEnabled (la_ui a1)"
proof -
  let ?cs = "[CallDebug True, CallShow, CallSave (sample_data\<lparr>sd_DebugLog := True, sd_StartHidden := True\<rparr>)]"
  obtain a1 where c: "app_calls sample_keyring_env ?cs sample_legacy_app = Some (Returned (), a1)"
    by (simp add: app_setDebug_def setDebugLogEnabled_def applyDebugLogMenuState_def sample_legacy_app_def NewApp_def
        app_SaveSettings_def app_showWindow_def wails_def set_data_def Let_def split_beta)
  have "log_agrees sample_legacy_app"
    by (simp add: log_agrees_def sample_legacy_app_def NewApp_def app_GetSettings_def sample_keyring_def sample_store_def)
  from legacy_settings_refine [OF c this] c show ?thesis by (auto simp: keyless_def log_agrees_prefs)
qed

text \<open>(legacy_toggle_not_saved). A click on the debug log changes the settings in memory and the log, and writes nothing.\<close>

theorem legacy_toggle_not_saved:
  assumes "app_setDebug e a = Some a1"
  shows "so_os (kr_store (la_keys a1)) = so_os (kr_store (la_keys a)) \<and> sd_DebugLog (app_GetSettings a1) = e"
  using assms by (auto simp: app_setDebug_def set_data_def app_GetSettings_def)

theorem legacy_toggle_not_saved_witness:
  "\<exists>a1. app_setDebug True sample_legacy_app = Some a1 \<and> so_os (kr_store (la_keys a1)) = so_os (kr_store (la_keys sample_legacy_app))"
proof -
  obtain a1 where s: "app_setDebug True sample_legacy_app = Some a1"
    by (simp add: app_setDebug_def setDebugLogEnabled_def applyDebugLogMenuState_def sample_legacy_app_def NewApp_def Let_def)
  with legacy_toggle_not_saved [OF s] show ?thesis by blast
qed

end
