(* ===== verification/Spec2Isabelle.thy ===== *)
theory Spec2Isabelle
  imports Main_Run Composition Test_Support Windows_Ui Legacy_Supervisor Legacy_Agents Legacy_App
begin

text \<open>
  OmniSSHAgent is an SSH agent for Windows written in Go.  It stands between SSH clients, which reach it over three interfaces, and a
  backend that holds the keys.  The repository has the present program (src/internal, src/cmd/omnisshagent) and the
  previous one (src/old), and this development models both.

  \<^bold>\<open>The present program.\<close>  \<^verbatim>\<open>run\<close> (src/cmd/omnisshagent/main_windows.go) parses the command line, takes the mutex
  of the single instance, starts the tray, loads the configuration, builds the backend and the interfaces and hands them to
  the application supervisor; the tray's menu and dialogs change the configuration and the backend's keys; shutdown goes back
  through the same parts.

    \<^item> \<^verbatim>\<open>Config\<close> (src/internal/config): schema, validation, defaults, toggles, and the replacement of the file by
      temporary file and rename.  \<open>Validate_accepts\<close> gives the accepted configurations in closed form, \<open>Validate_sound\<close> what
      the result satisfies, \<open>config_write_atomic\<close> that no state of the file system ever shows a partial file.
    \<^item> \<^verbatim>\<open>Backend\<close> (src/internal/backend): the client of the Windows OpenSSH agent, which dials for each request, and the
      embedded keyring.  The locale \<open>agent_refinement\<close> is the contract of an agent that stands for another; the client, the
      embedded keyring, the legacy key ring and the legacy pipe client interpret it.
    \<^item> \<^verbatim>\<open>Component\<close> (src/internal/interfaces/interface.go): readiness, accepting and serving; the locale \<open>ready_component\<close>, which
      \<^verbatim>\<open>Pageant\<close>, \<^verbatim>\<open>Cygwin\<close> and \<^verbatim>\<open>Openssh_Pipe\<close> interpret on their \<^verbatim>\<open>Start\<close>.
    \<^item> \<^verbatim>\<open>Pageant\<close>, \<^verbatim>\<open>Cygwin\<close>, \<^verbatim>\<open>Openssh_Pipe\<close> (src/internal/interfaces/*): the three interfaces: requests in shared memory, the socket
      file with its owner marker and handshake, the named pipe with its security descriptor.
    \<^item> \<^verbatim>\<open>App\<close> (src/internal/app): the goroutines of \<^verbatim>\<open>Run\<close> and \<^verbatim>\<open>Shutdown\<close> as a step relation; invariants hold in every interleaving
      (\<open>app_state_correct\<close>), and a shutdown comes to its end (\<open>app_shutdown_live\<close>).
    \<^item> \<^verbatim>\<open>Runtime\<close> (logging, autostart, singleton, control, open, cli): the daily log, the sign-in registration, the
      mutex, the shutdown event, opening files and the command line.
    \<^item> \<^verbatim>\<open>Icon\<close>, \<^verbatim>\<open>Tray\<close>, \<^verbatim>\<open>Dialogs\<close>, \<^verbatim>\<open>Keys\<close>, \<^verbatim>\<open>Windows_Ui\<close> (src/internal/tray): the choice of an icon image, the tray's state machine, the settings
      dialog, the list of keys and the passphrase prompt, on the values their controls hold; and below them the window helpers, on
      controls that answer messages, window classes, device contexts and the file dialog (\<open>keys_list_shown\<close> and \<open>controls_read_back\<close>
      show that the windows hold those values).
    \<^item> \<^verbatim>\<open>Main_Run\<close> (src/cmd/omnisshagent): the whole run, built from the above.
    \<^item> \<^verbatim>\<open>Supervised\<close>: the supervisor with the \<^verbatim>\<open>Start\<close> of the three interfaces for its environment, a simulation of \<^verbatim>\<open>App\<close>, which says
      what the shown state stands for (\<open>supervised_state\<close>) and that the whole ends (\<open>supervised_shutdown\<close>).  \<^verbatim>\<open>Composition\<close>: the settings
      dialog and the next run (\<open>settings_next_run\<close>), the three interfaces over one agent (\<open>interfaces_agree\<close>).
    \<^item> \<^verbatim>\<open>Test_Support\<close> (src/internal/testutil, src/internal/e2e, main_unsupported.go): the fake component, a fourth interpretation of
      \<open>ready_component\<close>, and the owner of the shutdown event (\<open>shutdown_request\<close>).
    \<^item> \<^verbatim>\<open>Omni_Prelude\<close>, \<^verbatim>\<open>Go_Lib\<close>, \<^verbatim>\<open>Os_Model\<close>: errors and their chains, results, byte orders; the functions of Go's library the sources
      use; the file system as a map with a trace of calls, each of which may fail, and the locale \<open>atomic_writer\<close>, which
      the writers of \<^verbatim>\<open>Config\<close> and \<^verbatim>\<open>Cygwin\<close> interpret.

  \<^bold>\<open>The previous program.\<close>

    \<^item> \<^verbatim>\<open>Legacy_Keyring\<close> (old/pkg/sshutil, sshkey, store, namedpipe/client.go and the key operations of old/app.go): the settings file,
      key files, the key ring around an agent and the client of another agent's pipe.
    \<^item> \<^verbatim>\<open>Legacy_Agents\<close> (agentlistener, namedpipe, unix, cygwinsocket) and \<^verbatim>\<open>Legacy_Pageant\<close> (old/pkg/pageant, \<^verbatim>\<open>checkAlreadyRunning\<close>): the
      agents, compared with the present interfaces: the same socket text, the same handshake for a client that sends in whole pieces,
      the same reply to every request the present window answers.
    \<^item> \<^verbatim>\<open>Legacy_Proxy\<close> and \<^verbatim>\<open>Legacy_Supervisor\<close> (old/cmd/wsl2-ssh-agent-proxy): the multiplexer over one PowerShell process, and the loop that starts
      the process again, with the goroutines around it (\<open>proxy_one_process\<close>).
    \<^item> \<^verbatim>\<open>Legacy_Log\<close> (filelog, npipe2stdin): the log's worker, with the buffers its channel holds by reference.
    \<^item> \<^verbatim>\<open>Legacy_Tray\<close> (wintray and the menu part of old/app.go): the command channel and the menu it keeps; \<^verbatim>\<open>Legacy_Loops\<close>: the
      message loops of the tray and of the Pageant window, the latter with the goroutine that ends it.
    \<^item> \<^verbatim>\<open>Legacy_Shell\<close> (old/main.go, \<^verbatim>\<open>startup\<close> and \<^verbatim>\<open>shutdown\<close> of old/app.go): the start of the program and its shutdown as a step relation, which
      ends if the tray has its window (\<open>legacy_shutdown_live\<close>) and in two orders of events does not (\<open>legacy_shutdown_hangs\<close>).
    \<^item> \<^verbatim>\<open>Legacy_App\<close> (old/app.go): the application object, with every method its window, its menu and its key ring call, and an abstract
      specification of its settings (\<open>legacy_settings_refine\<close>).
    \<^item> \<^verbatim>\<open>Legacy_Tools\<close> (old/cmd/omni-socat, pageant-add, agent-bench): the bridge and its two copies, the loader of keys, and the benchmark
      with its statistics, float64 rounding included.

  \<^bold>\<open>How the code is modelled.\<close>  Structs are records, errors are values of \<open>goerr\<close> with the chain \<^verbatim>\<open>errors.Is\<close> walks, a panic is an
  outcome (or \<open>None\<close>, where the text says so), stateful code passes its state, goroutines that share state are
  inductive step relations.  What the program calls and does not contain is a parameter: the agent
  protocol and the parsers of golang.org/x/crypto, TOML, JSON, UUIDs, path/filepath, the Windows API and the operating system's
  answers.  Strings are Go's byte strings; integers are words where the code's width matters.

  \<^bold>\<open>Bounds.\<close>  Loops that consume their input are recursive on it: the accept loops on the list of what \<^verbatim>\<open>Accept\<close>
  returns (a list that ends is a loop still waiting), the multiplexer's \<^verbatim>\<open>readLoop\<close> on the bytes of its stream.  Only the loop
  that forwards a connection's requests has fuel, a number of rounds; \<open>proxy_forwards\<close> shows that one round more than there are
  requests is enough, and \<open>proxy_spins\<close> that after an error other than the end of the stream no number is.

  \<^bold>\<open>What is not modelled.\<close>  What Windows paints, the tables of its procedures and the layout of its structures; what the Wails runtime does
  when it is called.  The text of a log record is slog's.  The order of the items in the legacy menu is not modelled, and
  where the legacy Pageant code leaves the mapped view, only that it does.  The methods of the legacy application object run one
  after the other in \<open>Legacy_App\<close>, each in a goroutine of its own in the program.

  This theory holds the properties that span the configuration, the backend and the start of the program.
\<close>

section \<open>The pipe that is dialed\<close>

text \<open>A configured pipe after validation: the trimmed text, with the prefix added if it has none in any case.\<close>

lemma validated_pipe:
  assumes "Validate fp pd cfg cp ld up = Inr rc" and "rc_BackendType rc = BackendWindowsOpenSSH"
  shows "let p = TrimSpace (bc_Pipe (cfg_Backend cfg)) in
    rc_BackendPipePath rc = (if HasPrefix (ToLower p) pipePrefix then p else pipePrefix @ p)"
  using assms by (auto simp: Validate_Inr_iff validate_backend_def Let_def split: if_splits option.splits)

lemma NormalizePipePath_HasPrefix:
  "NormalizePipePath p = (if HasPrefix p pipePrefix then p else pipePrefix @ p)"
  by (auto simp: NormalizePipePath_def HasPrefix_def)

text \<open>C38 (pipe_path_dialed). The OpenSSH backend dials the configured pipe, with the prefix added to a bare name; but a
  path that \<^verbatim>\<open>Validate\<close> accepts because its prefix differs from \<^verbatim>\<open>\\.\pipe\\<close> only in case gets the
  prefix a second time from \<^verbatim>\<open>NormalizePipePath\<close>, which compares exactly.\<close>

theorem pipe_path_dialed:
  assumes "Validate fp pd cfg cp ld up = Inr rc" and "newBackend keyring rc = Inr (BkOpenSSH c)"
  shows "let p = TrimSpace (bc_Pipe (cfg_Backend cfg)) in
    cl_pipePath c = (if HasPrefix p pipePrefix then p else pipePrefix @ p) \<and> cl_timeout c = rc_ConnectTimeout rc \<and>
    (HasPrefix (ToLower p) pipePrefix \<and> \<not> HasPrefix p pipePrefix \<longrightarrow>
       rc_BackendPipePath rc = p \<and> cl_pipePath c = pipePrefix @ p)"
proof -
  have c: "rc_BackendType rc = BackendWindowsOpenSSH" "c = openssh_New (rc_BackendPipePath rc) (rc_ConnectTimeout rc)"
    using assms(2) by (auto simp: newBackend_def split: if_splits sum.splits)
  have "HasPrefix (pipePrefix @ q) pipePrefix" for q by (simp add: HasPrefix_def)
  moreover have "HasPrefix q pipePrefix \<Longrightarrow> HasPrefix (ToLower q) pipePrefix" for q
    using ToLower_pipePrefix ToLower_append by (metis HasPrefix_def append_eq_conv_conj append_take_drop_id)
  ultimately show ?thesis using validated_pipe [OF assms(1) c(1)]
    by (auto simp: c(2) openssh_New_def NewWithDialer_def NormalizePipePath_HasPrefix Let_def)
qed

definition upper_pipe :: Config where
  "upper_pipe = Default\<lparr>cfg_Backend := \<lparr>bc_Type = BackendWindowsOpenSSH,
     bc_Pipe = [bslash, bslash] @ ''.'' @ [bslash] @ ''PIPE'' @ [bslash] @ ''x'', bc_ConnectTimeout = ''5s''\<rparr>\<rparr>"

theorem pipe_path_dialed_witness:
  "\<exists>rc c. Validate sample_fp sample_durations upper_pipe sample_path '''' ''C:'' = Inr rc \<and>
     newBackend None rc = Inr (BkOpenSSH c :: nat main_backend) \<and>
     cl_pipePath c = pipePrefix @ [bslash, bslash] @ ''.'' @ [bslash] @ ''PIPE'' @ [bslash] @ ''x''"
proof -
  let ?p = "[bslash, bslash] @ ''.'' @ [bslash] @ ''PIPE'' @ [bslash] @ ''x''"
  have t: "TrimSpace ?p = ?p" "HasPrefix (ToLower ?p) pipePrefix" "\<not> HasPrefix ?p pipePrefix" by code_simp+
  have "valid_config sample_fp sample_durations upper_pipe ''C:''"
    using t by (simp add: valid_config_def valid_backend_def upper_pipe_def Default_def sample_durations_def Let_def
        SchemaVersion_def ToLower_def lower_char_def char_code_def)
  then obtain rc where rc: "Validate sample_fp sample_durations upper_pipe sample_path '''' ''C:'' = Inr rc"
    using Validate_accepts_iff by blast
  then have "rc_BackendType rc = BackendWindowsOpenSSH" by (auto simp: Validate_Inr_iff upper_pipe_def)
  then obtain c where c: "newBackend None rc = Inr (BkOpenSSH c :: nat main_backend)" by (simp add: newBackend_def)
  from pipe_path_dialed [OF rc c] t rc c show ?thesis by (simp add: upper_pipe_def Let_def)
qed

end
